theory Spec2Isabelle
  imports Complex_Main
begin

section \<open>JavaScript values and string helpers\<close>

text \<open>
  A decoded API payload is a JSON value. \<open>undefined\<close> (a missing key, a missing
  property) is \<open>None\<close> of \<open>json option\<close>; \<open>null\<close> is \<open>JNull\<close>. The numbers the
  program reads are whole (levels, generation numbers, flags), so a number is an \<open>int\<close>.
  Strings are byte lists; the two non-ASCII literals of the source (the bullet and the
  em-dash) are written as their UTF-8 bytes, and \<open>toUpperCase\<close> acts on the ASCII
  letters, which is all that the slugs of the API contain.
\<close>

datatype json =
  JNull
  | JBool bool
  | JNum int
  | JStr string
  | JArr "json list"
  | JObj "(string \<times> json) list"

text \<open>Truthiness, as \<open>if (x)\<close>, \<open>!!x\<close> and \<open>x || y\<close> test it.\<close>

fun truthy :: "json \<Rightarrow> bool" where
  "truthy JNull = False"
| "truthy (JBool b) = b"
| "truthy (JNum n) = (n \<noteq> 0)"
| "truthy (JStr s) = (s \<noteq> [])"
| "truthy (JArr xs) = True"
| "truthy (JObj kvs) = True"

definition truthy_opt :: "json option \<Rightarrow> bool" where
  "truthy_opt x = (case x of None \<Rightarrow> False | Some v \<Rightarrow> truthy v)"

text \<open>
  Property access. \<open>get_prop\<close> is an own property of an object and \<open>undefined\<close> on
  anything else (none of the keys the program reads from a payload is the name of an
  inherited member), and \<open>opt_prop\<close> is the optional chain \<open>x?.k\<close>. A name is read
  at the type the upstream schema gives it: \<open>as_string\<close> reads a value that is no
  string as absent.
\<close>

fun get_prop :: "string \<Rightarrow> json \<Rightarrow> json option" where
  "get_prop k (JObj kvs) = map_of kvs k"
| "get_prop k v = None"

definition opt_prop :: "json option \<Rightarrow> string \<Rightarrow> json option" where
  "opt_prop x k = (case x of None \<Rightarrow> None | Some JNull \<Rightarrow> None | Some v \<Rightarrow> get_prop k v)"

definition as_string :: "json option \<Rightarrow> string option" where
  "as_string x = (case x of Some (JStr s) \<Rightarrow> Some s | _ \<Rightarrow> None)"

text \<open>\<open>x || d\<close> for a string that may be missing: the empty string is falsy too.\<close>

definition str_or :: "string option \<Rightarrow> string \<Rightarrow> string" where
  "str_or x d = (case x of None \<Rightarrow> d | Some n \<Rightarrow> if n = [] then d else n)"

definition str_truthy :: "string option \<Rightarrow> bool" where
  "str_truthy x = (case x of None \<Rightarrow> False | Some n \<Rightarrow> n \<noteq> [])"

definition startsWith :: "string \<Rightarrow> string \<Rightarrow> bool" where
  "startsWith s p = (take (length p) s = p)"

fun str_includes :: "string \<Rightarrow> string \<Rightarrow> bool" where
  "str_includes [] p = (p = [])"
| "str_includes (c # cs) p = (startsWith (c # cs) p \<or> str_includes cs p)"

text \<open>\<open>s.replace(pat, rep)\<close> with a string pattern: the first occurrence only.\<close>

fun replace_first :: "string \<Rightarrow> string \<Rightarrow> string \<Rightarrow> string" where
  "replace_first [] pat rep = (if pat = [] then rep else [])"
| "replace_first (c # cs) pat rep =
     (if startsWith (c # cs) pat then rep @ drop (length pat) (c # cs)
      else c # replace_first cs pat rep)"

fun split_on :: "char \<Rightarrow> string \<Rightarrow> string list" where
  "split_on sep [] = [[]]"
| "split_on sep (c # cs) =
     (if c = sep then [] # split_on sep cs
      else (case split_on sep cs of [] \<Rightarrow> [[c]] | w # ws \<Rightarrow> (c # w) # ws))"

fun join :: "string \<Rightarrow> string list \<Rightarrow> string" where
  "join sep [] = []"
| "join sep [w] = w"
| "join sep (w # v # ws) = w @ sep @ join sep (v # ws)"

definition toUpperCase_char :: "char \<Rightarrow> char" where
  "toUpperCase_char c =
     (case map_of (zip ''abcdefghijklmnopqrstuvwxyz'' ''ABCDEFGHIJKLMNOPQRSTUVWXYZ'') c of
        None \<Rightarrow> c | Some u \<Rightarrow> u)"

definition titleCaseSlug :: "string \<Rightarrow> string" where
  "titleCaseSlug v =
     (if v = [] then []
      else join '' '' (map (\<lambda>w. case w of [] \<Rightarrow> [] | c # cs \<Rightarrow> toUpperCase_char c # cs)
                        (split_on CHR ''-'' v)))"

text \<open>A number inside a template literal: its decimal digits.\<close>

fun show_nat :: "nat \<Rightarrow> string" where
  "show_nat n =
     (if n < 10 then [''0123456789'' ! n]
      else show_nat (n div 10) @ [''0123456789'' ! (n mod 10)])"

declare show_nat.simps [simp del]

definition show_int :: "int \<Rightarrow> string" where
  "show_int i = (if i < 0 then CHR ''-'' # show_nat (nat (- i)) else show_nat (nat i))"

definition bullet :: string where
  "bullet = [CHR 0xE2, CHR 0x80, CHR 0xA2]"

definition emdash :: string where
  "emdash = [CHR 0xE2, CHR 0x80, CHR 0x94]"

text \<open>
  \<open>Array.prototype.sort(cmp)\<close> is stable; for a comparator that is a consistent
  ordering its result is the one of a stable insertion sort, which is the model.
  \<open>localeCompare\<close> is a parameter \<open>lc\<close> of every function that sorts by it.
\<close>

fun insort_by :: "('a \<Rightarrow> 'a \<Rightarrow> int) \<Rightarrow> 'a \<Rightarrow> 'a list \<Rightarrow> 'a list" where
  "insort_by cmp x [] = [x]"
| "insort_by cmp x (y # ys) =
     (if cmp x y \<le> 0 then x # y # ys else y # insort_by cmp x ys)"

definition sort_by :: "('a \<Rightarrow> 'a \<Rightarrow> int) \<Rightarrow> 'a list \<Rightarrow> 'a list" where
  "sort_by cmp xs = foldr (insort_by cmp) xs []"

text \<open>\<open>Array.from(new Set(xs))\<close>: the first occurrence of each element, in order.\<close>

fun uniq :: "'a list \<Rightarrow> 'a list" where
  "uniq [] = []"
| "uniq (x # xs) = x # filter (\<lambda>y. y \<noteq> x) (uniq xs)"

text \<open>
  An object literal used as a lookup table, \<open>table[key]\<close>. A key that is not an own
  key of the literal is looked up in \<open>Object.prototype\<close>, whose members
  (\<open>object_prototype_keys\<close>, the names the language standard gives it) are built-in
  functions, and \<open>__proto__\<close>, which is \<open>Object.prototype\<close> itself. So a lookup yields
  the own value, or the built-in of that name (\<open>Inherited\<close>), or \<open>undefined\<close>
  (\<open>Absent\<close>). A built-in is neither nullish nor falsy, and as a number it is \<open>NaN\<close>.
\<close>

definition object_prototype_keys :: "string list" where
  "object_prototype_keys =
     [''constructor'', ''__defineGetter__'', ''__defineSetter__'', ''hasOwnProperty'',
      ''__lookupGetter__'', ''__lookupSetter__'', ''isPrototypeOf'', ''propertyIsEnumerable'',
      ''toString'', ''valueOf'', ''__proto__'', ''toLocaleString'']"

datatype 'a member = Absent | Own 'a | Inherited string

definition lookup :: "(string \<times> 'a) list \<Rightarrow> string \<Rightarrow> 'a member" where
  "lookup table key =
     (case map_of table key of
        Some v \<Rightarrow> Own v
      | None \<Rightarrow> if key \<in> set object_prototype_keys then Inherited key else Absent)"

text \<open>
  What \<open>genSlugToNumber\<close> returns, and the resolvers cache: a number, or the built-in
  that the lookup \<open>map[roman]\<close> found in \<open>Object.prototype\<close>, which is not nullish
  and so passes \<open>?? 999\<close>.
\<close>

datatype genval = GenNum int | Builtin string

section \<open>State: persistent store, network and in-memory caches\<close>

text \<open>
  The module's state, passed explicitly: the IndexedDB object store \<open>api-cache\<close> of
  \<open>offlineDB.js\<close>, the settings in \<open>localStorage\<close>, and the module-level \<open>Map\<close>s of
  \<open>App.jsx\<close>. The network is the environment: \<open>net i url\<close> is the answer to the
  request for \<open>url\<close> issued after \<open>i\<close> earlier requests, so the same URL may be
  answered differently at different times. \<open>netlog\<close> records every request issued.
  A response is a rejected \<open>fetch\<close> promise, or a status flag \<open>res.ok\<close> with the
  result of \<open>res.json()\<close> (\<open>None\<close> when the body is not JSON and \<open>json()\<close> throws).
  The asynchronous functions are modelled run to completion, one after the other,
  except where the source starts several together (\<open>withGen\<close> below); the
  store honours its contract (\<open>get\<close>, \<open>put\<close> and \<open>clear\<close> do not reject).
\<close>

datatype response = Rejected | Response bool "json option"

type_synonym network = "nat \<Rightarrow> string \<Rightarrow> response"

datatype error = NetworkError | SyntaxError | TypeError

record state =
  store :: "string \<rightharpoonup> json"
  netlog :: "string list"
  localStorage :: "string \<rightharpoonup> string"
  versionGenCache :: "string \<rightharpoonup> genval \<times> string"
  versionGroupGenCache :: "string \<rightharpoonup> genval"
  pokemonCache :: "string \<rightharpoonup> json"
  pokemonExistsCache :: "string \<rightharpoonup> bool"
  speciesDefaultPokemonCache :: "string \<rightharpoonup> string"
  spriteCache :: "string \<rightharpoonup> string"
  moveCache :: "string \<rightharpoonup> json"
  moveMiniCache :: "string \<rightharpoonup> string \<times> string"
  abilityCache :: "string \<rightharpoonup> json"
  itemCache :: "string \<rightharpoonup> json"
  itemCategoryCache :: "string \<rightharpoonup> string list"

text \<open>The state of a freshly loaded page over a given store and settings.\<close>

definition fresh_page :: "(string \<rightharpoonup> json) \<Rightarrow> (string \<rightharpoonup> string) \<Rightarrow> string list \<Rightarrow> state" where
  "fresh_page db settings requests =
     \<lparr> store = db, netlog = requests, localStorage = settings,
       versionGenCache = Map.empty, versionGroupGenCache = Map.empty,
       pokemonCache = Map.empty, pokemonExistsCache = Map.empty,
       speciesDefaultPokemonCache = Map.empty, spriteCache = Map.empty,
       moveCache = Map.empty, moveMiniCache = Map.empty, abilityCache = Map.empty,
       itemCache = Map.empty, itemCategoryCache = Map.empty \<rparr>"

definition init_state :: state where
  "init_state = fresh_page Map.empty Map.empty []"

subsection \<open>offlineDB.js\<close>

definition saveToCache :: "string \<Rightarrow> json \<Rightarrow> state \<Rightarrow> state" where
  "saveToCache key data s = s\<lparr>store := (store s)(key \<mapsto> data)\<rparr>"

definition getFromCache :: "string \<Rightarrow> state \<Rightarrow> json option" where
  "getFromCache key s = store s key"

definition clearCache :: "state \<Rightarrow> state" where
  "clearCache s = s\<lparr>store := Map.empty\<rparr>"

subsection \<open>The fetch-with-cache layer\<close>

definition fetch :: "network \<Rightarrow> string \<Rightarrow> state \<Rightarrow> response \<times> state" where
  "fetch net url s = (net (length (netlog s)) url, s\<lparr>netlog := netlog s @ [url]\<rparr>)"

text \<open>
  The body of the \<open>try\<close> block of \<open>fetchJsonOrNull\<close>: \<open>Inl\<close> is an exception thrown
  inside it (by \<open>fetch\<close> or by \<open>res.json()\<close>), \<open>Inr\<close> a value returned from it.
\<close>

definition fetchJsonOrNull_try :: "network \<Rightarrow> string \<Rightarrow> state \<Rightarrow> (error + json) \<times> state" where
  "fetchJsonOrNull_try net url s =
     (case fetch net url s of
        (Rejected, s1) \<Rightarrow> (Inl NetworkError, s1)
      | (Response ok body, s1) \<Rightarrow>
          if \<not> ok then (Inr JNull, s1)
          else (case body of
                  None \<Rightarrow> (Inl SyntaxError, s1)
                | Some data \<Rightarrow> (Inr data, saveToCache url data s1)))"

definition fetchJsonOrNull :: "network \<Rightarrow> string \<Rightarrow> state \<Rightarrow> json \<times> state" where
  "fetchJsonOrNull net url s =
     (case getFromCache url s of
        Some cached \<Rightarrow>
          if truthy cached then (cached, s)
          else (case fetchJsonOrNull_try net url s of
                  (Inl e, s1) \<Rightarrow> (JNull, s1)
                | (Inr v, s1) \<Rightarrow> (v, s1))
      | None \<Rightarrow>
          (case fetchJsonOrNull_try net url s of
             (Inl e, s1) \<Rightarrow> (JNull, s1)
           | (Inr v, s1) \<Rightarrow> (v, s1)))"

subsection \<open>Generation resolver\<close>

definition genSlugToNumber :: "string option \<Rightarrow> genval" where
  "genSlugToNumber genSlug =
     (let roman = replace_first (str_or genSlug []) ''generation-'' []
      in case lookup [(''i'', 1), (''ii'', 2), (''iii'', 3), (''iv'', 4), (''v'', 5),
                      (''vi'', 6), (''vii'', 7), (''viii'', 8), (''ix'', 9)] roman of
           Own n \<Rightarrow> GenNum n
         | Absent \<Rightarrow> GenNum 999
         | Inherited k \<Rightarrow> Builtin k)"

definition version_url :: "string \<Rightarrow> string" where
  "version_url versionName = ''https://pokeapi.co/api/v2/version/'' @ versionName"

definition version_group_url :: "string \<Rightarrow> string" where
  "version_group_url vgName = ''https://pokeapi.co/api/v2/version-group/'' @ vgName"

definition name_of :: "json option \<Rightarrow> string option" where
  "name_of x = as_string (opt_prop x ''name'')"

definition fallback :: "genval \<times> string" where
  "fallback = (GenNum 999, [])"

definition set_versionGen :: "string \<Rightarrow> genval \<times> string \<Rightarrow> state \<Rightarrow> state" where
  "set_versionGen k m s = s\<lparr>versionGenCache := (versionGenCache s)(k \<mapsto> m)\<rparr>"

definition set_versionGroupGen :: "string \<Rightarrow> genval \<Rightarrow> state \<Rightarrow> state" where
  "set_versionGroupGen k n s = s\<lparr>versionGroupGenCache := (versionGroupGenCache s)(k \<mapsto> n)\<rparr>"

text \<open>
  The \<open>try\<close> block of \<open>getVersionGenNumber\<close>. It does not look at \<open>res.ok\<close>: a
  response of any status whose body decodes is read.
\<close>

definition getVersionGenNumber_try ::
  "network \<Rightarrow> string \<Rightarrow> state \<Rightarrow> (error + genval \<times> string) \<times> state" where
  "getVersionGenNumber_try net versionName s =
     (case fetch net (version_url versionName) s of
        (Rejected, s1) \<Rightarrow> (Inl NetworkError, s1)
      | (Response ok body, s1) \<Rightarrow>
          (case body of
             None \<Rightarrow> (Inl SyntaxError, s1)
           | Some vData \<Rightarrow>
               (case name_of (opt_prop (Some vData) ''version_group'') of
                  None \<Rightarrow> (Inr fallback, set_versionGen versionName fallback s1)
                | Some vgName \<Rightarrow>
                    if vgName = [] then (Inr fallback, set_versionGen versionName fallback s1)
                    else
                      (case fetch net (version_group_url vgName) s1 of
                         (Rejected, s2) \<Rightarrow> (Inl NetworkError, s2)
                       | (Response ok2 body2, s2) \<Rightarrow>
                           (case body2 of
                              None \<Rightarrow> (Inl SyntaxError, s2)
                            | Some vgData \<Rightarrow>
                                let genSlug = name_of (opt_prop (Some vgData) ''generation'');
                                    meta = (genSlugToNumber genSlug, vgName)
                                in (Inr meta, set_versionGen versionName meta s2))))))"

definition getVersionGenNumber :: "network \<Rightarrow> string \<Rightarrow> state \<Rightarrow> (genval \<times> string) \<times> state" where
  "getVersionGenNumber net versionName s =
     (case versionGenCache s versionName of
        Some m \<Rightarrow> (m, s)
      | None \<Rightarrow>
          (case getVersionGenNumber_try net versionName s of
             (Inl e, s1) \<Rightarrow> (fallback, set_versionGen versionName fallback s1)
           | (Inr m, s1) \<Rightarrow> (m, s1)))"

text \<open>
  \<open>getVersionGroupGenNumber\<close> runs without a pause up to its first \<open>await\<close>: the
  guard, the cache test and, on a miss, the call of \<open>fetch\<close>. After that it has its
  value (\<open>Ready\<close>), or its request is in the log and it waits for the answer
  (\<open>Waiting\<close>, with the position of the request in the log). The \<open>try\<close> block throws
  when \<open>fetch\<close> rejects or \<open>res.json()\<close> throws, and returns 999 for a response
  without a success status and the generation otherwise;
  \<open>getVersionGroupGenNumber_answer\<close> is what the call then returns, the 999 of the
  \<open>catch\<close> included. Each of these returns stores the value returned under the
  name: \<open>getVersionGroupGenNumber_settle\<close>. The argument may be \<open>undefined\<close>
  (\<open>None\<close>): callers pass \<open>d.version_group?.name\<close>.
\<close>

datatype started = Ready genval | Waiting nat string response

definition getVersionGroupGenNumber_start ::
  "network \<Rightarrow> string option \<Rightarrow> state \<Rightarrow> started \<times> state" where
  "getVersionGroupGenNumber_start net vgName s =
     (case vgName of
        None \<Rightarrow> (Ready (GenNum 999), s)
      | Some vg \<Rightarrow>
          if vg = [] then (Ready (GenNum 999), s)
          else (case versionGroupGenCache s vg of
                  Some n \<Rightarrow> (Ready n, s)
                | None \<Rightarrow>
                    (case fetch net (version_group_url vg) s of
                       (res, s1) \<Rightarrow> (Waiting (length (netlog s)) vg res, s1))))"

definition getVersionGroupGenNumber_try :: "response \<Rightarrow> error + genval" where
  "getVersionGroupGenNumber_try res =
     (case res of
        Rejected \<Rightarrow> Inl NetworkError
      | Response ok body \<Rightarrow>
          if \<not> ok then Inr (GenNum 999)
          else (case body of
                  None \<Rightarrow> Inl SyntaxError
                | Some data \<Rightarrow>
                    let genSlug = name_of (opt_prop (Some data) ''generation'')
                    in Inr (genSlugToNumber genSlug)))"

definition getVersionGroupGenNumber_answer :: "response \<Rightarrow> genval" where
  "getVersionGroupGenNumber_answer res =
     (case getVersionGroupGenNumber_try res of Inl e \<Rightarrow> GenNum 999 | Inr genNum \<Rightarrow> genNum)"

definition getVersionGroupGenNumber_settle :: "string \<Rightarrow> response \<Rightarrow> state \<Rightarrow> genval \<times> state" where
  "getVersionGroupGenNumber_settle vgName res s =
     (let genNum = getVersionGroupGenNumber_answer res
      in (genNum, set_versionGroupGen vgName genNum s))"

definition getVersionGroupGenNumber :: "network \<Rightarrow> string option \<Rightarrow> state \<Rightarrow> genval \<times> state" where
  "getVersionGroupGenNumber net vgName s =
     (case getVersionGroupGenNumber_start net vgName s of
        (Ready n, s1) \<Rightarrow> (n, s1)
      | (Waiting i vg res, s1) \<Rightarrow> getVersionGroupGenNumber_settle vg res s1)"

subsection \<open>Name and variant resolver\<close>

definition regionSuffixForDex :: "string \<Rightarrow> string option" where
  "regionSuffixForDex dexKey =
     (if str_includes dexKey ''alola'' then Some ''alola''
      else if dexKey = ''galar'' then Some ''galar''
      else if dexKey = ''paldea'' then Some ''paldea''
      else None)"

definition pokemon_url :: "string \<Rightarrow> string" where
  "pokemon_url pokemonName = ''https://pokeapi.co/api/v2/pokemon/'' @ pokemonName"

definition species_url :: "string \<Rightarrow> string" where
  "species_url speciesName = ''https://pokeapi.co/api/v2/pokemon-species/'' @ speciesName"

definition set_pokemon :: "string \<Rightarrow> json \<Rightarrow> state \<Rightarrow> state" where
  "set_pokemon k v s = s\<lparr>pokemonCache := (pokemonCache s)(k \<mapsto> v)\<rparr>"

definition pokemonExists :: "network \<Rightarrow> string \<Rightarrow> state \<Rightarrow> bool \<times> state" where
  "pokemonExists net pokemonName s =
     (case pokemonExistsCache s pokemonName of
        Some b \<Rightarrow> (b, s)
      | None \<Rightarrow>
          (case fetchJsonOrNull net (pokemon_url pokemonName) s of
             (data, s1) \<Rightarrow>
               let ok = truthy data;
                   s2 = s1\<lparr>pokemonExistsCache := (pokemonExistsCache s1)(pokemonName \<mapsto> ok)\<rparr>
               in if ok \<and> pokemonCache s2 pokemonName = None
                  then (ok, set_pokemon pokemonName data s2)
                  else (ok, s2)))"

text \<open>
  \<open>sData?.varieties?.find((v) => v.is_default)?.pokemon?.name\<close>. The callback reads
  \<open>v.is_default\<close>, which throws a \<open>TypeError\<close> when the element \<open>v\<close> is
  \<open>null\<close>; \<open>find\<close> stops at the first element whose flag is truthy. A value of
  \<open>varieties\<close> that is neither nullish nor an array has no \<open>find\<close>, and the call
  throws.
\<close>

fun find_default :: "json list \<Rightarrow> error + json option" where
  "find_default [] = Inr None"
| "find_default (v # vs) =
     (if v = JNull then Inl TypeError
      else if truthy_opt (get_prop ''is_default'' v) then Inr (Some v)
      else find_default vs)"

definition default_variety_name :: "json \<Rightarrow> error + string option" where
  "default_variety_name sData =
     (case opt_prop (Some sData) ''varieties'' of
        None \<Rightarrow> Inr None
      | Some JNull \<Rightarrow> Inr None
      | Some (JArr vs) \<Rightarrow>
          (case find_default vs of
             Inl e \<Rightarrow> Inl e
           | Inr v \<Rightarrow> Inr (name_of (opt_prop v ''pokemon'')))
      | Some varieties \<Rightarrow> Inl TypeError)"

text \<open>
  An exception thrown in an asynchronous function rejects its promise (\<open>Inl\<close>), and
  with it the promise of a caller that awaits it outside a \<open>try\<close>. Nothing is stored
  for the species then.
\<close>

definition getDefaultPokemonNameFromSpecies ::
  "network \<Rightarrow> string \<Rightarrow> state \<Rightarrow> (error + string) \<times> state" where
  "getDefaultPokemonNameFromSpecies net speciesName s =
     (case speciesDefaultPokemonCache s speciesName of
        Some d \<Rightarrow> (Inr d, s)
      | None \<Rightarrow>
          (case fetchJsonOrNull net (species_url speciesName) s of
             (sData, s1) \<Rightarrow>
               (case default_variety_name sData of
                  Inl e \<Rightarrow> (Inl e, s1)
                | Inr n \<Rightarrow>
                    let d = str_or n speciesName
                    in (Inr d, s1\<lparr>speciesDefaultPokemonCache :=
                                     (speciesDefaultPokemonCache s1)(speciesName \<mapsto> d)\<rparr>))))"

text \<open>
  The result of \<open>getPokemonDataSmart\<close> is what \<open>Map.get\<close> gives, which may be
  \<open>undefined\<close> (\<open>None\<close>), or \<open>null\<close> (\<open>Some JNull\<close>). \<open>getPokemonDataSmart_rest\<close>
  is the part of the function after the regional probe.
\<close>

definition getPokemonDataSmart_rest ::
  "network \<Rightarrow> string \<Rightarrow> string \<Rightarrow> state \<Rightarrow> json option \<times> state" where
  "getPokemonDataSmart_rest net defaultPokemon speciesName s =
     (case pokemonExists net defaultPokemon s of
        (ok1, s1) \<Rightarrow>
          if ok1 then (pokemonCache s1 defaultPokemon, s1)
          else (case pokemonExists net speciesName s1 of
                  (ok2, s2) \<Rightarrow>
                    if ok2 then (pokemonCache s2 speciesName, s2) else (Some JNull, s2)))"

definition getPokemonDataSmart ::
  "network \<Rightarrow> string \<Rightarrow> string \<Rightarrow> state \<Rightarrow> (error + json option) \<times> state" where
  "getPokemonDataSmart net speciesName dexKey s =
     (case getDefaultPokemonNameFromSpecies net speciesName s of
        (Inl e, s1) \<Rightarrow> (Inl e, s1)
      | (Inr defaultPokemon, s1) \<Rightarrow>
          (case regionSuffixForDex dexKey of
             None \<Rightarrow>
               (case getPokemonDataSmart_rest net defaultPokemon speciesName s1 of
                  (r, s2) \<Rightarrow> (Inr r, s2))
           | Some suffix \<Rightarrow>
               (case pokemonExists net (defaultPokemon @ ''-'' @ suffix) s1 of
                  (ok, s2) \<Rightarrow>
                    if ok then (Inr (pokemonCache s2 (defaultPokemon @ ''-'' @ suffix)), s2)
                    else (case getPokemonDataSmart_rest net defaultPokemon speciesName s2 of
                            (r, s3) \<Rightarrow> (Inr r, s3)))))"

subsection \<open>The other cached lookups\<close>

definition sprite_of :: "json \<Rightarrow> bool \<Rightarrow> string" where
  "sprite_of data shiny =
     (let sprites = opt_prop (Some data) ''sprites'';
          front_default = as_string (opt_prop sprites ''front_default'');
          front_shiny = as_string (opt_prop sprites ''front_shiny'')
      in str_or (if shiny then front_shiny else front_default) (str_or front_default []))"

definition getSpriteForPokemonName ::
  "network \<Rightarrow> string \<Rightarrow> bool \<Rightarrow> state \<Rightarrow> string \<times> state" where
  "getSpriteForPokemonName net pokemonName shiny s =
     (let key = pokemonName @ ''::'' @ (if shiny then ''shiny'' else ''normal'') in
      case spriteCache s key of
        Some v \<Rightarrow> (v, s)
      | None \<Rightarrow>
          (case (if truthy_opt (pokemonCache s pokemonName)
                 then (case pokemonCache s pokemonName of Some d \<Rightarrow> (d, s) | None \<Rightarrow> (JNull, s))
                 else fetchJsonOrNull net (pokemon_url pokemonName) s) of
             (data, s1) \<Rightarrow>
               let s2 = (if truthy data then set_pokemon pokemonName data s1 else s1);
                   v = sprite_of data shiny
               in (v, s2\<lparr>spriteCache := (spriteCache s2)(key \<mapsto> v)\<rparr>)))"

definition move_url :: "string \<Rightarrow> string" where
  "move_url moveName = ''https://pokeapi.co/api/v2/move/'' @ moveName"

definition getMoveMini :: "network \<Rightarrow> string \<Rightarrow> state \<Rightarrow> (string \<times> string) \<times> state" where
  "getMoveMini net moveName s =
     (case moveMiniCache s moveName of
        Some m \<Rightarrow> (m, s)
      | None \<Rightarrow>
          (case (if truthy_opt (moveCache s moveName)
                 then (case moveCache s moveName of Some d \<Rightarrow> (d, s) | None \<Rightarrow> (JNull, s))
                 else fetchJsonOrNull net (move_url moveName) s) of
             (data, s1) \<Rightarrow>
               if truthy data then
                 let mini = (str_or (name_of (opt_prop (Some data) ''type'')) ''unknown'',
                             str_or (name_of (opt_prop (Some data) ''damage_class'')) ''status'')
                 in (mini, s1\<lparr>moveCache := (moveCache s1)(moveName \<mapsto> data),
                               moveMiniCache := (moveMiniCache s1)(moveName \<mapsto> mini)\<rparr>)
               else
                 let mini = (''unknown'', ''status'')
                 in (mini, s1\<lparr>moveMiniCache := (moveMiniCache s1)(moveName \<mapsto> mini)\<rparr>)))"

definition getAbilityData :: "network \<Rightarrow> string \<Rightarrow> state \<Rightarrow> json \<times> state" where
  "getAbilityData net abilityName s =
     (case abilityCache s abilityName of
        Some v \<Rightarrow> (v, s)
      | None \<Rightarrow>
          (case fetchJsonOrNull net (''https://pokeapi.co/api/v2/ability/'' @ abilityName) s of
             (data, s1) \<Rightarrow>
               (data, if truthy data
                      then s1\<lparr>abilityCache := (abilityCache s1)(abilityName \<mapsto> data)\<rparr>
                      else s1)))"

definition getItemData :: "network \<Rightarrow> string \<Rightarrow> state \<Rightarrow> json \<times> state" where
  "getItemData net itemName s =
     (case itemCache s itemName of
        Some v \<Rightarrow> (v, s)
      | None \<Rightarrow>
          (case fetchJsonOrNull net (''https://pokeapi.co/api/v2/item/'' @ itemName) s of
             (data, s1) \<Rightarrow>
               (data, if truthy data
                      then s1\<lparr>itemCache := (itemCache s1)(itemName \<mapsto> data)\<rparr>
                      else s1)))"

text \<open>
  \<open>(data?.items || []).map((x) => x.name).filter(Boolean)\<close>: \<open>map\<close> is missing on
  a truthy value that is no array, and its callback throws on a \<open>null\<close> element.
\<close>

fun item_names :: "json list \<Rightarrow> error + string list" where
  "item_names [] = Inr []"
| "item_names (x # xs) =
     (if x = JNull then Inl TypeError
      else (case item_names xs of
              Inl e \<Rightarrow> Inl e
            | Inr ns \<Rightarrow> Inr (str_or (as_string (get_prop ''name'' x)) [] # ns)))"

definition category_items :: "json \<Rightarrow> error + string list" where
  "category_items data =
     (case opt_prop (Some data) ''items'' of
        None \<Rightarrow> Inr []
      | Some (JArr xs) \<Rightarrow>
          (case item_names xs of
             Inl e \<Rightarrow> Inl e
           | Inr ns \<Rightarrow> Inr (filter (\<lambda>n. n \<noteq> []) ns))
      | Some items \<Rightarrow> if truthy items then Inl TypeError else Inr [])"

definition getItemsInCategory ::
  "network \<Rightarrow> string \<Rightarrow> state \<Rightarrow> (error + string list) \<times> state" where
  "getItemsInCategory net categoryName s =
     (case itemCategoryCache s categoryName of
        Some v \<Rightarrow> (Inr v, s)
      | None \<Rightarrow>
          (case fetchJsonOrNull net (''https://pokeapi.co/api/v2/item-category/'' @ categoryName) s of
             (data, s1) \<Rightarrow>
               (case category_items data of
                  Inl e \<Rightarrow> (Inl e, s1)
                | Inr names \<Rightarrow>
                    (Inr names, s1\<lparr>itemCategoryCache :=
                                      (itemCategoryCache s1)(categoryName \<mapsto> names)\<rparr>))))"

subsection \<open>Cache writes of the details view\<close>

text \<open>
  Inside \<open>DetailsModal\<close>: the base entity fetched by \<open>load\<close>, \<open>loadDisplayed\<close>,
  \<open>loadMove\<close> and \<open>getSpriteForName\<close>. \<open>alive\<close> is the liveness flag read after
  the fetch.
\<close>

definition loadBasePoke :: "network \<Rightarrow> string \<Rightarrow> state \<Rightarrow> json \<times> state" where
  "loadBasePoke net baseName s =
     (case fetchJsonOrNull net (pokemon_url baseName) s of
        (basePoke, s1) \<Rightarrow>
          (basePoke, if truthy basePoke then set_pokemon baseName basePoke s1 else s1))"

definition loadDisplayed :: "network \<Rightarrow> string \<Rightarrow> bool \<Rightarrow> state \<Rightarrow> state" where
  "loadDisplayed net displayPokemonName alive s =
     (if displayPokemonName = [] then s
      else (case fetchJsonOrNull net (pokemon_url displayPokemonName) s of
              (data, s1) \<Rightarrow>
                if \<not> alive then s1
                else if truthy data then set_pokemon displayPokemonName data s1
                else s1))"

definition loadMove :: "network \<Rightarrow> string \<Rightarrow> bool \<Rightarrow> state \<Rightarrow> state" where
  "loadMove net selectedMove alive s =
     (if selectedMove = [] then s
      else if moveCache s selectedMove \<noteq> None then s
      else (case fetchJsonOrNull net (move_url selectedMove) s of
              (data, s1) \<Rightarrow>
                if \<not> alive then s1
                else if truthy data then s1\<lparr>moveCache := (moveCache s1)(selectedMove \<mapsto> data)\<rparr>
                else s1))"

definition getSpriteForName ::
  "network \<Rightarrow> string \<Rightarrow> state \<Rightarrow> (error + string) \<times> state" where
  "getSpriteForName net speciesNm s =
     (case getDefaultPokemonNameFromSpecies net speciesNm s of
        (Inl e, s1) \<Rightarrow> (Inl e, s1)
      | (Inr d, s1) \<Rightarrow>
          (case pokemonExists net d s1 of
             (ok, s2) \<Rightarrow>
               if \<not> ok then (Inr [], s2)
               else (case getSpriteForPokemonName net d False s2 of
                       (v, s3) \<Rightarrow> (Inr v, s3))))"

subsection \<open>Variant and form catalog\<close>

definition isRegionalVariant :: "string \<Rightarrow> bool" where
  "isRegionalVariant pnm =
     (str_includes pnm ''-alola'' \<or> str_includes pnm ''-galar'' \<or>
      str_includes pnm ''-hisui'' \<or> str_includes pnm ''-paldea'')"

definition isMega :: "string \<Rightarrow> bool" where
  "isMega pnm = str_includes pnm ''-mega''"

definition isGmax :: "string \<Rightarrow> bool" where
  "isGmax pnm = str_includes pnm ''-gmax''"

definition prettyLabel :: "string \<Rightarrow> string \<Rightarrow> string" where
  "prettyLabel baseName pnm =
     (if pnm = baseName then ''Base''
      else
        let tail = (if startsWith pnm (baseName @ ''-'')
                    then drop (length baseName + 1) pnm else pnm)
        in if tail = ''gmax'' then ''Gigantamax''
           else if tail = ''mega'' then ''Mega''
           else titleCaseSlug
                  (replace_first (replace_first tail ''mega-x'' ''Mega X'') ''mega-y'' ''Mega Y''))"

record option_entry =
  label :: string
  pokemonName :: string

record catalog =
  variants :: "option_entry list"
  megas :: "option_entry list"
  gmax :: "option_entry list"
  others :: "option_entry list"

text \<open>The body of the loop over the candidates, after the existence probe.\<close>

definition classify :: "string \<Rightarrow> string \<Rightarrow> catalog \<Rightarrow> catalog" where
  "classify baseName pnm c =
     (let e = \<lparr>label = prettyLabel baseName pnm, pokemonName = pnm\<rparr> in
      if pnm = baseName \<or> isRegionalVariant pnm then c\<lparr>variants := variants c @ [e]\<rparr>
      else if isMega pnm then c\<lparr>megas := megas c @ [e]\<rparr>
      else if isGmax pnm then c\<lparr>gmax := gmax c @ [e]\<rparr>
      else c\<lparr>others := others c @ [e]\<rparr>)"

fun catalog_loop :: "network \<Rightarrow> string \<Rightarrow> string list \<Rightarrow> catalog \<Rightarrow> state \<Rightarrow> catalog \<times> state" where
  "catalog_loop net baseName [] c s = (c, s)"
| "catalog_loop net baseName (pnm # rest) c s =
     (case pokemonExists net pnm s of
        (ok, s1) \<Rightarrow>
          if \<not> ok then catalog_loop net baseName rest c s1
          else catalog_loop net baseName rest (classify baseName pnm c) s1)"

definition variant_cmp :: "(string \<Rightarrow> string \<Rightarrow> int) \<Rightarrow> string \<Rightarrow> option_entry \<Rightarrow> option_entry \<Rightarrow> int" where
  "variant_cmp lc baseName a b =
     (if pokemonName a = baseName \<and> pokemonName b \<noteq> baseName then - 1
      else if pokemonName b = baseName \<and> pokemonName a \<noteq> baseName then 1
      else
        let ar = isRegionalVariant (pokemonName a);
            br = isRegionalVariant (pokemonName b)
        in if ar \<noteq> br then (if ar then 1 else - 1)
           else lc (label a) (label b))"

definition label_cmp :: "(string \<Rightarrow> string \<Rightarrow> int) \<Rightarrow> option_entry \<Rightarrow> option_entry \<Rightarrow> int" where
  "label_cmp lc a b = lc (label a) (label b)"

text \<open>
  The catalog builder of \<open>DetailsModal\<close>, up to the four sorted lists. \<open>varieties\<close>
  are the \<open>pokemon?.name\<close> of the species' varieties and \<open>forms\<close> the \<open>name\<close> of the
  base entity's forms, each possibly missing.
\<close>

definition buildCatalog ::
  "network \<Rightarrow> (string \<Rightarrow> string \<Rightarrow> int) \<Rightarrow> string \<Rightarrow> string option list \<Rightarrow> string option list
     \<Rightarrow> state \<Rightarrow> catalog \<times> state" where
  "buildCatalog net lc baseName varieties forms s =
     (let varietiesRaw = filter (\<lambda>n. n \<noteq> []) (map (\<lambda>v. str_or v []) varieties);
          formNamesRaw = filter (\<lambda>n. n \<noteq> []) (map (\<lambda>f. str_or f []) forms);
          allCandidates = uniq (varietiesRaw @ formNamesRaw)
      in case catalog_loop net baseName allCandidates
                \<lparr>variants = [], megas = [], gmax = [], others = []\<rparr> s of
           (c, s1) \<Rightarrow>
             let vs = (if \<not> list_ex (\<lambda>e. pokemonName e = baseName) (variants c)
                       then \<lparr>label = ''Base'', pokemonName = baseName\<rparr> # variants c
                       else variants c)
             in (\<lparr>variants = sort_by (variant_cmp lc baseName) vs,
                  megas = sort_by (label_cmp lc) (megas c),
                  gmax = sort_by (label_cmp lc) (gmax c),
                  others = sort_by (label_cmp lc) (others c)\<rparr>, s1))"

subsection \<open>Clearing\<close>

text \<open>
  \<open>clearOfflineCache\<close> of \<open>App\<close>: it removes three settings, deletes every database
  that \<open>indexedDB.databases()\<close> lists (\<open>dbs\<close> is that list of names, \<open>None\<close> when the
  browser has no such function or the call rejects), and reloads the page. A database
  whose deletion is requested is taken to be deleted. After the reload the module is
  evaluated again, so every module-level \<open>Map\<close> is a new empty one. The Cache
  Storage, which the function clears as well, is not part of the state.
\<close>

definition DB_NAME :: string where
  "DB_NAME = ''pokedex-offline''"

definition clearOfflineCache :: "string list option \<Rightarrow> state \<Rightarrow> state" where
  "clearOfflineCache dbs s =
     (let settings = (localStorage s)(''pdx-theme'' := None, ''pdx-zoom'' := None,
                                       ''pdx-moveColor'' := None);
          db = (case dbs of
                  None \<Rightarrow> store s
                | Some names \<Rightarrow> if DB_NAME \<in> set names then Map.empty else store s)
      in fresh_page db settings (netlog s))"

subsection \<open>Evolution graph\<close>

text \<open>
  One record of \<open>evolution_details\<close>, with the fields \<open>formatEvolutionDetail\<close> reads;
  a field holding a reference is the reference's \<open>name\<close>. An element of the list may be
  \<open>null\<close> (\<open>None\<close>), which the function guards against.
\<close>

record evolution_detail =
  trigger :: "string option"
  min_level :: "int option"
  min_happiness :: "int option"
  min_affection :: "int option"
  min_beauty :: "int option"
  time_of_day :: "string option"
  location :: "string option"
  known_move :: "string option"
  known_move_type :: "string option"
  held_item :: "string option"
  party_species :: "string option"
  party_type :: "string option"
  trade_species :: "string option"
  needs_overworld_rain :: bool
  turn_upside_down :: bool
  gender :: "int option"
  relative_physical_stats :: "int option"
  item :: "string option"

definition num_part :: "int option \<Rightarrow> (string \<Rightarrow> string) \<Rightarrow> string list" where
  "num_part x f = (case x of None \<Rightarrow> [] | Some n \<Rightarrow> [f (show_int n)])"

definition name_part :: "string option \<Rightarrow> (string \<Rightarrow> string) \<Rightarrow> string list" where
  "name_part x f =
     (case x of None \<Rightarrow> [] | Some n \<Rightarrow> if n = [] then [] else [f (titleCaseSlug n)])"

definition detail_parts :: "evolution_detail \<Rightarrow> string list" where
  "detail_parts d =
     num_part (min_level d) (\<lambda>n. ''Level '' @ n) @
     num_part (min_happiness d) (\<lambda>n. ''Friendship '' @ n @ ''+'') @
     num_part (min_affection d) (\<lambda>n. ''Affection '' @ n @ ''+'') @
     num_part (min_beauty d) (\<lambda>n. ''Beauty '' @ n @ ''+'') @
     name_part (time_of_day d) (\<lambda>n. ''Time: '' @ n) @
     name_part (location d) (\<lambda>n. ''At '' @ n) @
     name_part (known_move d) (\<lambda>n. ''Knows '' @ n) @
     name_part (known_move_type d) (\<lambda>n. ''Knows a '' @ n @ '' move'') @
     name_part (held_item d) (\<lambda>n. ''Hold '' @ n) @
     name_part (party_species d) (\<lambda>n. ''Party: '' @ n) @
     name_part (party_type d) (\<lambda>n. ''Party Type: '' @ n) @
     name_part (trade_species d) (\<lambda>n. ''Trade for '' @ n) @
     (if needs_overworld_rain d then [''Overworld Rain''] else []) @
     (if turn_upside_down d then [''Turn device upside down''] else []) @
     (case gender d of
        None \<Rightarrow> []
      | Some g \<Rightarrow> [if g = 1 then ''Female'' else if g = 2 then ''Male'' else []]) @
     (case relative_physical_stats d of
        None \<Rightarrow> []
      | Some r \<Rightarrow>
          (if r = 1 then [''Atk > Def''] else []) @
          (if r = 0 then [''Atk = Def''] else []) @
          (if r = - 1 then [''Atk < Def''] else [])) @
     name_part (item d) (\<lambda>n. ''Use '' @ n)"

definition trigger_phrase :: "string \<Rightarrow> string" where
  "trigger_phrase t =
     (if t = ''trade'' then ''Trade''
      else if t = ''use-item'' then ''Use Item''
      else if t = ''level-up'' then ''Level Up''
      else titleCaseSlug t)"

definition formatEvolutionDetail :: "evolution_detail option \<Rightarrow> string" where
  "formatEvolutionDetail x =
     (case x of
        None \<Rightarrow> []
      | Some d \<Rightarrow>
          let parts = detail_parts d in
          if parts = [] \<and> str_truthy (trigger d) then trigger_phrase (str_or (trigger d) [])
          else join ('' '' @ bullet @ '' '') (filter (\<lambda>p. p \<noteq> []) parts))"

datatype chain_node =
  ChainNode (species: "string option")
            (evolution_details: "evolution_detail option list")
            (evolves_to: "chain_node list")

record edge =
  efrom :: string
  eto :: string
  how :: string

text \<open>The label of the edge into a child: \<open>how\<close> in \<open>walk\<close>.\<close>

definition edge_label :: "evolution_detail option list \<Rightarrow> string" where
  "edge_label ds =
     (let j = join '' / '' (filter (\<lambda>h. h \<noteq> []) (map formatEvolutionDetail ds))
      in if j = [] then emdash else j)"

definition add_node :: "string \<Rightarrow> string list \<Rightarrow> string list" where
  "add_node n nodes = (if n \<noteq> [] \<and> n \<notin> set nodes then nodes @ [n] else nodes)"

fun walk :: "chain_node \<Rightarrow> string list \<times> edge list \<Rightarrow> string list \<times> edge list"
  and walk_children ::
    "string \<Rightarrow> chain_node list \<Rightarrow> string list \<times> edge list \<Rightarrow> string list \<times> edge list" where
  "walk (ChainNode sp ds cs) (nodes, edges) =
     walk_children (str_or sp []) cs (add_node (str_or sp []) nodes, edges)"
| "walk_children frm [] acc = acc"
| "walk_children frm (child # rest) (nodes, edges) =
     walk_children frm rest
       (walk child
          (add_node (str_or (species child) []) nodes,
           edges @ [\<lparr>efrom = frm, eto = str_or (species child) [],
                      how = edge_label (evolution_details child)\<rparr>]))"

definition collectEvolutionNodes :: "chain_node \<Rightarrow> string list \<times> edge list" where
  "collectEvolutionNodes chainRoot = walk chainRoot ([], [])"

subsection \<open>Type chart\<close>

definition TYPES :: "string list" where
  "TYPES =
     [''normal'', ''fire'', ''water'', ''grass'', ''electric'', ''ice'', ''fighting'', ''poison'',
      ''ground'', ''flying'', ''psychic'', ''bug'', ''rock'', ''ghost'', ''dragon'', ''dark'',
      ''steel'', ''fairy'']"

definition TYPE_CHART :: "(string \<times> (string \<times> rat) list) list" where
  "TYPE_CHART =
     [(''normal'', [(''rock'', 1/2), (''ghost'', 0), (''steel'', 1/2)]),
      (''fire'', [(''fire'', 1/2), (''water'', 1/2), (''grass'', 2), (''ice'', 2), (''bug'', 2),
                  (''rock'', 1/2), (''dragon'', 1/2), (''steel'', 2)]),
      (''water'', [(''fire'', 2), (''water'', 1/2), (''grass'', 1/2), (''ground'', 2),
                   (''rock'', 2), (''dragon'', 1/2)]),
      (''grass'', [(''fire'', 1/2), (''water'', 2), (''grass'', 1/2), (''poison'', 1/2),
                   (''ground'', 2), (''flying'', 1/2), (''bug'', 1/2), (''rock'', 2),
                   (''dragon'', 1/2), (''steel'', 1/2)]),
      (''electric'', [(''water'', 2), (''grass'', 1/2), (''electric'', 1/2), (''ground'', 0),
                      (''flying'', 2), (''dragon'', 1/2)]),
      (''ice'', [(''fire'', 1/2), (''water'', 1/2), (''grass'', 2), (''ground'', 2),
                 (''flying'', 2), (''dragon'', 2), (''steel'', 1/2), (''ice'', 1/2)]),
      (''fighting'', [(''normal'', 2), (''ice'', 2), (''rock'', 2), (''dark'', 2), (''steel'', 2),
                      (''poison'', 1/2), (''flying'', 1/2), (''psychic'', 1/2), (''bug'', 1/2),
                      (''ghost'', 0), (''fairy'', 1/2)]),
      (''poison'', [(''grass'', 2), (''fairy'', 2), (''poison'', 1/2), (''ground'', 1/2),
                    (''rock'', 1/2), (''ghost'', 1/2), (''steel'', 0)]),
      (''ground'', [(''fire'', 2), (''electric'', 2), (''poison'', 2), (''rock'', 2),
                    (''steel'', 2), (''grass'', 1/2), (''bug'', 1/2), (''flying'', 0)]),
      (''flying'', [(''grass'', 2), (''fighting'', 2), (''bug'', 2), (''electric'', 1/2),
                    (''rock'', 1/2), (''steel'', 1/2)]),
      (''psychic'', [(''fighting'', 2), (''poison'', 2), (''psychic'', 1/2), (''steel'', 1/2),
                     (''dark'', 0)]),
      (''bug'', [(''grass'', 2), (''psychic'', 2), (''dark'', 2), (''fire'', 1/2),
                 (''fighting'', 1/2), (''poison'', 1/2), (''flying'', 1/2), (''ghost'', 1/2),
                 (''steel'', 1/2), (''fairy'', 1/2)]),
      (''rock'', [(''fire'', 2), (''ice'', 2), (''flying'', 2), (''bug'', 2), (''fighting'', 1/2),
                  (''ground'', 1/2), (''steel'', 1/2)]),
      (''ghost'', [(''psychic'', 2), (''ghost'', 2), (''dark'', 1/2), (''normal'', 0)]),
      (''dragon'', [(''dragon'', 2), (''steel'', 1/2), (''fairy'', 0)]),
      (''dark'', [(''psychic'', 2), (''ghost'', 2), (''fighting'', 1/2), (''dark'', 1/2),
                  (''fairy'', 1/2)]),
      (''steel'', [(''ice'', 2), (''rock'', 2), (''fairy'', 2), (''fire'', 1/2), (''water'', 1/2),
                   (''electric'', 1/2), (''steel'', 1/2)]),
      (''fairy'', [(''fighting'', 2), (''dragon'', 2), (''dark'', 2), (''fire'', 1/2),
                   (''poison'', 1/2), (''steel'', 1/2)])]"

text \<open>
  The result of \<open>typeEffect\<close> is a JavaScript number: a rational, or \<open>NaN\<close>. The
  chart's multipliers are 0, 0.5 and 2; these and their products binary floating point
  holds exactly, so rationals compute the same values. \<open>js_times\<close> is \<open>*\<close>.
\<close>

datatype jsnum = Number rat | NaN

fun js_times :: "jsnum \<Rightarrow> jsnum \<Rightarrow> jsnum" where
  "js_times (Number x) (Number y) = Number (x * y)"
| "js_times (Number x) NaN = NaN"
| "js_times NaN y = NaN"

text \<open>
  \<open>chart_row\<close> is \<open>TYPE_CHART[atk] || {}\<close>: the row of the attacking type, the empty
  object for a name that is no key at all, and for the name of a member of
  \<open>Object.prototype\<close> that built-in, which is truthy. What a built-in holds under a
  name is for the host to say: \<open>h k m\<close> is the member \<open>m\<close> of the built-in
  \<open>Object.prototype[k]\<close>, which is \<open>null\<close> or \<open>undefined\<close> (\<open>Nullish\<close>), or
  converts to a number (\<open>AsNumber\<close>), or cannot be read or converted (\<open>Throws\<close>, as
  \<open>caller\<close> of a built-in function). \<open>multiplier\<close> is \<open>row[def] ?? 1\<close>, as the
  number it is in the product.
\<close>

datatype builtin_member = Nullish | AsNumber jsnum | Throws

type_synonym host = "string \<Rightarrow> string \<Rightarrow> builtin_member"

datatype chart_row = Row "(string \<times> rat) list" | BuiltinRow string

definition chart_row :: "string \<Rightarrow> chart_row" where
  "chart_row atk =
     (case lookup TYPE_CHART atk of
        Own row \<Rightarrow> Row row
      | Absent \<Rightarrow> Row []
      | Inherited k \<Rightarrow> BuiltinRow k)"

fun multiplier :: "host \<Rightarrow> chart_row \<Rightarrow> string \<Rightarrow> error + jsnum" where
  "multiplier h (Row row) d =
     (case lookup row d of
        Own m \<Rightarrow> Inr (Number m)
      | Absent \<Rightarrow> Inr (Number 1)
      | Inherited k \<Rightarrow> Inr NaN)"
| "multiplier h (BuiltinRow k) d =
     (case h k d of
        Nullish \<Rightarrow> Inr (Number 1)
      | AsNumber n \<Rightarrow> Inr n
      | Throws \<Rightarrow> Inl TypeError)"

definition typeEffect :: "host \<Rightarrow> string \<Rightarrow> string \<Rightarrow> string option \<Rightarrow> error + jsnum" where
  "typeEffect h atk def1 def2 =
     (let row = chart_row atk in
      case multiplier h row def1 of
        Inl e \<Rightarrow> Inl e
      | Inr m1 \<Rightarrow>
          (case (if str_truthy def2 then multiplier h row (str_or def2 [])
                 else Inr (Number 1)) of
             Inl e \<Rightarrow> Inl e
           | Inr m2 \<Rightarrow> Inr (js_times m1 m2)))"

subsection \<open>Movepool\<close>

text \<open>
  One entry of \<open>pokemon.moves\<close> and one of its \<open>version_group_details\<close>, with the
  fields \<open>buildMoves\<close> reads (a reference is its \<open>name\<close>).
\<close>

record detail =
  move_learn_method :: "string option"
  level_learned_at :: "int option"
  version_group :: "string option"

record move_entry =
  move_name :: "string option"
  version_group_details :: "detail list"

record learn_record =
  name :: string
  level :: "int option"
  vg :: string

record movepool =
  level_up :: "learn_record list"
  machine :: "learn_record list"
  tutor :: "learn_record list"
  egg :: "learn_record list"
  other :: "learn_record list"

text \<open>
  \<open>withGen\<close>: each detail with its generation, \<open>Promise.all\<close> over
  \<open>details.map(async (d) => ...)\<close>. The map starts every call of
  \<open>getVersionGroupGenNumber\<close> in list order, each running up to its first \<open>await\<close>;
  so every request is issued, against the cache as it was, before any answer is handled,
  and two details of one version group that is not cached both fetch. The answers are
  then handled in the order they arrive: \<open>arrive i\<close> is the time at which the answer
  to the request at position \<open>i\<close> of the log arrives, and answers arriving together are
  handled in the order of their requests. Handling an answer stores its generation, which
  is also the generation of that detail.
\<close>

fun withGen_start :: "network \<Rightarrow> detail list \<Rightarrow> state \<Rightarrow> started list \<times> state" where
  "withGen_start net [] s = ([], s)"
| "withGen_start net (d # ds) s =
     (case getVersionGroupGenNumber_start net (version_group d) s of
        (st, s1) \<Rightarrow> (case withGen_start net ds s1 of (r, s2) \<Rightarrow> (st # r, s2)))"

fun waiting :: "started list \<Rightarrow> (nat \<times> string \<times> response) list" where
  "waiting [] = []"
| "waiting (Ready n # r) = waiting r"
| "waiting (Waiting i vgName res # r) = (i, vgName, res) # waiting r"

definition started_gen :: "started \<Rightarrow> genval" where
  "started_gen st =
     (case st of Ready n \<Rightarrow> n | Waiting i vgName res \<Rightarrow> getVersionGroupGenNumber_answer res)"

definition by_arrival :: "(nat \<Rightarrow> nat) \<Rightarrow> nat \<times> string \<times> response \<Rightarrow> nat \<times> string \<times> response \<Rightarrow> int" where
  "by_arrival arrive a b = int (arrive (fst a)) - int (arrive (fst b))"

definition settle_all :: "(nat \<times> string \<times> response) list \<Rightarrow> state \<Rightarrow> state" where
  "settle_all ws s =
     fold (\<lambda>w t. snd (getVersionGroupGenNumber_settle (fst (snd w)) (snd (snd w)) t)) ws s"

definition withGen ::
  "(nat \<Rightarrow> nat) \<Rightarrow> network \<Rightarrow> detail list \<Rightarrow> state \<Rightarrow> (detail \<times> genval) list \<times> state" where
  "withGen arrive net details s =
     (case withGen_start net details s of
        (started, s1) \<Rightarrow>
          (zip details (map started_gen started),
           settle_all (sort_by (by_arrival arrive) (waiting started)) s1))"

text \<open>
  \<open>genWanted\<close> is \<open>null\<close> (\<open>None\<close>) for "all"; \<open>!genWanted\<close> holds for 0 as well.
  A built-in is not \<open>===\<close> to a number.
\<close>

definition matching_details ::
  "(nat \<Rightarrow> nat) \<Rightarrow> network \<Rightarrow> int option \<Rightarrow> detail list \<Rightarrow> state \<Rightarrow> detail list \<times> state" where
  "matching_details arrive net genWanted details s =
     (case genWanted of
        None \<Rightarrow> (details, s)
      | Some g \<Rightarrow>
          if g = 0 then (details, s)
          else (case withGen arrive net details s of
                  (wg, s1) \<Rightarrow> (map fst (filter (\<lambda>dg. snd dg = GenNum g) wg), s1)))"

definition is_level_up :: "detail \<Rightarrow> bool" where
  "is_level_up d = (move_learn_method d = Some ''level-up'')"

definition level_key :: "detail \<Rightarrow> int" where
  "level_key d = (case level_learned_at d of None \<Rightarrow> 999 | Some l \<Rightarrow> l)"

text \<open>The body of the loop that picks \<open>best\<close>, and the loop, started at \<open>matching[0]\<close>.\<close>

definition pick_step :: "detail \<Rightarrow> detail \<Rightarrow> detail" where
  "pick_step d best =
     (if is_level_up d then
        (if \<not> is_level_up best then d
         else if level_key d < level_key best then d
         else best)
      else best)"

definition pick_best :: "detail list \<Rightarrow> detail option" where
  "pick_best matching =
     (case matching of [] \<Rightarrow> None | m # ms \<Rightarrow> Some (fold pick_step (m # ms) m))"

definition push_move :: "string \<Rightarrow> detail \<Rightarrow> movepool \<Rightarrow> movepool" where
  "push_move moveName best out =
     (let method = str_or (move_learn_method best) ''other'';
          r = \<lparr>name = moveName, level = level_learned_at best,
               vg = str_or (version_group best) []\<rparr>
      in if method = ''level-up'' then out\<lparr>level_up := level_up out @ [r]\<rparr>
         else if method = ''machine'' then out\<lparr>machine := machine out @ [r]\<rparr>
         else if method = ''tutor'' then out\<lparr>tutor := tutor out @ [r]\<rparr>
         else if method = ''egg'' then out\<lparr>egg := egg out @ [r]\<rparr>
         else out\<lparr>other := other out @ [r]\<rparr>)"

text \<open>
  The loop over \<open>pokemon.moves\<close>. \<open>q\<close> is the trimmed, lower-cased search string.
  \<open>getMoveMini\<close> is started and not awaited; here it runs at the point of the call.
\<close>

fun buildMoves_loop ::
  "(nat \<Rightarrow> nat) \<Rightarrow> network \<Rightarrow> int option \<Rightarrow> string \<Rightarrow> move_entry list \<Rightarrow> movepool \<Rightarrow> state \<Rightarrow> movepool \<times> state" where
  "buildMoves_loop arrive net genWanted q [] out s = (out, s)"
| "buildMoves_loop arrive net genWanted q (m # ms) out s =
     (if \<not> str_truthy (move_name m) then buildMoves_loop arrive net genWanted q ms out s
      else if q \<noteq> [] \<and> \<not> str_includes (str_or (move_name m) []) q
      then buildMoves_loop arrive net genWanted q ms out s
      else
        (case matching_details arrive net genWanted (version_group_details m) s of
           (matching, s1) \<Rightarrow>
             (case pick_best matching of
                None \<Rightarrow> buildMoves_loop arrive net genWanted q ms out s1
              | Some best \<Rightarrow>
                  buildMoves_loop arrive net genWanted q ms
                    (push_move (str_or (move_name m) []) best out)
                    (snd (getMoveMini net (str_or (move_name m) []) s1)))))"

definition level_cmp :: "(string \<Rightarrow> string \<Rightarrow> int) \<Rightarrow> learn_record \<Rightarrow> learn_record \<Rightarrow> int" where
  "level_cmp lc a b =
     (let la = (case level a of None \<Rightarrow> 999 | Some l \<Rightarrow> l);
          lb = (case level b of None \<Rightarrow> 999 | Some l \<Rightarrow> l)
      in if la \<noteq> lb then la - lb else lc (name a) (name b))"

definition name_cmp :: "(string \<Rightarrow> string \<Rightarrow> int) \<Rightarrow> learn_record \<Rightarrow> learn_record \<Rightarrow> int" where
  "name_cmp lc a b = lc (name a) (name b)"

text \<open>\<open>buildMoves\<close> for a \<open>pokemon\<close> that has a \<open>moves\<close> list, up to the sorted \<open>out\<close>.\<close>

definition buildMoves ::
  "(nat \<Rightarrow> nat) \<Rightarrow> network \<Rightarrow> (string \<Rightarrow> string \<Rightarrow> int) \<Rightarrow> int option \<Rightarrow> string \<Rightarrow> move_entry list \<Rightarrow> state
     \<Rightarrow> movepool \<times> state" where
  "buildMoves arrive net lc genWanted q moves s =
     (case buildMoves_loop arrive net genWanted q moves
             \<lparr>level_up = [], machine = [], tutor = [], egg = [], other = []\<rparr> s of
        (out, s1) \<Rightarrow>
          (\<lparr>level_up = sort_by (level_cmp lc) (level_up out),
            machine = sort_by (name_cmp lc) (machine out),
            tutor = sort_by (name_cmp lc) (tutor out),
            egg = sort_by (name_cmp lc) (egg out),
            other = sort_by (name_cmp lc) (other out)\<rparr>, s1))"

subsection \<open>Operations\<close>

text \<open>Every function above that reads or writes the state, as one step of the program.\<close>

datatype operation =
  FetchJsonOrNull string
  | PokemonExists string
  | GetDefaultPokemonNameFromSpecies string
  | GetPokemonDataSmart string string
  | GetSpriteForPokemonName string bool
  | GetSpriteForName string
  | GetMoveMini string
  | GetAbilityData string
  | GetItemData string
  | GetItemsInCategory string
  | GetVersionGenNumber string
  | GetVersionGroupGenNumber "string option"
  | LoadBasePoke string
  | LoadDisplayed string bool
  | LoadMove string bool
  | BuildCatalog string "string option list" "string option list"
  | BuildMoves "nat \<Rightarrow> nat" "int option" string "move_entry list"
  | ClearCache
  | ClearOfflineCache "string list option"

fun run_op :: "network \<Rightarrow> (string \<Rightarrow> string \<Rightarrow> int) \<Rightarrow> operation \<Rightarrow> state \<Rightarrow> state" where
  "run_op net lc (FetchJsonOrNull url) s = snd (fetchJsonOrNull net url s)"
| "run_op net lc (PokemonExists n) s = snd (pokemonExists net n s)"
| "run_op net lc (GetDefaultPokemonNameFromSpecies n) s =
     snd (getDefaultPokemonNameFromSpecies net n s)"
| "run_op net lc (GetPokemonDataSmart n dexKey) s = snd (getPokemonDataSmart net n dexKey s)"
| "run_op net lc (GetSpriteForPokemonName n shiny) s =
     snd (getSpriteForPokemonName net n shiny s)"
| "run_op net lc (GetSpriteForName n) s = snd (getSpriteForName net n s)"
| "run_op net lc (GetMoveMini n) s = snd (getMoveMini net n s)"
| "run_op net lc (GetAbilityData n) s = snd (getAbilityData net n s)"
| "run_op net lc (GetItemData n) s = snd (getItemData net n s)"
| "run_op net lc (GetItemsInCategory n) s = snd (getItemsInCategory net n s)"
| "run_op net lc (GetVersionGenNumber n) s = snd (getVersionGenNumber net n s)"
| "run_op net lc (GetVersionGroupGenNumber n) s = snd (getVersionGroupGenNumber net n s)"
| "run_op net lc (LoadBasePoke n) s = snd (loadBasePoke net n s)"
| "run_op net lc (LoadDisplayed n alive) s = loadDisplayed net n alive s"
| "run_op net lc (LoadMove n alive) s = loadMove net n alive s"
| "run_op net lc (BuildCatalog baseName varieties forms) s =
     snd (buildCatalog net lc baseName varieties forms s)"
| "run_op net lc (BuildMoves arrive genWanted q moves) s =
     snd (buildMoves arrive net lc genWanted q moves s)"
| "run_op net lc ClearCache s = clearCache s"
| "run_op net lc (ClearOfflineCache dbs) s = clearOfflineCache dbs s"

definition run_ops :: "network \<Rightarrow> (string \<Rightarrow> string \<Rightarrow> int) \<Rightarrow> operation list \<Rightarrow> state \<Rightarrow> state" where
  "run_ops net lc ops s = fold (run_op net lc) ops s"

text \<open>
  The invariant tying the two entity caches together: a name the existence cache maps
  to \<open>true\<close> has a truthy entity in \<open>pokemonCache\<close>.
\<close>

definition cache_inv :: "state \<Rightarrow> bool" where
  "cache_inv s =
     (\<forall>n. pokemonExistsCache s n = Some True \<longrightarrow>
          (\<exists>e. pokemonCache s n = Some e \<and> truthy e))"

subsection \<open>Invariants of the entity caches\<close>

text \<open>
  Every entity in \<open>pokemonCache\<close> is truthy: each write is guarded by a truthiness
  test. \<open>strong_inv\<close> is \<open>cache_inv\<close> together with it, and \<open>pk_same\<close> says that two
  states agree on the two entity caches.
\<close>

definition entities_truthy :: "state \<Rightarrow> bool" where
  "entities_truthy s = (\<forall>n e. pokemonCache s n = Some e \<longrightarrow> truthy e)"

definition strong_inv :: "state \<Rightarrow> bool" where
  "strong_inv s = (cache_inv s \<and> entities_truthy s)"

definition pk_same :: "state \<Rightarrow> state \<Rightarrow> bool" where
  "pk_same s s' =
     (pokemonCache s' = pokemonCache s \<and> pokemonExistsCache s' = pokemonExistsCache s)"

subsection \<open>Variant resolution in the words of the specification\<close>

text \<open>
  Whether an entity exists is a fact about the upstream service, so it is stated for a
  network that answers a URL the same way at every time (\<open>stable\<close>). \<open>served\<close> is
  what the fetch layer then yields for a URL: the truthy value in the persistent cache,
  else the decoded body of a success response, else \<open>null\<close>. \<open>entity_at\<close> is the
  entity of a name, if it exists: the cached entity when the existence flag is set, none
  when the flag is \<open>false\<close>, and for a name never probed the entity already cached or
  else the one served.
\<close>

definition stable :: "network \<Rightarrow> bool" where
  "stable net = (\<forall>i url. net i url = net 0 url)"











subsection \<open>Evolution edges in the words of the specification\<close>

text \<open>
  One edge per child, in pre-order, from the parent's species to the child's, labelled
  with the label of the child's detail records. \<open>no_conditions\<close> says that a detail
  record has none of the structured condition fields.
\<close>

fun chain_edges :: "chain_node \<Rightarrow> edge list"
  and children_edges :: "string \<Rightarrow> chain_node list \<Rightarrow> edge list" where
  "chain_edges (ChainNode sp ds cs) = children_edges (str_or sp []) cs"
| "children_edges frm [] = []"
| "children_edges frm (c # rest) =
     \<lparr>efrom = frm, eto = str_or (species c) [], how = edge_label (evolution_details c)\<rparr>
       # chain_edges c @ children_edges frm rest"

definition no_conditions :: "evolution_detail \<Rightarrow> bool" where
  "no_conditions d =
     (min_level d = None \<and> min_happiness d = None \<and> min_affection d = None \<and>
      min_beauty d = None \<and> \<not> str_truthy (time_of_day d) \<and> \<not> str_truthy (location d) \<and>
      \<not> str_truthy (known_move d) \<and> \<not> str_truthy (known_move_type d) \<and>
      \<not> str_truthy (held_item d) \<and> \<not> str_truthy (party_species d) \<and>
      \<not> str_truthy (party_type d) \<and> \<not> str_truthy (trade_species d) \<and>
      \<not> needs_overworld_rain d \<and> \<not> turn_upside_down d \<and> gender d = None \<and>
      relative_physical_stats d = None \<and> \<not> str_truthy (item d))"

subsection \<open>Movepool, seen from its result\<close>

text \<open>
  A move is a candidate when it has a name and the name contains the search string.
  \<open>resolved_moves\<close> lists the candidates in order, each with the details the loop of
  \<open>buildMoves\<close> found matching for it (the states are threaded as in the loop);
  \<open>place\<close> is what the loop does with one of them. \<open>buckets\<close> are the five buckets
  of the result and \<open>occurrences\<close> counts the records of a name in all of them;
  \<open>learn_record_of\<close> is the record pushed for a move and its representative detail.
\<close>

definition is_candidate :: "string \<Rightarrow> move_entry \<Rightarrow> bool" where
  "is_candidate q m =
     (str_truthy (move_name m) \<and> \<not> (q \<noteq> [] \<and> \<not> str_includes (str_or (move_name m) []) q))"

fun resolved_moves ::
  "(nat \<Rightarrow> nat) \<Rightarrow> network \<Rightarrow> int option \<Rightarrow> string \<Rightarrow> move_entry list \<Rightarrow> state \<Rightarrow> (string \<times> detail list) list" where
  "resolved_moves arrive net genWanted q [] s = []"
| "resolved_moves arrive net genWanted q (m # ms) s =
     (if \<not> is_candidate q m then resolved_moves arrive net genWanted q ms s
      else
        (case matching_details arrive net genWanted (version_group_details m) s of
           (matching, s1) \<Rightarrow>
             (str_or (move_name m) [], matching) #
             resolved_moves arrive net genWanted q ms
               (if matching = [] then s1
                else snd (getMoveMini net (str_or (move_name m) []) s1))))"

definition place :: "string \<times> detail list \<Rightarrow> movepool \<Rightarrow> movepool" where
  "place e out = (case pick_best (snd e) of None \<Rightarrow> out | Some best \<Rightarrow> push_move (fst e) best out)"

definition buckets :: "movepool \<Rightarrow> learn_record list list" where
  "buckets out = [level_up out, machine out, tutor out, egg out, other out]"

definition occurrences :: "movepool \<Rightarrow> string \<Rightarrow> nat" where
  "occurrences out n = length (filter (\<lambda>r. name r = n) (concat (buckets out)))"

definition learn_record_of :: "string \<Rightarrow> detail \<Rightarrow> learn_record" where
  "learn_record_of k best =
     \<lparr>name = k, level = level_learned_at best, vg = str_or (version_group best) []\<rparr>"

text \<open>
  The generation of a version group as the upstream service tells it, for a network that
  answers a URL the same way at every time: 999 for a missing or empty name, and else
  what the resolver makes of the answer. \<open>vg_cache_ok\<close> says that the cache of the
  resolver holds nothing else, and \<open>answered_by\<close> that a request waiting for its answer
  got the service's.
\<close>

definition vg_generation :: "network \<Rightarrow> string option \<Rightarrow> genval" where
  "vg_generation net vgName =
     (case vgName of
        None \<Rightarrow> GenNum 999
      | Some n \<Rightarrow>
          if n = [] then GenNum 999
          else getVersionGroupGenNumber_answer (net 0 (version_group_url n)))"

definition vg_cache_ok :: "network \<Rightarrow> state \<Rightarrow> bool" where
  "vg_cache_ok net s =
     (\<forall>n g. versionGroupGenCache s n = Some g \<longrightarrow>
            g = getVersionGroupGenNumber_answer (net 0 (version_group_url n)))"

definition answered_by :: "network \<Rightarrow> nat \<times> string \<times> response \<Rightarrow> bool" where
  "answered_by net w = (snd (snd w) = net 0 (version_group_url (fst (snd w))))"

subsection \<open>Well-formed variant buckets\<close>

text \<open>
  \<open>mk_entry\<close> is the entry the catalog loop makes for a candidate and \<open>base_entry\<close>
  the synthetic base entry. A variant bucket is well formed when it has exactly one entry
  for the base name, that entry is the base entry, and every other entry is regional.
\<close>

definition mk_entry :: "string \<Rightarrow> string \<Rightarrow> option_entry" where
  "mk_entry baseName pnm = \<lparr>label = prettyLabel baseName pnm, pokemonName = pnm\<rparr>"

definition base_entry :: "string \<Rightarrow> option_entry" where
  "base_entry baseName = \<lparr>label = ''Base'', pokemonName = baseName\<rparr>"

definition variant_list :: "string \<Rightarrow> option_entry list \<Rightarrow> bool" where
  "variant_list baseName vs =
     (length (filter (\<lambda>e. pokemonName e = baseName) vs) = 1 \<and>
      (\<forall>e \<in> set vs. pokemonName e = baseName \<longrightarrow> e = base_entry baseName) \<and>
      (\<forall>e \<in> set vs. pokemonName e \<noteq> baseName \<longrightarrow> isRegionalVariant (pokemonName e)))"

section \<open>Sample inputs\<close>

text \<open>Concrete networks, payloads and states at which the theorems below are evaluated.\<close>

definition net_zero_then_new :: network where
  "net_zero_then_new =
     (\<lambda>i url. if i = 0 then Response True (Some (JNum 0))
              else Response True (Some (JStr ''new'')))"

definition net_down_then_gen1 :: network where
  "net_down_then_gen1 =
     (\<lambda>i url. if i = 0 then Rejected
              else Response True (Some (JObj [(''generation'', JObj [(''name'', JStr ''generation-i'')])])))"


text \<open>
  A service that knows one version and two version groups, and answers every other
  request with a failure status.
\<close>

definition net_versions :: network where
  "net_versions =
     (\<lambda>i url.
        if url = version_url ''red''
        then Response True (Some (JObj [(''version_group'', JObj [(''name'', JStr ''red-blue'')])]))
        else if url = version_group_url ''red-blue''
        then Response True (Some (JObj [(''generation'', JObj [(''name'', JStr ''generation-i'')])]))
        else if url = version_group_url ''gold-silver''
        then Response True (Some (JObj [(''generation'', JObj [(''name'', JStr ''generation-ii'')])]))
        else Response False None)"

definition species_pikachu :: json where
  "species_pikachu =
     JObj [(''name'', JStr ''pikachu''),
           (''varieties'',
            JArr [JObj [(''is_default'', JBool True),
                        (''pokemon'', JObj [(''name'', JStr ''pikachu'')])]])]"

definition entity_pikachu :: json where
  "entity_pikachu = JObj [(''name'', JStr ''pikachu''), (''id'', JNum 25)]"

text \<open>
  A service that knows four species: \<open>pikachu\<close>; \<open>deoxys\<close>, whose default variety
  is \<open>deoxys-normal\<close> and which has no entity of its own name; \<open>vulpix\<close>, which has
  an Alolan form; and \<open>missingno\<close>, whose list of varieties holds a \<open>null\<close>.
\<close>

definition species_deoxys :: json where
  "species_deoxys =
     JObj [(''name'', JStr ''deoxys''),
           (''varieties'',
            JArr [JObj [(''is_default'', JBool False),
                        (''pokemon'', JObj [(''name'', JStr ''deoxys-attack'')])],
                  JObj [(''is_default'', JBool True),
                        (''pokemon'', JObj [(''name'', JStr ''deoxys-normal'')])]])]"

definition entity_deoxys_normal :: json where
  "entity_deoxys_normal = JObj [(''name'', JStr ''deoxys-normal''), (''id'', JNum 386)]"

definition species_vulpix :: json where
  "species_vulpix =
     JObj [(''name'', JStr ''vulpix''),
           (''varieties'',
            JArr [JObj [(''is_default'', JBool True),
                        (''pokemon'', JObj [(''name'', JStr ''vulpix'')])],
                  JObj [(''is_default'', JBool False),
                        (''pokemon'', JObj [(''name'', JStr ''vulpix-alola'')])]])]"

definition entity_vulpix :: json where
  "entity_vulpix = JObj [(''name'', JStr ''vulpix''), (''id'', JNum 37)]"

definition entity_vulpix_alola :: json where
  "entity_vulpix_alola = JObj [(''name'', JStr ''vulpix-alola''), (''id'', JNum 10103)]"

definition species_broken :: json where
  "species_broken = JObj [(''name'', JStr ''missingno''), (''varieties'', JArr [JNull])]"

definition net_forms :: network where
  "net_forms =
     (\<lambda>i url.
        if url = species_url ''pikachu'' then Response True (Some species_pikachu)
        else if url = pokemon_url ''pikachu'' then Response True (Some entity_pikachu)
        else if url = species_url ''deoxys'' then Response True (Some species_deoxys)
        else if url = pokemon_url ''deoxys-normal'' then Response True (Some entity_deoxys_normal)
        else if url = species_url ''vulpix'' then Response True (Some species_vulpix)
        else if url = pokemon_url ''vulpix'' then Response True (Some entity_vulpix)
        else if url = pokemon_url ''vulpix-alola'' then Response True (Some entity_vulpix_alola)
        else if url = species_url ''missingno'' then Response True (Some species_broken)
        else Response False None)"

definition no_detail :: evolution_detail where
  "no_detail =
     \<lparr>trigger = None, min_level = None, min_happiness = None, min_affection = None,
      min_beauty = None, time_of_day = None, location = None, known_move = None,
      known_move_type = None, held_item = None, party_species = None, party_type = None,
      trade_species = None, needs_overworld_rain = False, turn_upside_down = False,
      gender = None, relative_physical_stats = None, item = None\<rparr>"

definition chain_eevee :: chain_node where
  "chain_eevee =
     ChainNode (Some ''eevee'') []
       [ChainNode (Some ''leafeon'')
          [Some (no_detail\<lparr>trigger := Some ''level-up'', location := Some ''eterna-forest''\<rparr>),
           Some (no_detail\<lparr>trigger := Some ''use-item'', item := Some ''leaf-stone''\<rparr>)] [],
        ChainNode (Some ''espeon'')
          [Some (no_detail\<lparr>trigger := Some ''level-up'', min_happiness := Some 160,
                            time_of_day := Some ''day''\<rparr>)] [],
        ChainNode (Some ''kadabra'') [Some (no_detail\<lparr>trigger := Some ''trade''\<rparr>)] [],
        ChainNode (Some ''x'') [] []]"

definition detail_level_12 :: detail where
  "detail_level_12 = \<lparr>move_learn_method = Some ''level-up'', level_learned_at = Some 12,
                       version_group = Some ''red-blue''\<rparr>"

definition detail_level_7 :: detail where
  "detail_level_7 = \<lparr>move_learn_method = Some ''level-up'', level_learned_at = Some 7,
                      version_group = Some ''yellow''\<rparr>"

definition detail_machine :: detail where
  "detail_machine = \<lparr>move_learn_method = Some ''machine'', level_learned_at = Some 0,
                      version_group = Some ''red-blue''\<rparr>"

definition detail_tutor :: detail where
  "detail_tutor = \<lparr>move_learn_method = Some ''tutor'', level_learned_at = Some 0,
                    version_group = Some ''yellow''\<rparr>"

definition sample_moves :: "move_entry list" where
  "sample_moves =
     [\<lparr>move_name = Some ''tackle'', version_group_details = [detail_level_12, detail_level_7]\<rparr>,
      \<lparr>move_name = Some ''cut'', version_group_details = [detail_machine]\<rparr>,
      \<lparr>move_name = Some ''growl'', version_group_details = []\<rparr>]"

definition net_vulpix :: network where
  "net_vulpix =
     (\<lambda>i url. if url = pokemon_url ''vulpix'' \<or> url = pokemon_url ''vulpix-alola''
              then Response True (Some (JObj [(''forms'', JArr [])]))
              else Response False None)"

section \<open>Type effectiveness\<close>

lemma chart_keys: "map fst TYPE_CHART = TYPES"
  by (simp add: TYPE_CHART_def TYPES_def)

lemma type_has_row:
  assumes "a \<in> set TYPES"
  shows "\<exists>row. map_of TYPE_CHART a = Some row"
proof -
  from assms have "a \<in> fst ` set TYPE_CHART"
    using chart_keys by (metis set_map)
  then have "map_of TYPE_CHART a \<noteq> None" by (simp add: map_of_eq_None_iff)
  then show ?thesis by auto
qed

lemma type_not_inherited: "d \<in> set TYPES \<Longrightarrow> d \<notin> set object_prototype_keys"
  by (auto simp: TYPES_def object_prototype_keys_def)

lemma multiplier_of_type:
  assumes "d \<in> set TYPES"
  shows "multiplier h (Row row) d =
     Inr (Number (case map_of row d of None \<Rightarrow> 1 | Some m \<Rightarrow> m))"
  using type_not_inherited [OF assms] by (simp add: lookup_def split: option.splits)

lemma chart_row_of_type:
  assumes "map_of TYPE_CHART a = Some row"
  shows "chart_row a = Row row"
  using assms by (simp add: chart_row_def lookup_def)

text \<open>
  A name that is no type reaches \<open>Object.prototype\<close>: against the row of \<open>fire\<close>,
  \<open>toString\<close> is a built-in function and the product is \<open>NaN\<close>; and for the
  attacking "type" \<open>constructor\<close> the result is what the host's \<open>Object\<close> holds.
\<close>

lemma typeEffect_inherited_key:
  "typeEffect h ''fire'' ''toString'' None = Inr NaN"
  "typeEffect (\<lambda>k m. if m = ''caller'' then Throws else Nullish) ''constructor'' ''fire'' None =
     Inr (Number 1)"
  "typeEffect (\<lambda>k m. if m = ''caller'' then Throws else Nullish) ''constructor'' ''caller'' None =
     Inl TypeError"
  by (simp_all add: typeEffect_def chart_row_def lookup_def TYPE_CHART_def
      object_prototype_keys_def str_truthy_def)

text \<open>
  C8. For every attacking type and every two defending types, the types being the
  eighteen of \<open>TYPES\<close> (the keys of the chart, and the only values the callers pass),
  \<open>typeEffect\<close> is the product of the two single-type lookups. With the second type
  omitted (\<open>null\<close>) the result is the single lookup of the first type, that is, the
  omitted type contributes the factor 1; and a single lookup is the chart entry of the
  attacking type's row, or 1 when the defending type is not a key of that row. All of
  them are numbers, whatever the host's built-ins hold.
\<close>

theorem typeEffect_product_law:
  "map fst TYPE_CHART = TYPES \<and>
   (a \<in> set TYPES \<and> d1 \<in> set TYPES \<and> d2 \<in> set TYPES \<longrightarrow>
      (\<exists>row. map_of TYPE_CHART a = Some row \<and>
         typeEffect h a d1 None =
           Inr (Number (case map_of row d1 of None \<Rightarrow> 1 | Some m \<Rightarrow> m)) \<and>
         typeEffect h a d2 None =
           Inr (Number (case map_of row d2 of None \<Rightarrow> 1 | Some m \<Rightarrow> m)) \<and>
         typeEffect h a d1 (Some d2) =
           Inr (Number ((case map_of row d1 of None \<Rightarrow> 1 | Some m \<Rightarrow> m) *
                        (case map_of row d2 of None \<Rightarrow> 1 | Some m \<Rightarrow> m)))) \<and>
      (\<exists>x y. typeEffect h a d1 None = Inr x \<and> typeEffect h a d2 None = Inr y \<and>
         typeEffect h a d1 (Some d2) = Inr (js_times x y)))"
proof -
  have k: "map fst TYPE_CHART = TYPES" by (rule chart_keys)
  have l: "a \<in> set TYPES \<and> d1 \<in> set TYPES \<and> d2 \<in> set TYPES \<longrightarrow>
      (\<exists>row. map_of TYPE_CHART a = Some row \<and>
         typeEffect h a d1 None =
           Inr (Number (case map_of row d1 of None \<Rightarrow> 1 | Some m \<Rightarrow> m)) \<and>
         typeEffect h a d2 None =
           Inr (Number (case map_of row d2 of None \<Rightarrow> 1 | Some m \<Rightarrow> m)) \<and>
         typeEffect h a d1 (Some d2) =
           Inr (Number ((case map_of row d1 of None \<Rightarrow> 1 | Some m \<Rightarrow> m) *
                        (case map_of row d2 of None \<Rightarrow> 1 | Some m \<Rightarrow> m)))) \<and>
      (\<exists>x y. typeEffect h a d1 None = Inr x \<and> typeEffect h a d2 None = Inr y \<and>
         typeEffect h a d1 (Some d2) = Inr (js_times x y))"
  proof
    assume t: "a \<in> set TYPES \<and> d1 \<in> set TYPES \<and> d2 \<in> set TYPES"
    then obtain row where r: "map_of TYPE_CHART a = Some row" using type_has_row by blast
    let ?e1 = "case map_of row d1 of None \<Rightarrow> 1 | Some m \<Rightarrow> m"
    let ?e2 = "case map_of row d2 of None \<Rightarrow> 1 | Some m \<Rightarrow> m"
    have cr: "chart_row a = Row row" using r by (rule chart_row_of_type)
    have m1: "multiplier h (Row row) d1 = Inr (Number ?e1)"
      using t multiplier_of_type [of d1 h row] by blast
    have m2: "multiplier h (Row row) d2 = Inr (Number ?e2)"
      using t multiplier_of_type [of d2 h row] by blast
    have ne: "d2 \<noteq> []" using t by (auto simp: TYPES_def)
    have s1: "typeEffect h a d1 None = Inr (Number ?e1)"
      by (simp add: typeEffect_def cr m1 str_truthy_def del: multiplier.simps)
    have s2: "typeEffect h a d2 None = Inr (Number ?e2)"
      by (simp add: typeEffect_def cr m2 str_truthy_def del: multiplier.simps)
    have p: "typeEffect h a d1 (Some d2) = Inr (Number (?e1 * ?e2))"
      using ne by (simp add: typeEffect_def cr m1 m2 str_truthy_def str_or_def
          del: multiplier.simps)
    have q: "\<exists>x y. typeEffect h a d1 None = Inr x \<and> typeEffect h a d2 None = Inr y \<and>
         typeEffect h a d1 (Some d2) = Inr (js_times x y)"
      using s1 s2 p by simp
    from r s1 s2 p q show "(\<exists>row. map_of TYPE_CHART a = Some row \<and>
         typeEffect h a d1 None =
           Inr (Number (case map_of row d1 of None \<Rightarrow> 1 | Some m \<Rightarrow> m)) \<and>
         typeEffect h a d2 None =
           Inr (Number (case map_of row d2 of None \<Rightarrow> 1 | Some m \<Rightarrow> m)) \<and>
         typeEffect h a d1 (Some d2) =
           Inr (Number ((case map_of row d1 of None \<Rightarrow> 1 | Some m \<Rightarrow> m) *
                        (case map_of row d2 of None \<Rightarrow> 1 | Some m \<Rightarrow> m)))) \<and>
      (\<exists>x y. typeEffect h a d1 None = Inr x \<and> typeEffect h a d2 None = Inr y \<and>
         typeEffect h a d1 (Some d2) = Inr (js_times x y))"
      by blast
  qed
  from k l show ?thesis by blast
qed

theorem typeEffect_product_law_witness:
  "typeEffect (\<lambda>k m. Nullish) ''fire'' ''grass'' (Some ''bug'') = Inr (Number 4) \<and>
   typeEffect (\<lambda>k m. Nullish) ''fire'' ''grass'' None = Inr (Number 2) \<and>
   typeEffect (\<lambda>k m. Nullish) ''fire'' ''bug'' None = Inr (Number 2) \<and>
   typeEffect (\<lambda>k m. Nullish) ''fire'' ''water'' (Some ''normal'') = Inr (Number (1 / 2)) \<and>
   typeEffect (\<lambda>k m. Nullish) ''fire'' ''normal'' None = Inr (Number 1)"
proof -
  let ?h = "\<lambda>(k::string) (m::string). Nullish"
  have t: "''fire'' \<in> set TYPES" "''grass'' \<in> set TYPES" "''bug'' \<in> set TYPES"
    "''water'' \<in> set TYPES" "''normal'' \<in> set TYPES"
    by (simp_all add: TYPES_def)
  have r: "map_of TYPE_CHART ''fire'' =
      Some [(''fire'', 1/2), (''water'', 1/2), (''grass'', 2), (''ice'', 2), (''bug'', 2),
            (''rock'', 1/2), (''dragon'', 1/2), (''steel'', 2)]"
    by (simp add: TYPE_CHART_def)
  have a: "typeEffect ?h ''fire'' ''grass'' (Some ''bug'') = Inr (Number 4) \<and>
      typeEffect ?h ''fire'' ''grass'' None = Inr (Number 2) \<and>
      typeEffect ?h ''fire'' ''bug'' None = Inr (Number 2)"
    using typeEffect_product_law [of "''fire''" "''grass''" "''bug''" ?h] t r by auto
  have b: "typeEffect ?h ''fire'' ''water'' (Some ''normal'') = Inr (Number (1 / 2)) \<and>
      typeEffect ?h ''fire'' ''normal'' None = Inr (Number 1)"
    using typeEffect_product_law [of "''fire''" "''water''" "''normal''" ?h] t r by auto
  from a b show ?thesis by blast
qed

section \<open>The fetch-with-cache layer\<close>

lemma fetchJsonOrNull_hit:
  "getFromCache url s = Some v \<Longrightarrow> truthy v \<Longrightarrow> fetchJsonOrNull net url s = (v, s)"
  by (simp add: fetchJsonOrNull_def)

lemma fetchJsonOrNull_miss:
  "\<not> truthy_opt (getFromCache url s) \<Longrightarrow>
   fetchJsonOrNull net url s =
     (case fetchJsonOrNull_try net url s of (Inl e, s1) \<Rightarrow> (JNull, s1) | (Inr v, s1) \<Rightarrow> (v, s1))"
  by (simp add: fetchJsonOrNull_def truthy_opt_def split: option.splits)

lemma fetchJsonOrNull_try_cases:
  "fetchJsonOrNull_try net url s =
     (case net (length (netlog s)) url of
        Rejected \<Rightarrow> (Inl NetworkError, s\<lparr>netlog := netlog s @ [url]\<rparr>)
      | Response ok body \<Rightarrow>
          if \<not> ok then (Inr JNull, s\<lparr>netlog := netlog s @ [url]\<rparr>)
          else (case body of
                  None \<Rightarrow> (Inl SyntaxError, s\<lparr>netlog := netlog s @ [url]\<rparr>)
                | Some data \<Rightarrow> (Inr data, saveToCache url data (s\<lparr>netlog := netlog s @ [url]\<rparr>))))"
  by (simp add: fetchJsonOrNull_try_def fetch_def split: response.splits option.splits)

text \<open>
  C1, as stated, fails: a hit is a key that is present, yet \<open>fetchJsonOrNull\<close> tests
  the cached value for truthiness. After a first successful fetch of key \<open>k\<close> whose
  decoded body is the number 0, the store holds 0 under \<open>k\<close>; the second call does not
  return it but issues a second request and returns what the network answers then.
\<close>

theorem fetchJsonOrNull_hit_counterexample:
  "getFromCache ''k'' (snd (fetchJsonOrNull net_zero_then_new ''k'' init_state)) = Some (JNum 0) \<and>
   fst (fetchJsonOrNull net_zero_then_new ''k''
          (snd (fetchJsonOrNull net_zero_then_new ''k'' init_state))) = JStr ''new'' \<and>
   netlog (snd (fetchJsonOrNull net_zero_then_new ''k''
          (snd (fetchJsonOrNull net_zero_then_new ''k'' init_state)))) = [''k'', ''k'']"
  by (simp add: fetchJsonOrNull_def fetchJsonOrNull_try_def fetch_def getFromCache_def
      saveToCache_def init_state_def fresh_page_def net_zero_then_new_def)

text \<open>
  C1, amended. For every key: when the persistent cache holds a truthy value under the
  key (anything but \<open>null\<close>, \<open>false\<close>, 0 and the empty string), \<open>fetchJsonOrNull\<close>
  returns that value verbatim and changes nothing, so no request is issued. Otherwise
  (no value, or a falsy one) it issues exactly one request for the key; when the
  response has a success status and a body that decodes, it returns the decoded value
  and stores it under the same key; in every other case (non-success status, rejected
  request, body that does not decode) it returns \<open>null\<close> and leaves the store as it was.
  An exception thrown inside the \<open>try\<close> block never reaches the caller: the result is
  \<open>null\<close> and the store is unchanged.
\<close>

theorem fetchJsonOrNull_contract:
  "(\<forall>v. getFromCache url s = Some v \<and> truthy v \<longrightarrow> fetchJsonOrNull net url s = (v, s)) \<and>
   (\<not> truthy_opt (getFromCache url s) \<longrightarrow>
      (\<forall>data. net (length (netlog s)) url = Response True (Some data) \<longrightarrow>
         fetchJsonOrNull net url s =
           (data, saveToCache url data (s\<lparr>netlog := netlog s @ [url]\<rparr>))) \<and>
      ((\<forall>data. net (length (netlog s)) url \<noteq> Response True (Some data)) \<longrightarrow>
         fetchJsonOrNull net url s = (JNull, s\<lparr>netlog := netlog s @ [url]\<rparr>)) \<and>
      (\<forall>e s1. fetchJsonOrNull_try net url s = (Inl e, s1) \<longrightarrow>
         fetchJsonOrNull net url s = (JNull, s1) \<and> store s1 = store s))"
proof (intro conjI allI impI)
  fix v assume "getFromCache url s = Some v \<and> truthy v"
  then show "fetchJsonOrNull net url s = (v, s)" by (simp add: fetchJsonOrNull_hit)
next
  fix data
  assume "\<not> truthy_opt (getFromCache url s)"
    and "net (length (netlog s)) url = Response True (Some data)"
  then show "fetchJsonOrNull net url s =
      (data, saveToCache url data (s\<lparr>netlog := netlog s @ [url]\<rparr>))"
    by (simp add: fetchJsonOrNull_miss fetchJsonOrNull_try_cases)
next
  assume m: "\<not> truthy_opt (getFromCache url s)"
    and f: "\<forall>data. net (length (netlog s)) url \<noteq> Response True (Some data)"
  show "fetchJsonOrNull net url s = (JNull, s\<lparr>netlog := netlog s @ [url]\<rparr>)"
  proof (cases "net (length (netlog s)) url")
    case Rejected
    with m show ?thesis by (simp add: fetchJsonOrNull_miss fetchJsonOrNull_try_cases)
  next
    case (Response ok body)
    with f have "\<not> ok \<or> body = None" by (cases body) auto
    with m Response show ?thesis
      by (auto simp: fetchJsonOrNull_miss fetchJsonOrNull_try_cases)
  qed
next
  fix e s1
  assume m: "\<not> truthy_opt (getFromCache url s)"
    and t: "fetchJsonOrNull_try net url s = (Inl e, s1)"
  from m t show "fetchJsonOrNull net url s = (JNull, s1)"
    by (simp add: fetchJsonOrNull_miss)
  from t show "store s1 = store s"
    by (auto simp: fetchJsonOrNull_try_cases split: response.splits option.splits if_splits)
qed

theorem fetchJsonOrNull_contract_witness:
  "fetchJsonOrNull (\<lambda>i u. Rejected) ''k'' (saveToCache ''k'' (JObj []) init_state) =
     (JObj [], saveToCache ''k'' (JObj []) init_state) \<and>
   fetchJsonOrNull (\<lambda>i u. Response True (Some (JObj []))) ''k'' init_state =
     (JObj [], saveToCache ''k'' (JObj []) (init_state\<lparr>netlog := [''k'']\<rparr>)) \<and>
   fetchJsonOrNull (\<lambda>i u. Response False (Some (JObj []))) ''k'' init_state =
     (JNull, init_state\<lparr>netlog := [''k'']\<rparr>) \<and>
   fetchJsonOrNull (\<lambda>i u. Rejected) ''k'' init_state = (JNull, init_state\<lparr>netlog := [''k'']\<rparr>)"
proof -
  let ?hit = "saveToCache ''k'' (JObj []) init_state"
  have h1: "getFromCache ''k'' ?hit = Some (JObj []) \<and> truthy (JObj [])"
    by (simp add: getFromCache_def saveToCache_def)
  have m: "\<not> truthy_opt (getFromCache ''k'' init_state)"
    by (simp add: getFromCache_def init_state_def fresh_page_def truthy_opt_def)
  have l: "netlog init_state = []"
    by (simp add: init_state_def fresh_page_def)
  have c1: "fetchJsonOrNull (\<lambda>i u. Rejected) ''k'' ?hit = (JObj [], ?hit)"
    using fetchJsonOrNull_contract [where url = "''k''" and s = ?hit and net = "\<lambda>i u. Rejected"] h1
    by blast
  have c2: "fetchJsonOrNull (\<lambda>i u. Response True (Some (JObj []))) ''k'' init_state =
     (JObj [], saveToCache ''k'' (JObj []) (init_state\<lparr>netlog := [''k'']\<rparr>))"
    using fetchJsonOrNull_contract [where url = "''k''" and s = init_state
        and net = "\<lambda>i u. Response True (Some (JObj []))"] m l
    by simp
  have c3: "fetchJsonOrNull (\<lambda>i u. Response False (Some (JObj []))) ''k'' init_state =
     (JNull, init_state\<lparr>netlog := [''k'']\<rparr>)"
    using fetchJsonOrNull_contract [where url = "''k''" and s = init_state
        and net = "\<lambda>i u. Response False (Some (JObj []))"] m l
    by simp
  have c4: "fetchJsonOrNull (\<lambda>i u. Rejected) ''k'' init_state =
     (JNull, init_state\<lparr>netlog := [''k'']\<rparr>)"
    using fetchJsonOrNull_contract [where url = "''k''" and s = init_state
        and net = "\<lambda>i u. Rejected"] m l
    by simp
  from c1 c2 c3 c4 show ?thesis by blast
qed

section \<open>Generation resolver\<close>
















text \<open>
  A slug whose remainder names a member of \<open>Object.prototype\<close> yields that built-in,
  which the resolvers return and cache like a number.
\<close>

lemma genSlugToNumber_inherited_key:
  "genSlugToNumber (Some ''generation-constructor'') = Builtin ''constructor''"
  by (simp add: genSlugToNumber_def lookup_def Let_def str_or_def startsWith_def
      object_prototype_keys_def)




section \<open>Entity caches and variant resolution\<close>

lemma pk_same_refl: "pk_same s s"
  by (simp add: pk_same_def)

lemma pk_same_trans: "pk_same s s1 \<Longrightarrow> pk_same s1 s2 \<Longrightarrow> pk_same s s2"
  by (simp add: pk_same_def)

lemma strong_inv_pk_same: "pk_same s s' \<Longrightarrow> strong_inv s \<Longrightarrow> strong_inv s'"
  by (simp add: pk_same_def strong_inv_def cache_inv_def entities_truthy_def)

lemma fetchJsonOrNull_pk_same: "pk_same s (snd (fetchJsonOrNull net url s))"
  by (simp add: pk_same_def fetchJsonOrNull_def fetchJsonOrNull_try_def fetch_def saveToCache_def
      split: option.splits response.splits)

lemma fetchJsonOrNull_inv: "strong_inv s \<Longrightarrow> strong_inv (snd (fetchJsonOrNull net url s))"
  by (rule strong_inv_pk_same [OF fetchJsonOrNull_pk_same])

lemma set_pokemon_inv: "strong_inv s \<Longrightarrow> truthy v \<Longrightarrow> strong_inv (set_pokemon k v s)"
  by (simp add: strong_inv_def cache_inv_def entities_truthy_def set_pokemon_def)

lemma pokemonExists_inv:
  assumes "strong_inv s"
  shows "strong_inv (snd (pokemonExists net n s))"
proof (cases "pokemonExistsCache s n")
  case (Some b)
  with assms show ?thesis by (simp add: pokemonExists_def)
next
  case None
  obtain dat s1 where f: "fetchJsonOrNull net (pokemon_url n) s = (dat, s1)"
    by (cases "fetchJsonOrNull net (pokemon_url n) s")
  have i1: "strong_inv s1"
    using fetchJsonOrNull_inv [OF assms, of net "pokemon_url n"] f by simp
  have same: "pk_same s s1"
    using fetchJsonOrNull_pk_same [of s net "pokemon_url n"] f by simp
  show ?thesis
    using None f i1
    by (auto simp: pokemonExists_def Let_def strong_inv_def cache_inv_def entities_truthy_def
        set_pokemon_def)
qed

lemma getDefaultPokemonNameFromSpecies_pk_same:
  "pk_same s (snd (getDefaultPokemonNameFromSpecies net sp s))"
proof (cases "speciesDefaultPokemonCache s sp")
  case (Some d)
  then show ?thesis by (simp add: getDefaultPokemonNameFromSpecies_def pk_same_refl)
next
  case None
  obtain dat s1 where f: "fetchJsonOrNull net (species_url sp) s = (dat, s1)"
    by (cases "fetchJsonOrNull net (species_url sp) s")
  have "pk_same s s1"
    using fetchJsonOrNull_pk_same [of s net "species_url sp"] f by simp
  with None f show ?thesis
    by (simp add: getDefaultPokemonNameFromSpecies_def Let_def pk_same_def split: sum.splits)
qed

lemma getPokemonDataSmart_rest_inv:
  assumes "strong_inv s"
  shows "strong_inv (snd (getPokemonDataSmart_rest net d sp s))"
proof -
  obtain ok1 s1 where p1: "pokemonExists net d s = (ok1, s1)"
    by (cases "pokemonExists net d s")
  obtain ok2 s2 where p2: "pokemonExists net sp s1 = (ok2, s2)"
    by (cases "pokemonExists net sp s1")
  have i1: "strong_inv s1" using pokemonExists_inv [OF assms, of net d] p1 by simp
  have i2: "strong_inv s2" using pokemonExists_inv [OF i1, of net sp] p2 by simp
  from p1 p2 i1 i2 show ?thesis by (simp add: getPokemonDataSmart_rest_def)
qed

lemma getPokemonDataSmart_inv:
  assumes "strong_inv s"
  shows "strong_inv (snd (getPokemonDataSmart net sp dexKey s))"
proof -
  obtain r s1 where g: "getDefaultPokemonNameFromSpecies net sp s = (r, s1)"
    by (cases "getDefaultPokemonNameFromSpecies net sp s")
  have i1: "strong_inv s1"
    using strong_inv_pk_same [OF getDefaultPokemonNameFromSpecies_pk_same assms, of net sp] g
    by simp
  show ?thesis
  proof (cases r)
    case (Inl e)
    with g i1 show ?thesis by (simp add: getPokemonDataSmart_def)
  next
    case (Inr d)
    show ?thesis
    proof (cases "regionSuffixForDex dexKey")
      case None
      with g Inr show ?thesis
        using getPokemonDataSmart_rest_inv [OF i1, of net d sp]
        by (auto simp: getPokemonDataSmart_def split: prod.splits)
    next
      case (Some sfx)
      obtain ok s2 where p: "pokemonExists net (d @ ''-'' @ sfx) s1 = (ok, s2)"
        by (cases "pokemonExists net (d @ ''-'' @ sfx) s1")
      have i2: "strong_inv s2"
        using pokemonExists_inv [OF i1, of net "d @ ''-'' @ sfx"] p by simp
      from g Inr Some p i2 show ?thesis
        using getPokemonDataSmart_rest_inv [OF i2, of net d sp]
        by (auto simp: getPokemonDataSmart_def split: prod.splits)
    qed
  qed
qed

lemma getSpriteForPokemonName_inv:
  assumes "strong_inv s"
  shows "strong_inv (snd (getSpriteForPokemonName net n shiny s))"
proof -
  let ?key = "n @ ''::'' @ (if shiny then ''shiny'' else ''normal'')"
  show ?thesis
  proof (cases "spriteCache s ?key")
    case (Some v)
    with assms show ?thesis by (simp add: getSpriteForPokemonName_def Let_def)
  next
    case None
    let ?src = "if truthy_opt (pokemonCache s n)
                 then (case pokemonCache s n of Some d \<Rightarrow> (d, s) | None \<Rightarrow> (JNull, s))
                 else fetchJsonOrNull net (pokemon_url n) s"
    obtain dat s1 where f: "?src = (dat, s1)" by (cases ?src)
    have i1: "strong_inv s1"
    proof (cases "truthy_opt (pokemonCache s n)")
      case True
      with f assms show ?thesis by (auto split: option.splits)
    next
      case False
      with f show ?thesis using fetchJsonOrNull_inv [OF assms, of net "pokemon_url n"] by simp
    qed
    have i2: "strong_inv (if truthy dat then set_pokemon n dat s1 else s1)"
      using i1 by (simp add: set_pokemon_inv)
    have "pk_same (if truthy dat then set_pokemon n dat s1 else s1)
            (snd (getSpriteForPokemonName net n shiny s))"
      using None f by (simp add: getSpriteForPokemonName_def Let_def pk_same_def)
    then show ?thesis using i2 by (rule strong_inv_pk_same)
  qed
qed

lemma getSpriteForName_inv:
  assumes "strong_inv s"
  shows "strong_inv (snd (getSpriteForName net sp s))"
proof -
  obtain r s1 where g: "getDefaultPokemonNameFromSpecies net sp s = (r, s1)"
    by (cases "getDefaultPokemonNameFromSpecies net sp s")
  have i1: "strong_inv s1"
    using strong_inv_pk_same [OF getDefaultPokemonNameFromSpecies_pk_same assms, of net sp] g
    by simp
  show ?thesis
  proof (cases r)
    case (Inl e)
    with g i1 show ?thesis by (simp add: getSpriteForName_def)
  next
    case (Inr d)
    obtain ok s2 where p: "pokemonExists net d s1 = (ok, s2)"
      by (cases "pokemonExists net d s1")
    have i2: "strong_inv s2" using pokemonExists_inv [OF i1, of net d] p by simp
    from g Inr p i2 show ?thesis
      using getSpriteForPokemonName_inv [OF i2, of net d False]
      by (auto simp: getSpriteForName_def split: prod.splits)
  qed
qed

lemma getMoveMini_pk_same: "pk_same s (snd (getMoveMini net n s))"
proof (cases "moveMiniCache s n")
  case (Some m)
  then show ?thesis by (simp add: getMoveMini_def pk_same_refl)
next
  case None
  let ?src = "if truthy_opt (moveCache s n)
               then (case moveCache s n of Some d \<Rightarrow> (d, s) | None \<Rightarrow> (JNull, s))
               else fetchJsonOrNull net (move_url n) s"
  obtain dat s1 where f: "?src = (dat, s1)" by (cases ?src)
  have "pk_same s s1"
  proof (cases "truthy_opt (moveCache s n)")
    case True
    with f show ?thesis by (auto simp: pk_same_refl split: option.splits)
  next
    case False
    with f show ?thesis using fetchJsonOrNull_pk_same [of s net "move_url n"] by simp
  qed
  with None f show ?thesis by (simp add: getMoveMini_def Let_def pk_same_def)
qed

lemma getAbilityData_pk_same: "pk_same s (snd (getAbilityData net n s))"
proof (cases "abilityCache s n")
  case (Some v)
  then show ?thesis by (simp add: getAbilityData_def pk_same_refl)
next
  case None
  obtain dat s1 where f: "fetchJsonOrNull net (''https://pokeapi.co/api/v2/ability/'' @ n) s = (dat, s1)"
    by (cases "fetchJsonOrNull net (''https://pokeapi.co/api/v2/ability/'' @ n) s")
  have "pk_same s s1"
    using fetchJsonOrNull_pk_same [of s net "''https://pokeapi.co/api/v2/ability/'' @ n"] f by simp
  with None f show ?thesis by (simp add: getAbilityData_def pk_same_def)
qed

lemma getItemData_pk_same: "pk_same s (snd (getItemData net n s))"
proof (cases "itemCache s n")
  case (Some v)
  then show ?thesis by (simp add: getItemData_def pk_same_refl)
next
  case None
  obtain dat s1 where f: "fetchJsonOrNull net (''https://pokeapi.co/api/v2/item/'' @ n) s = (dat, s1)"
    by (cases "fetchJsonOrNull net (''https://pokeapi.co/api/v2/item/'' @ n) s")
  have "pk_same s s1"
    using fetchJsonOrNull_pk_same [of s net "''https://pokeapi.co/api/v2/item/'' @ n"] f by simp
  with None f show ?thesis by (simp add: getItemData_def pk_same_def)
qed

lemma getItemsInCategory_pk_same: "pk_same s (snd (getItemsInCategory net n s))"
proof (cases "itemCategoryCache s n")
  case (Some v)
  then show ?thesis by (simp add: getItemsInCategory_def pk_same_refl)
next
  case None
  obtain dat s1 where
    f: "fetchJsonOrNull net (''https://pokeapi.co/api/v2/item-category/'' @ n) s = (dat, s1)"
    by (cases "fetchJsonOrNull net (''https://pokeapi.co/api/v2/item-category/'' @ n) s")
  have "pk_same s s1"
    using fetchJsonOrNull_pk_same [of s net "''https://pokeapi.co/api/v2/item-category/'' @ n"] f
    by simp
  with None f show ?thesis
    by (simp add: getItemsInCategory_def Let_def pk_same_def split: sum.splits)
qed

lemma getVersionGenNumber_pk_same: "pk_same s (snd (getVersionGenNumber net v s))"
  by (auto simp: pk_same_def getVersionGenNumber_def getVersionGenNumber_try_def fetch_def
      set_versionGen_def Let_def split: option.splits response.splits)

lemma getVersionGroupGenNumber_pk_same: "pk_same s (snd (getVersionGroupGenNumber net g s))"
  by (auto simp: pk_same_def getVersionGroupGenNumber_def getVersionGroupGenNumber_start_def
      getVersionGroupGenNumber_settle_def fetch_def set_versionGroupGen_def Let_def
      split: option.splits)

lemma loadBasePoke_inv:
  assumes "strong_inv s"
  shows "strong_inv (snd (loadBasePoke net n s))"
proof -
  obtain dat s1 where f: "fetchJsonOrNull net (pokemon_url n) s = (dat, s1)"
    by (cases "fetchJsonOrNull net (pokemon_url n) s")
  have "strong_inv s1" using fetchJsonOrNull_inv [OF assms, of net "pokemon_url n"] f by simp
  with f show ?thesis by (simp add: loadBasePoke_def set_pokemon_inv)
qed

lemma loadDisplayed_inv:
  assumes "strong_inv s"
  shows "strong_inv (loadDisplayed net n alive s)"
proof -
  obtain dat s1 where f: "fetchJsonOrNull net (pokemon_url n) s = (dat, s1)"
    by (cases "fetchJsonOrNull net (pokemon_url n) s")
  have "strong_inv s1" using fetchJsonOrNull_inv [OF assms, of net "pokemon_url n"] f by simp
  with f assms show ?thesis by (simp add: loadDisplayed_def set_pokemon_inv)
qed

lemma loadMove_pk_same: "pk_same s (loadMove net n alive s)"
proof -
  obtain dat s1 where f: "fetchJsonOrNull net (move_url n) s = (dat, s1)"
    by (cases "fetchJsonOrNull net (move_url n) s")
  have "pk_same s s1" using fetchJsonOrNull_pk_same [of s net "move_url n"] f by simp
  with f show ?thesis by (auto simp: loadMove_def pk_same_def)
qed

lemma catalog_loop_inv:
  "strong_inv s \<Longrightarrow> strong_inv (snd (catalog_loop net baseName cands c s))"
proof (induction cands arbitrary: c s)
  case Nil
  then show ?case by simp
next
  case (Cons pnm rest)
  obtain ok s1 where p: "pokemonExists net pnm s = (ok, s1)"
    by (cases "pokemonExists net pnm s")
  have "strong_inv s1" using pokemonExists_inv [OF Cons.prems, of net pnm] p by simp
  with p Cons.IH show ?case by simp
qed

lemma buildCatalog_inv:
  assumes "strong_inv s"
  shows "strong_inv (snd (buildCatalog net lc baseName varieties forms s))"
proof -
  let ?cands = "uniq (filter (\<lambda>n. n \<noteq> []) (map (\<lambda>v. str_or v []) varieties) @
                      filter (\<lambda>n. n \<noteq> []) (map (\<lambda>f. str_or f []) forms))"
  let ?c0 = "\<lparr>variants = [], megas = [], gmax = [], others = []\<rparr>"
  have "strong_inv (snd (catalog_loop net baseName ?cands ?c0 s))"
    using assms by (rule catalog_loop_inv)
  then show ?thesis
    by (auto simp: buildCatalog_def Let_def split: prod.splits)
qed

lemma getVersionGroupGenNumber_start_pk_same:
  "pk_same s (snd (getVersionGroupGenNumber_start net g s))"
  by (auto simp: pk_same_def getVersionGroupGenNumber_start_def fetch_def split: option.splits)

lemma withGen_start_pk_same: "pk_same s (snd (withGen_start net ds s))"
proof (induction ds arbitrary: s)
  case Nil
  then show ?case by (simp add: pk_same_refl)
next
  case (Cons d ds)
  obtain st s1 where r: "getVersionGroupGenNumber_start net (version_group d) s = (st, s1)"
    by (cases "getVersionGroupGenNumber_start net (version_group d) s")
  have a: "pk_same s s1"
    using getVersionGroupGenNumber_start_pk_same [of s net "version_group d"] r by simp
  have b: "pk_same s1 (snd (withGen_start net ds s1))" by (rule Cons.IH)
  from r show ?case
    using pk_same_trans [OF a b] by (auto split: prod.splits)
qed

lemma settle_all_pk_same: "pk_same s (settle_all ws s)"
proof (induction ws arbitrary: s)
  case Nil
  then show ?case by (simp add: settle_all_def pk_same_refl)
next
  case (Cons w ws)
  let ?t = "snd (getVersionGroupGenNumber_settle (fst (snd w)) (snd (snd w)) s)"
  have a: "pk_same s ?t"
    by (simp add: pk_same_def getVersionGroupGenNumber_settle_def set_versionGroupGen_def Let_def)
  have b: "pk_same ?t (settle_all ws ?t)" by (rule Cons.IH)
  have "settle_all (w # ws) s = settle_all ws ?t" by (simp add: settle_all_def)
  with pk_same_trans [OF a b] show ?case by simp
qed

lemma withGen_pk_same: "pk_same s (snd (withGen arrive net ds s))"
proof -
  obtain st s1 where r: "withGen_start net ds s = (st, s1)"
    by (cases "withGen_start net ds s")
  have a: "pk_same s s1" using withGen_start_pk_same [of s net ds] r by simp
  have b: "pk_same s1 (settle_all (sort_by (by_arrival arrive) (waiting st)) s1)"
    by (rule settle_all_pk_same)
  from r pk_same_trans [OF a b] show ?thesis by (simp add: withGen_def)
qed

lemma matching_details_pk_same: "pk_same s (snd (matching_details arrive net genWanted ds s))"
  using withGen_pk_same [of s arrive net ds]
  by (auto simp: matching_details_def pk_same_refl split: option.splits prod.splits)

lemma buildMoves_loop_pk_same: "pk_same s (snd (buildMoves_loop arrive net genWanted q ms out s))"
proof (induction ms arbitrary: out s)
  case Nil
  then show ?case by (simp add: pk_same_refl)
next
  case (Cons m ms)
  obtain mt s1 where md: "matching_details arrive net genWanted (version_group_details m) s = (mt, s1)"
    by (cases "matching_details arrive net genWanted (version_group_details m) s")
  have a: "pk_same s s1"
    using matching_details_pk_same [of s arrive net genWanted "version_group_details m"] md
    by simp
  have b: "pk_same s1 (snd (getMoveMini net (str_or (move_name m) []) s1))"
    by (rule getMoveMini_pk_same)
  show ?case
    using md Cons.IH pk_same_trans [OF a] pk_same_trans [OF pk_same_trans [OF a b]]
    by (auto split: option.splits)
qed

lemma buildMoves_pk_same: "pk_same s (snd (buildMoves arrive net lc genWanted q ms s))"
  using buildMoves_loop_pk_same
    [of s arrive net genWanted q ms
      "\<lparr>level_up = [], machine = [], tutor = [], egg = [], other = []\<rparr>"]
  by (auto simp: buildMoves_def split: prod.splits)

lemma fresh_page_inv: "strong_inv (fresh_page db settings requests)"
  by (simp add: strong_inv_def cache_inv_def entities_truthy_def fresh_page_def)

lemma run_op_inv: "strong_inv s \<Longrightarrow> strong_inv (run_op net lc op s)"
proof (cases op)
  case (FetchJsonOrNull url)
  assume "strong_inv s"
  with FetchJsonOrNull show ?thesis by (simp add: fetchJsonOrNull_inv)
next
  case (PokemonExists n)
  assume "strong_inv s"
  with PokemonExists show ?thesis by (simp add: pokemonExists_inv)
next
  case (GetDefaultPokemonNameFromSpecies n)
  assume "strong_inv s"
  with GetDefaultPokemonNameFromSpecies show ?thesis
    by (simp add: strong_inv_pk_same [OF getDefaultPokemonNameFromSpecies_pk_same])
next
  case (GetPokemonDataSmart n dexKey)
  assume "strong_inv s"
  with GetPokemonDataSmart show ?thesis by (simp add: getPokemonDataSmart_inv)
next
  case (GetSpriteForPokemonName n shiny)
  assume "strong_inv s"
  with GetSpriteForPokemonName show ?thesis by (simp add: getSpriteForPokemonName_inv)
next
  case (GetSpriteForName n)
  assume "strong_inv s"
  with GetSpriteForName show ?thesis by (simp add: getSpriteForName_inv)
next
  case (GetMoveMini n)
  assume "strong_inv s"
  with GetMoveMini show ?thesis by (simp add: strong_inv_pk_same [OF getMoveMini_pk_same])
next
  case (GetAbilityData n)
  assume "strong_inv s"
  with GetAbilityData show ?thesis by (simp add: strong_inv_pk_same [OF getAbilityData_pk_same])
next
  case (GetItemData n)
  assume "strong_inv s"
  with GetItemData show ?thesis by (simp add: strong_inv_pk_same [OF getItemData_pk_same])
next
  case (GetItemsInCategory n)
  assume "strong_inv s"
  with GetItemsInCategory show ?thesis
    by (simp add: strong_inv_pk_same [OF getItemsInCategory_pk_same])
next
  case (GetVersionGenNumber n)
  assume "strong_inv s"
  with GetVersionGenNumber show ?thesis
    by (simp add: strong_inv_pk_same [OF getVersionGenNumber_pk_same])
next
  case (GetVersionGroupGenNumber n)
  assume "strong_inv s"
  with GetVersionGroupGenNumber show ?thesis
    by (simp add: strong_inv_pk_same [OF getVersionGroupGenNumber_pk_same])
next
  case (LoadBasePoke n)
  assume "strong_inv s"
  with LoadBasePoke show ?thesis by (simp add: loadBasePoke_inv)
next
  case (LoadDisplayed n alive)
  assume "strong_inv s"
  with LoadDisplayed show ?thesis by (simp add: loadDisplayed_inv)
next
  case (LoadMove n alive)
  assume "strong_inv s"
  with LoadMove show ?thesis by (simp add: strong_inv_pk_same [OF loadMove_pk_same])
next
  case (BuildCatalog baseName varieties forms)
  assume "strong_inv s"
  with BuildCatalog show ?thesis by (simp add: buildCatalog_inv)
next
  case (BuildMoves genWanted q moves)
  assume "strong_inv s"
  with BuildMoves show ?thesis by (simp add: strong_inv_pk_same [OF buildMoves_pk_same])
next
  case ClearCache
  assume "strong_inv s"
  with ClearCache show ?thesis
    by (simp add: clearCache_def strong_inv_def cache_inv_def entities_truthy_def)
next
  case (ClearOfflineCache dbs)
  then show ?thesis by (simp add: clearOfflineCache_def Let_def fresh_page_inv)
qed

lemma run_ops_inv: "strong_inv s \<Longrightarrow> strong_inv (run_ops net lc ops s)"
  unfolding run_ops_def
  by (induction ops arbitrary: s) (simp_all add: run_op_inv)


lemma pokemonExists_flag:
  "pokemonExists net n s = (ok, s') \<Longrightarrow> pokemonExistsCache s' n = Some ok"
  by (auto simp: pokemonExists_def Let_def set_pokemon_def split: option.splits prod.splits if_splits)

lemma pokemonExists_true_entity:
  assumes "strong_inv s" and "pokemonExists net n s = (True, s')"
  shows "\<exists>e. pokemonCache s' n = Some e \<and> truthy e"
proof -
  have "strong_inv s'" using pokemonExists_inv [OF assms(1), of net n] assms(2) by simp
  moreover have "pokemonExistsCache s' n = Some True" using assms(2) by (rule pokemonExists_flag)
  ultimately show ?thesis by (simp add: strong_inv_def cache_inv_def)
qed

lemma getPokemonDataSmart_rest_default:
  assumes "strong_inv t" and "pokemonExists net d t = (True, s2)"
  shows "getPokemonDataSmart_rest net d sp t = (pokemonCache s2 d, s2) \<and>
         (\<exists>e. pokemonCache s2 d = Some e \<and> truthy e)"
  using assms pokemonExists_true_entity [of t net d s2]
  by (simp add: getPokemonDataSmart_rest_def)

lemma getPokemonDataSmart_rest_species:
  assumes "strong_inv t" and "pokemonExists net d t = (False, t2)"
    and "pokemonExists net sp t2 = (True, s2)"
  shows "getPokemonDataSmart_rest net d sp t = (pokemonCache s2 sp, s2) \<and>
         (\<exists>e. pokemonCache s2 sp = Some e \<and> truthy e)"
proof -
  have i: "strong_inv t2" using pokemonExists_inv [OF assms(1), of net d] assms(2) by simp
  have "getPokemonDataSmart_rest net d sp t = (pokemonCache s2 sp, s2)"
    using assms by (simp add: getPokemonDataSmart_rest_def)
  moreover have "\<exists>e. pokemonCache s2 sp = Some e \<and> truthy e"
    using pokemonExists_true_entity [OF i assms(3)] .
  ultimately show ?thesis by blast
qed

lemma getPokemonDataSmart_rest_none:
  assumes "pokemonExists net d t = (False, t2)" and "pokemonExists net sp t2 = (False, s2)"
  shows "getPokemonDataSmart_rest net d sp t = (Some JNull, s2)"
  using assms by (simp add: getPokemonDataSmart_rest_def)

lemma getPokemonDataSmart_rest_defined:
  assumes inv: "strong_inv s"
  shows "\<exists>v. fst (getPokemonDataSmart_rest net d sp s) = Some v \<and> (v = JNull \<or> truthy v)"
proof -
  obtain ok1 s1 where p1: "pokemonExists net d s = (ok1, s1)"
    by (cases "pokemonExists net d s")
  obtain ok2 s2 where p2: "pokemonExists net sp s1 = (ok2, s2)"
    by (cases "pokemonExists net sp s1")
  show ?thesis
  proof (cases ok1)
    case True
    with p1 getPokemonDataSmart_rest_default [where t = s and net = net and d = d and ?s2.0 = s1 and sp = sp] inv
    show ?thesis by auto
  next
    case False
    show ?thesis
    proof (cases ok2)
      case True
      with False p1 p2 inv
        getPokemonDataSmart_rest_species [where t = s and net = net and d = d and ?t2.0 = s1
          and sp = sp and ?s2.0 = s2]
      show ?thesis by auto
    next
      case f2: False
      with False p1 p2 getPokemonDataSmart_rest_none [of net d s s1 sp s2]
      show ?thesis by auto
    qed
  qed
qed

lemma getDefaultPokemonNameFromSpecies_inv:
  assumes "strong_inv s" and "getDefaultPokemonNameFromSpecies net sp s = (r, s1)"
  shows "strong_inv s1"
  using strong_inv_pk_same [OF getDefaultPokemonNameFromSpecies_pk_same assms(1), of net sp]
    assms(2) by simp

lemma getPokemonDataSmart_defined:
  assumes inv: "strong_inv s"
  shows "fst (getPokemonDataSmart net sp dexKey s) \<noteq> Inr None"
proof -
  obtain r s1 where g: "getDefaultPokemonNameFromSpecies net sp s = (r, s1)"
    by (cases "getDefaultPokemonNameFromSpecies net sp s")
  have i1: "strong_inv s1" using getDefaultPokemonNameFromSpecies_inv [OF inv g] .
  show ?thesis
  proof (cases r)
    case (Inl e)
    with g show ?thesis by (simp add: getPokemonDataSmart_def)
  next
    case (Inr d)
    show ?thesis
    proof (cases "regionSuffixForDex dexKey")
      case None
      with g Inr show ?thesis
        using getPokemonDataSmart_rest_defined [OF i1, of net d sp]
        by (auto simp: getPokemonDataSmart_def split: prod.splits)
    next
      case (Some sfx)
      obtain ok s2 where p: "pokemonExists net (d @ ''-'' @ sfx) s1 = (ok, s2)"
        by (cases "pokemonExists net (d @ ''-'' @ sfx) s1")
      have i2: "strong_inv s2"
        using pokemonExists_inv [OF i1, of net "d @ ''-'' @ sfx"] p by simp
      show ?thesis
      proof (cases ok)
        case True
        with g Inr Some p pokemonExists_true_entity [OF i1, of net "d @ ''-'' @ sfx" s2]
        show ?thesis by (auto simp: getPokemonDataSmart_def)
      next
        case False
        with g Inr Some p show ?thesis
          using getPokemonDataSmart_rest_defined [OF i2, of net d sp]
          by (auto simp: getPokemonDataSmart_def split: prod.splits)
      qed
    qed
  qed
qed

text \<open>
  C10. Every operation keeps the invariant that a name the existence cache maps to
  \<open>true\<close> has a truthy (hence non-null) entity in \<open>pokemonCache\<close>, together with the
  fact that every cached entity is truthy; both hold in every state reached from a
  freshly loaded page by any sequence of operations. Consequently a probe
  \<open>pokemonExists\<close> that answers \<open>true\<close> leaves the flag set and a truthy entity
  cached under the probed name, and \<open>getPokemonDataSmart\<close> returns, with the state
  the probe left, the entity cached under the first of its candidates whose probe
  answers \<open>true\<close>: the regional name \<open><default>-<suffix>\<close> when the context has a
  suffix, then the default variety's name (probed in the state \<open>t\<close> that the regional
  probe left, or at once when there is no suffix), then the species name. That entity is
  truthy. When every probe answers \<open>false\<close> the result is \<open>null\<close>; when the lookup of
  the default variety is rejected, so is the call; and the result is never
  \<open>undefined\<close>.
\<close>

theorem existence_flag_has_entity:
  "(cache_inv s \<and> entities_truthy s \<longrightarrow>
      cache_inv (run_op net lc op s) \<and> entities_truthy (run_op net lc op s)) \<and>
   cache_inv (run_ops net lc ops (fresh_page db settings requests)) \<and>
   entities_truthy (run_ops net lc ops (fresh_page db settings requests)) \<and>
   (cache_inv s \<and> entities_truthy s \<and> pokemonExists net n s = (True, s') \<longrightarrow>
      pokemonExistsCache s' n = Some True \<and>
      (\<exists>e. pokemonCache s' n = Some e \<and> truthy e)) \<and>
   (cache_inv s \<and> entities_truthy s \<and>
    getDefaultPokemonNameFromSpecies net sp s = (Inr d, s1) \<and>
    regionSuffixForDex dexKey = Some sfx \<and>
    pokemonExists net (d @ ''-'' @ sfx) s1 = (True, s2) \<longrightarrow>
      getPokemonDataSmart net sp dexKey s = (Inr (pokemonCache s2 (d @ ''-'' @ sfx)), s2) \<and>
      (\<exists>e. pokemonCache s2 (d @ ''-'' @ sfx) = Some e \<and> truthy e)) \<and>
   (cache_inv s \<and> entities_truthy s \<and>
    getDefaultPokemonNameFromSpecies net sp s = (Inr d, s1) \<and>
    (regionSuffixForDex dexKey = None \<and> t = s1 \<or>
     regionSuffixForDex dexKey = Some sfx \<and>
     pokemonExists net (d @ ''-'' @ sfx) s1 = (False, t)) \<longrightarrow>
      (pokemonExists net d t = (True, s2) \<longrightarrow>
         getPokemonDataSmart net sp dexKey s = (Inr (pokemonCache s2 d), s2) \<and>
         (\<exists>e. pokemonCache s2 d = Some e \<and> truthy e)) \<and>
      (pokemonExists net d t = (False, t2) \<and> pokemonExists net sp t2 = (True, s2) \<longrightarrow>
         getPokemonDataSmart net sp dexKey s = (Inr (pokemonCache s2 sp), s2) \<and>
         (\<exists>e. pokemonCache s2 sp = Some e \<and> truthy e)) \<and>
      (pokemonExists net d t = (False, t2) \<and> pokemonExists net sp t2 = (False, s2) \<longrightarrow>
         getPokemonDataSmart net sp dexKey s = (Inr (Some JNull), s2))) \<and>
   (getDefaultPokemonNameFromSpecies net sp s = (Inl err, s1) \<longrightarrow>
      getPokemonDataSmart net sp dexKey s = (Inl err, s1)) \<and>
   (cache_inv s \<and> entities_truthy s \<longrightarrow>
      fst (getPokemonDataSmart net sp dexKey s) \<noteq> Inr None)"
proof -
  have a: "cache_inv s \<and> entities_truthy s \<longrightarrow>
      cache_inv (run_op net lc op s) \<and> entities_truthy (run_op net lc op s)"
    using run_op_inv [of s net lc op] by (simp add: strong_inv_def)
  have "strong_inv (run_ops net lc ops (fresh_page db settings requests))"
    by (rule run_ops_inv [OF fresh_page_inv])
  then have b: "cache_inv (run_ops net lc ops (fresh_page db settings requests)) \<and>
      entities_truthy (run_ops net lc ops (fresh_page db settings requests))"
    by (simp add: strong_inv_def)
  have c: "cache_inv s \<and> entities_truthy s \<and> pokemonExists net n s = (True, s') \<longrightarrow>
      pokemonExistsCache s' n = Some True \<and>
      (\<exists>e. pokemonCache s' n = Some e \<and> truthy e)"
    using pokemonExists_true_entity [of s net n s'] pokemonExists_flag [of net n s True s']
    by (simp add: strong_inv_def)
  have r: "cache_inv s \<and> entities_truthy s \<and>
    getDefaultPokemonNameFromSpecies net sp s = (Inr d, s1) \<and>
    regionSuffixForDex dexKey = Some sfx \<and>
    pokemonExists net (d @ ''-'' @ sfx) s1 = (True, s2) \<longrightarrow>
      getPokemonDataSmart net sp dexKey s = (Inr (pokemonCache s2 (d @ ''-'' @ sfx)), s2) \<and>
      (\<exists>e. pokemonCache s2 (d @ ''-'' @ sfx) = Some e \<and> truthy e)"
  proof
    assume h: "cache_inv s \<and> entities_truthy s \<and>
      getDefaultPokemonNameFromSpecies net sp s = (Inr d, s1) \<and>
      regionSuffixForDex dexKey = Some sfx \<and>
      pokemonExists net (d @ ''-'' @ sfx) s1 = (True, s2)"
    then have inv: "strong_inv s" by (simp add: strong_inv_def)
    from h have g: "getDefaultPokemonNameFromSpecies net sp s = (Inr d, s1)" by simp
    have i1: "strong_inv s1" using getDefaultPokemonNameFromSpecies_inv [OF inv g] .
    from h have p: "pokemonExists net (d @ ''-'' @ sfx) s1 = (True, s2)" by simp
    have x: "getPokemonDataSmart net sp dexKey s =
        (Inr (pokemonCache s2 (d @ ''-'' @ sfx)), s2)"
      using h by (simp add: getPokemonDataSmart_def)
    have y: "\<exists>e. pokemonCache s2 (d @ ''-'' @ sfx) = Some e \<and> truthy e"
      using pokemonExists_true_entity [OF i1 p] .
    from x y show "getPokemonDataSmart net sp dexKey s =
        (Inr (pokemonCache s2 (d @ ''-'' @ sfx)), s2) \<and>
      (\<exists>e. pokemonCache s2 (d @ ''-'' @ sfx) = Some e \<and> truthy e)" by blast
  qed
  have f: "cache_inv s \<and> entities_truthy s \<and>
    getDefaultPokemonNameFromSpecies net sp s = (Inr d, s1) \<and>
    (regionSuffixForDex dexKey = None \<and> t = s1 \<or>
     regionSuffixForDex dexKey = Some sfx \<and>
     pokemonExists net (d @ ''-'' @ sfx) s1 = (False, t)) \<longrightarrow>
      (pokemonExists net d t = (True, s2) \<longrightarrow>
         getPokemonDataSmart net sp dexKey s = (Inr (pokemonCache s2 d), s2) \<and>
         (\<exists>e. pokemonCache s2 d = Some e \<and> truthy e)) \<and>
      (pokemonExists net d t = (False, t2) \<and> pokemonExists net sp t2 = (True, s2) \<longrightarrow>
         getPokemonDataSmart net sp dexKey s = (Inr (pokemonCache s2 sp), s2) \<and>
         (\<exists>e. pokemonCache s2 sp = Some e \<and> truthy e)) \<and>
      (pokemonExists net d t = (False, t2) \<and> pokemonExists net sp t2 = (False, s2) \<longrightarrow>
         getPokemonDataSmart net sp dexKey s = (Inr (Some JNull), s2))"
  proof
    assume h: "cache_inv s \<and> entities_truthy s \<and>
      getDefaultPokemonNameFromSpecies net sp s = (Inr d, s1) \<and>
      (regionSuffixForDex dexKey = None \<and> t = s1 \<or>
       regionSuffixForDex dexKey = Some sfx \<and>
       pokemonExists net (d @ ''-'' @ sfx) s1 = (False, t))"
    then have inv: "strong_inv s" by (simp add: strong_inv_def)
    from h have g: "getDefaultPokemonNameFromSpecies net sp s = (Inr d, s1)" by simp
    have i1: "strong_inv s1" using getDefaultPokemonNameFromSpecies_inv [OF inv g] .
    have it: "strong_inv t"
      using h i1 pokemonExists_inv [OF i1, of net "d @ ''-'' @ sfx"] by auto
    have eq: "getPokemonDataSmart net sp dexKey s =
        (Inr (fst (getPokemonDataSmart_rest net d sp t)), snd (getPokemonDataSmart_rest net d sp t))"
      using h by (auto simp: getPokemonDataSmart_def split: prod.splits)
    have x: "pokemonExists net d t = (True, s2) \<longrightarrow>
         getPokemonDataSmart net sp dexKey s = (Inr (pokemonCache s2 d), s2) \<and>
         (\<exists>e. pokemonCache s2 d = Some e \<and> truthy e)"
      using getPokemonDataSmart_rest_default [where t = t and net = net and d = d and ?s2.0 = s2
          and sp = sp] it eq by simp
    have y: "pokemonExists net d t = (False, t2) \<and> pokemonExists net sp t2 = (True, s2) \<longrightarrow>
         getPokemonDataSmart net sp dexKey s = (Inr (pokemonCache s2 sp), s2) \<and>
         (\<exists>e. pokemonCache s2 sp = Some e \<and> truthy e)"
      using getPokemonDataSmart_rest_species [where t = t and net = net and d = d and ?t2.0 = t2
          and sp = sp and ?s2.0 = s2] it eq by simp
    have z: "pokemonExists net d t = (False, t2) \<and> pokemonExists net sp t2 = (False, s2) \<longrightarrow>
         getPokemonDataSmart net sp dexKey s = (Inr (Some JNull), s2)"
      using getPokemonDataSmart_rest_none [of net d t t2 sp s2] eq by simp
    from x y z show "(pokemonExists net d t = (True, s2) \<longrightarrow>
         getPokemonDataSmart net sp dexKey s = (Inr (pokemonCache s2 d), s2) \<and>
         (\<exists>e. pokemonCache s2 d = Some e \<and> truthy e)) \<and>
      (pokemonExists net d t = (False, t2) \<and> pokemonExists net sp t2 = (True, s2) \<longrightarrow>
         getPokemonDataSmart net sp dexKey s = (Inr (pokemonCache s2 sp), s2) \<and>
         (\<exists>e. pokemonCache s2 sp = Some e \<and> truthy e)) \<and>
      (pokemonExists net d t = (False, t2) \<and> pokemonExists net sp t2 = (False, s2) \<longrightarrow>
         getPokemonDataSmart net sp dexKey s = (Inr (Some JNull), s2))" by blast
  qed
  have e: "getDefaultPokemonNameFromSpecies net sp s = (Inl err, s1) \<longrightarrow>
      getPokemonDataSmart net sp dexKey s = (Inl err, s1)"
    by (simp add: getPokemonDataSmart_def)
  have u: "cache_inv s \<and> entities_truthy s \<longrightarrow>
      fst (getPokemonDataSmart net sp dexKey s) \<noteq> Inr None"
    using getPokemonDataSmart_defined [of s net sp dexKey] by (simp add: strong_inv_def)
  from a b [THEN conjunct1] b [THEN conjunct2] c r f e u show ?thesis by (intro conjI)
qed

lemmas eval_defs = getDefaultPokemonNameFromSpecies_def default_variety_name_def
  pokemonExists_def fetchJsonOrNull_def fetchJsonOrNull_try_def fetch_def getFromCache_def
  saveToCache_def set_pokemon_def init_state_def fresh_page_def net_forms_def species_url_def
  pokemon_url_def opt_prop_def name_of_def as_string_def truthy_opt_def str_or_def Let_def
  species_deoxys_def entity_deoxys_normal_def species_vulpix_def entity_vulpix_def
  entity_vulpix_alola_def species_broken_def species_pikachu_def entity_pikachu_def

theorem existence_flag_has_entity_witness:
  "cache_inv (run_ops net_forms (\<lambda>a b. 0)
      [GetPokemonDataSmart ''vulpix'' ''updated-alola'', PokemonExists ''pikachu''] init_state) \<and>
   fst (getPokemonDataSmart net_forms ''vulpix'' ''updated-alola'' init_state) =
     Inr (Some entity_vulpix_alola) \<and>
   pokemonCache (snd (getPokemonDataSmart net_forms ''vulpix'' ''updated-alola'' init_state))
     ''vulpix-alola'' = Some entity_vulpix_alola \<and>
   pokemonExistsCache (snd (getPokemonDataSmart net_forms ''vulpix'' ''updated-alola'' init_state))
     ''vulpix-alola'' = Some True \<and>
   fst (getPokemonDataSmart net_forms ''deoxys'' ''national'' init_state) =
     Inr (Some entity_deoxys_normal) \<and>
   pokemonCache (snd (getPokemonDataSmart net_forms ''deoxys'' ''national'' init_state))
     ''deoxys-normal'' = Some entity_deoxys_normal \<and>
   fst (getPokemonDataSmart net_forms ''mew'' ''galar'' init_state) = Inr (Some JNull) \<and>
   fst (getPokemonDataSmart net_forms ''missingno'' ''national'' init_state) = Inl TypeError"
proof -
  let ?lc = "\<lambda>(a::string) (b::string). 0::int"
  have i: "cache_inv init_state \<and> entities_truthy init_state"
    by (simp add: init_state_def fresh_page_def cache_inv_def entities_truthy_def)
  have sfx: "regionSuffixForDex ''national'' = None"
    "regionSuffixForDex ''updated-alola'' = Some ''alola''"
    "regionSuffixForDex ''galar'' = Some ''galar''"
    by (simp_all add: regionSuffixForDex_def startsWith_def)
  have a: "cache_inv (run_ops net_forms ?lc
      [GetPokemonDataSmart ''vulpix'' ''updated-alola'', PokemonExists ''pikachu''] init_state)"
    using existence_flag_has_entity [where net = net_forms and lc = ?lc
        and ops = "[GetPokemonDataSmart ''vulpix'' ''updated-alola'', PokemonExists ''pikachu'']"
        and db = Map.empty and settings = Map.empty and requests = "[]"]
    by (simp add: init_state_def)
  let ?v1 = "snd (getDefaultPokemonNameFromSpecies net_forms ''vulpix'' init_state)"
  let ?v2 = "snd (pokemonExists net_forms ''vulpix-alola'' ?v1)"
  have vg: "getDefaultPokemonNameFromSpecies net_forms ''vulpix'' init_state = (Inr ''vulpix'', ?v1)"
    by (simp add: prod_eq_iff) (simp add: eval_defs)
  have vp: "pokemonExists net_forms (''vulpix'' @ ''-'' @ ''alola'') ?v1 = (True, ?v2)"
    by (simp add: prod_eq_iff) (simp add: eval_defs)
  have vc: "pokemonCache ?v2 ''vulpix-alola'' = Some entity_vulpix_alola"
    by (simp add: eval_defs)
  note V = existence_flag_has_entity [where net = net_forms and s = init_state
      and sp = "''vulpix''" and dexKey = "''updated-alola''" and d = "''vulpix''" and ?s1.0 = ?v1
      and sfx = "''alola''" and ?s2.0 = ?v2 and n = "''vulpix-alola''" and s' = ?v2]
  have vr: "getPokemonDataSmart net_forms ''vulpix'' ''updated-alola'' init_state =
      (Inr (pokemonCache ?v2 (''vulpix'' @ ''-'' @ ''alola'')), ?v2)"
    using V i vg vp sfx(2) by blast
  have b: "fst (getPokemonDataSmart net_forms ''vulpix'' ''updated-alola'' init_state) =
      Inr (Some entity_vulpix_alola)"
    using vr vc by simp
  have c: "pokemonCache (snd (getPokemonDataSmart net_forms ''vulpix'' ''updated-alola'' init_state))
      ''vulpix-alola'' = Some entity_vulpix_alola"
    using vr vc by simp
  have "pokemonExistsCache ?v2 ''vulpix-alola'' = Some True"
    by (simp add: eval_defs)
  then have d: "pokemonExistsCache
      (snd (getPokemonDataSmart net_forms ''vulpix'' ''updated-alola'' init_state))
      ''vulpix-alola'' = Some True"
    using vr by simp
  let ?d1 = "snd (getDefaultPokemonNameFromSpecies net_forms ''deoxys'' init_state)"
  let ?d2 = "snd (pokemonExists net_forms ''deoxys-normal'' ?d1)"
  have dg: "getDefaultPokemonNameFromSpecies net_forms ''deoxys'' init_state =
      (Inr ''deoxys-normal'', ?d1)"
    by (simp add: prod_eq_iff) (simp add: eval_defs)
  have dp: "pokemonExists net_forms ''deoxys-normal'' ?d1 = (True, ?d2)"
    by (simp add: prod_eq_iff) (simp add: eval_defs)
  have dc: "pokemonCache ?d2 ''deoxys-normal'' = Some entity_deoxys_normal"
    by (simp add: eval_defs)
  note D = existence_flag_has_entity [where net = net_forms and s = init_state
      and sp = "''deoxys''" and dexKey = "''national''" and d = "''deoxys-normal''"
      and ?s1.0 = ?d1 and t = ?d1 and ?s2.0 = ?d2]
  have dr: "getPokemonDataSmart net_forms ''deoxys'' ''national'' init_state =
      (Inr (pokemonCache ?d2 ''deoxys-normal''), ?d2)"
    using D i dg dp sfx(1) by blast
  have e: "fst (getPokemonDataSmart net_forms ''deoxys'' ''national'' init_state) =
      Inr (Some entity_deoxys_normal)"
    using dr dc by simp
  have f: "pokemonCache (snd (getPokemonDataSmart net_forms ''deoxys'' ''national'' init_state))
      ''deoxys-normal'' = Some entity_deoxys_normal"
    using dr dc by simp
  let ?m1 = "snd (getDefaultPokemonNameFromSpecies net_forms ''mew'' init_state)"
  let ?mt = "snd (pokemonExists net_forms ''mew-galar'' ?m1)"
  let ?m2 = "snd (pokemonExists net_forms ''mew'' ?mt)"
  let ?m3 = "snd (pokemonExists net_forms ''mew'' ?m2)"
  have mg: "getDefaultPokemonNameFromSpecies net_forms ''mew'' init_state = (Inr ''mew'', ?m1)"
    by (simp add: prod_eq_iff) (simp add: eval_defs)
  have mp: "pokemonExists net_forms (''mew'' @ ''-'' @ ''galar'') ?m1 = (False, ?mt)"
    by (simp add: prod_eq_iff) (simp add: eval_defs)
  have mq: "pokemonExists net_forms ''mew'' ?mt = (False, ?m2)"
    by (simp add: prod_eq_iff) (simp add: eval_defs)
  have mr: "pokemonExists net_forms ''mew'' ?m2 = (False, ?m3)"
    by (simp add: prod_eq_iff) (simp add: eval_defs)
  note M = existence_flag_has_entity [where net = net_forms and s = init_state
      and sp = "''mew''" and dexKey = "''galar''" and d = "''mew''"
      and ?s1.0 = ?m1 and sfx = "''galar''" and t = ?mt and ?t2.0 = ?m2 and ?s2.0 = ?m3]
  have g: "fst (getPokemonDataSmart net_forms ''mew'' ''galar'' init_state) = Inr (Some JNull)"
    using M i mg mp mq mr sfx(3) by simp
  let ?b1 = "snd (getDefaultPokemonNameFromSpecies net_forms ''missingno'' init_state)"
  have bg: "getDefaultPokemonNameFromSpecies net_forms ''missingno'' init_state =
      (Inl TypeError, ?b1)"
    by (simp add: prod_eq_iff) (simp add: eval_defs)
  have h: "fst (getPokemonDataSmart net_forms ''missingno'' ''national'' init_state) =
      Inl TypeError"
    using existence_flag_has_entity [where net = net_forms and s = init_state
        and sp = "''missingno''" and dexKey = "''national''" and err = TypeError
        and ?s1.0 = ?b1] bg
    by simp
  from a b c d e f g h show ?thesis by (intro conjI)
qed



















section \<open>Clearing\<close>

text \<open>
  C9, as stated, fails for the clear action of the application. \<open>clearOfflineCache\<close>
  ends by reloading the page, which evaluates the module again: an entity that was in
  \<open>pokemonCache\<close> before the clear is not there after it. Nor does it always empty the
  persistent store: where the browser cannot list its databases nothing is deleted.
\<close>

theorem clearOfflineCache_resets_counterexample:
  "pokemonCache (set_pokemon ''pikachu'' entity_pikachu init_state) ''pikachu'' = Some entity_pikachu \<and>
   pokemonCache (clearOfflineCache (Some [DB_NAME])
      (set_pokemon ''pikachu'' entity_pikachu init_state)) ''pikachu'' = None \<and>
   store (clearOfflineCache None (saveToCache ''k'' entity_pikachu init_state)) ''k'' =
     Some entity_pikachu"
  by (simp add: clearOfflineCache_def fresh_page_def Let_def set_pokemon_def init_state_def
      saveToCache_def)

text \<open>
  C9, amended. \<open>clearCache\<close> of \<open>offlineDB.js\<close> empties the persistent store and
  leaves every one of the eleven in-memory maps as it was. The clear action of the
  application, \<open>clearOfflineCache\<close>, does not call it: it empties the persistent store
  when the browser lists the application's database among its databases and leaves it
  as it was otherwise, and after its reload every one of the eleven in-memory maps is
  empty.
\<close>

theorem clear_operations:
  "store (clearCache s) = Map.empty \<and>
   pokemonCache (clearCache s) = pokemonCache s \<and>
   pokemonExistsCache (clearCache s) = pokemonExistsCache s \<and>
   speciesDefaultPokemonCache (clearCache s) = speciesDefaultPokemonCache s \<and>
   spriteCache (clearCache s) = spriteCache s \<and>
   moveCache (clearCache s) = moveCache s \<and>
   moveMiniCache (clearCache s) = moveMiniCache s \<and>
   versionGenCache (clearCache s) = versionGenCache s \<and>
   versionGroupGenCache (clearCache s) = versionGroupGenCache s \<and>
   abilityCache (clearCache s) = abilityCache s \<and>
   itemCache (clearCache s) = itemCache s \<and>
   itemCategoryCache (clearCache s) = itemCategoryCache s \<and>
   store (clearOfflineCache dbs s) =
     (case dbs of
        None \<Rightarrow> store s
      | Some names \<Rightarrow> if DB_NAME \<in> set names then Map.empty else store s) \<and>
   pokemonCache (clearOfflineCache dbs s) = Map.empty \<and>
   pokemonExistsCache (clearOfflineCache dbs s) = Map.empty \<and>
   speciesDefaultPokemonCache (clearOfflineCache dbs s) = Map.empty \<and>
   spriteCache (clearOfflineCache dbs s) = Map.empty \<and>
   moveCache (clearOfflineCache dbs s) = Map.empty \<and>
   moveMiniCache (clearOfflineCache dbs s) = Map.empty \<and>
   versionGenCache (clearOfflineCache dbs s) = Map.empty \<and>
   versionGroupGenCache (clearOfflineCache dbs s) = Map.empty \<and>
   abilityCache (clearOfflineCache dbs s) = Map.empty \<and>
   itemCache (clearOfflineCache dbs s) = Map.empty \<and>
   itemCategoryCache (clearOfflineCache dbs s) = Map.empty"
  by (simp add: clearCache_def clearOfflineCache_def fresh_page_def Let_def)

section \<open>Evolution graph\<close>

lemma walk_edges:
  "snd (walk n acc) = snd acc @ chain_edges n"
  "snd (walk_children frm cs acc) = snd acc @ children_edges frm cs"
  by (induction n acc and frm cs acc rule: walk_walk_children.induct) simp_all

lemma name_part_empty: "\<not> str_truthy x \<Longrightarrow> name_part x f = []"
  by (simp add: name_part_def str_truthy_def split: option.splits)

lemma no_conditions_parts: "no_conditions d \<Longrightarrow> detail_parts d = []"
  by (simp add: no_conditions_def detail_parts_def num_part_def name_part_empty)

lemma join_nonempty: "ws \<noteq> [] \<Longrightarrow> \<forall>w \<in> set ws. w \<noteq> [] \<Longrightarrow> join sep ws \<noteq> []"
  by (induction sep ws rule: join.induct) auto

lemma edge_label_eq:
  "edge_label ds =
     (if filter (\<lambda>h. h \<noteq> []) (map formatEvolutionDetail ds) = [] then emdash
      else join '' / '' (filter (\<lambda>h. h \<noteq> []) (map formatEvolutionDetail ds)))"
proof (cases "filter (\<lambda>h. h \<noteq> []) (map formatEvolutionDetail ds) = []")
  case True
  then show ?thesis by (simp add: edge_label_def)
next
  case False
  then have "join '' / '' (filter (\<lambda>h. h \<noteq> []) (map formatEvolutionDetail ds)) \<noteq> []"
    by (intro join_nonempty) auto
  with False show ?thesis by (simp add: edge_label_def Let_def)
qed

lemma formatEvolutionDetail_trigger:
  assumes "no_conditions d" and "trigger d = Some t" and "t \<noteq> []"
  shows "formatEvolutionDetail (Some d) = trigger_phrase t"
  using assms by (simp add: formatEvolutionDetail_def no_conditions_parts str_truthy_def str_or_def)

lemma formatEvolutionDetail_blank:
  assumes "no_conditions d" and "\<not> str_truthy (trigger d)"
  shows "formatEvolutionDetail (Some d) = []"
  using assms by (simp add: formatEvolutionDetail_def no_conditions_parts)

lemma formatEvolutionDetail_parts:
  assumes "detail_parts d \<noteq> []"
  shows "formatEvolutionDetail (Some d) =
     join ('' '' @ bullet @ '' '') (filter (\<lambda>p. p \<noteq> []) (detail_parts d))"
  using assms by (simp add: formatEvolutionDetail_def)

lemma edge_label_blank:
  assumes "\<forall>x \<in> set ds. formatEvolutionDetail x = []"
  shows "edge_label ds = emdash"
proof -
  have "filter (\<lambda>h. h \<noteq> []) (map formatEvolutionDetail ds) = []"
    using assms by (induction ds) auto
  then show ?thesis by (simp add: edge_label_def)
qed

text \<open>
  C7, as stated, fails: the conditions of different detail records are joined with
  \<open>" / "\<close>, not with the bullet. The edge from eevee to leafeon has two detail
  records (level up at a location, or use an item); its label is
  \<open>At Eterna Forest / Use Leaf Stone\<close>, which is not the bullet-separated join.
\<close>

theorem edge_label_separator_counterexample:
  "how (hd (snd (collectEvolutionNodes chain_eevee))) = ''At Eterna Forest / Use Leaf Stone'' \<and>
   how (hd (snd (collectEvolutionNodes chain_eevee))) \<noteq>
     join ('' '' @ bullet @ '' '')
       (filter (\<lambda>h. h \<noteq> [])
          (map formatEvolutionDetail (evolution_details (hd (evolves_to chain_eevee)))))"
  by code_simp

text \<open>
  C7, amended. The edges of \<open>collectEvolutionNodes\<close> are one per child in pre-order,
  and the label of an edge is the join, with the separator \<open>" / "\<close>, of every non-empty
  formatted condition of the edge's detail records, or the em-dash when there is none.
  Inside one detail record the clauses are joined with the bullet separator. A detail
  record with no structured condition field and a trigger name is formatted as the
  canonical phrase: \<open>Trade\<close> for \<open>trade\<close>, \<open>Use Item\<close> for \<open>use-item\<close>,
  \<open>Level Up\<close> for \<open>level-up\<close>, the title-cased trigger otherwise. An edge all of
  whose detail records are \<open>null\<close> or have neither a condition field nor a trigger, in
  particular an edge with no detail record, is labelled with the em-dash.
\<close>

theorem edge_labels:
  "snd (collectEvolutionNodes chainRoot) = chain_edges chainRoot \<and>
   edge_label ds =
     (if filter (\<lambda>h. h \<noteq> []) (map formatEvolutionDetail ds) = [] then emdash
      else join '' / '' (filter (\<lambda>h. h \<noteq> []) (map formatEvolutionDetail ds))) \<and>
   (detail_parts d \<noteq> [] \<longrightarrow>
      formatEvolutionDetail (Some d) =
        join ('' '' @ bullet @ '' '') (filter (\<lambda>p. p \<noteq> []) (detail_parts d))) \<and>
   (no_conditions d \<and> trigger d = Some t \<and> t \<noteq> [] \<longrightarrow>
      formatEvolutionDetail (Some d) =
        (if t = ''trade'' then ''Trade''
         else if t = ''use-item'' then ''Use Item''
         else if t = ''level-up'' then ''Level Up''
         else titleCaseSlug t)) \<and>
   ((\<forall>x \<in> set ds. x = None \<or> (\<exists>e. x = Some e \<and> no_conditions e \<and> \<not> str_truthy (trigger e))) \<longrightarrow>
      edge_label ds = emdash)"
proof -
  have a: "snd (collectEvolutionNodes chainRoot) = chain_edges chainRoot"
    by (simp add: collectEvolutionNodes_def walk_edges)
  have b: "detail_parts d \<noteq> [] \<longrightarrow>
      formatEvolutionDetail (Some d) =
        join ('' '' @ bullet @ '' '') (filter (\<lambda>p. p \<noteq> []) (detail_parts d))"
    by (simp add: formatEvolutionDetail_parts)
  have c: "no_conditions d \<and> trigger d = Some t \<and> t \<noteq> [] \<longrightarrow>
      formatEvolutionDetail (Some d) =
        (if t = ''trade'' then ''Trade''
         else if t = ''use-item'' then ''Use Item''
         else if t = ''level-up'' then ''Level Up''
         else titleCaseSlug t)"
    using formatEvolutionDetail_trigger [of d t] by (simp add: trigger_phrase_def)
  have e: "(\<forall>x \<in> set ds. x = None \<or> (\<exists>e. x = Some e \<and> no_conditions e \<and> \<not> str_truthy (trigger e))) \<longrightarrow>
      edge_label ds = emdash"
  proof
    assume h: "\<forall>x \<in> set ds. x = None \<or> (\<exists>e. x = Some e \<and> no_conditions e \<and> \<not> str_truthy (trigger e))"
    have "\<forall>x \<in> set ds. formatEvolutionDetail x = []"
    proof
      fix x assume "x \<in> set ds"
      with h have "x = None \<or> (\<exists>e. x = Some e \<and> no_conditions e \<and> \<not> str_truthy (trigger e))"
        by blast
      then show "formatEvolutionDetail x = []"
        by (auto simp: formatEvolutionDetail_blank) (simp add: formatEvolutionDetail_def)
    qed
    then show "edge_label ds = emdash" by (rule edge_label_blank)
  qed
  from a b c e edge_label_eq [of ds] show ?thesis by blast
qed

theorem edge_labels_witness:
  "formatEvolutionDetail (Some (no_detail\<lparr>trigger := Some ''trade''\<rparr>)) = ''Trade'' \<and>
   formatEvolutionDetail (Some (no_detail\<lparr>trigger := Some ''use-item''\<rparr>)) = ''Use Item'' \<and>
   formatEvolutionDetail (Some (no_detail\<lparr>trigger := Some ''level-up''\<rparr>)) = ''Level Up'' \<and>
   formatEvolutionDetail (Some (no_detail\<lparr>trigger := Some ''shed''\<rparr>)) = ''Shed'' \<and>
   formatEvolutionDetail (Some (no_detail\<lparr>trigger := Some ''level-up'', min_level := Some 16\<rparr>)) =
     ''Level 16'' \<and>
   edge_label [] = emdash \<and>
   edge_label [Some no_detail] = emdash \<and>
   map how (snd (collectEvolutionNodes chain_eevee)) = map how (chain_edges chain_eevee)"
proof -
  have nc: "\<And>t. no_conditions (no_detail\<lparr>trigger := t\<rparr>)"
    by (simp add: no_conditions_def no_detail_def str_truthy_def)
  have a: "formatEvolutionDetail (Some (no_detail\<lparr>trigger := Some ''trade''\<rparr>)) = ''Trade''"
    using edge_labels [where d = "no_detail\<lparr>trigger := Some ''trade''\<rparr>" and t = "''trade''"] nc
    by simp
  have b: "formatEvolutionDetail (Some (no_detail\<lparr>trigger := Some ''use-item''\<rparr>)) = ''Use Item''"
    using edge_labels [where d = "no_detail\<lparr>trigger := Some ''use-item''\<rparr>" and t = "''use-item''"] nc
    by simp
  have c: "formatEvolutionDetail (Some (no_detail\<lparr>trigger := Some ''level-up''\<rparr>)) = ''Level Up''"
    using edge_labels [where d = "no_detail\<lparr>trigger := Some ''level-up''\<rparr>" and t = "''level-up''"] nc
    by simp
  have "titleCaseSlug ''shed'' = ''Shed''" by code_simp
  then have d: "formatEvolutionDetail (Some (no_detail\<lparr>trigger := Some ''shed''\<rparr>)) = ''Shed''"
    using edge_labels [where d = "no_detail\<lparr>trigger := Some ''shed''\<rparr>" and t = "''shed''"] nc
    by simp
  have p: "detail_parts (no_detail\<lparr>trigger := Some ''level-up'', min_level := Some 16\<rparr>) = [''Level 16'']"
    by code_simp
  have e: "formatEvolutionDetail (Some (no_detail\<lparr>trigger := Some ''level-up'', min_level := Some 16\<rparr>)) =
     ''Level 16''"
    using edge_labels [where d = "no_detail\<lparr>trigger := Some ''level-up'', min_level := Some 16\<rparr>"] p
    by simp
  have f: "edge_label [] = emdash"
    using edge_labels [where ds = "[]"] by simp
  have "\<forall>x \<in> set [Some no_detail].
      x = None \<or> (\<exists>e. x = Some e \<and> no_conditions e \<and> \<not> str_truthy (trigger e))"
    by (simp add: no_conditions_def no_detail_def str_truthy_def)
  then have g: "edge_label [Some no_detail] = emdash"
    using edge_labels [where ds = "[Some no_detail]"] by blast
  have h: "map how (snd (collectEvolutionNodes chain_eevee)) = map how (chain_edges chain_eevee)"
    using edge_labels [where chainRoot = chain_eevee] by simp
  from a b c d e f g h show ?thesis by blast
qed

section \<open>Movepool\<close>

lemma fold_pick_step:
  "fold pick_step xs b \<in> insert b (set xs) \<and>
   (is_level_up b \<longrightarrow>
      is_level_up (fold pick_step xs b) \<and> level_key (fold pick_step xs b) \<le> level_key b \<and>
      (\<forall>d \<in> set xs. is_level_up d \<longrightarrow> level_key (fold pick_step xs b) \<le> level_key d)) \<and>
   (\<not> is_level_up b \<longrightarrow>
      ((\<exists>d \<in> set xs. is_level_up d) \<longrightarrow>
         is_level_up (fold pick_step xs b) \<and>
         (\<forall>d \<in> set xs. is_level_up d \<longrightarrow> level_key (fold pick_step xs b) \<le> level_key d)) \<and>
      ((\<forall>d \<in> set xs. \<not> is_level_up d) \<longrightarrow> fold pick_step xs b = b))"
proof (induction xs arbitrary: b)
  case Nil
  then show ?case by simp
next
  case (Cons x xs)
  note IH = Cons.IH [of "pick_step x b"]
  show ?case
  proof (cases "is_level_up x")
    case False
    then have "pick_step x b = b" by (simp add: pick_step_def)
    with IH False show ?thesis by auto
  next
    case True
    show ?thesis
    proof (cases "is_level_up b")
      case bl: False
      with True have "pick_step x b = x" by (simp add: pick_step_def)
      with IH True bl show ?thesis by auto
    next
      case bl: True
      show ?thesis
      proof (cases "level_key x < level_key b")
        case lt: True
        with True bl have "pick_step x b = x" by (simp add: pick_step_def)
        with IH True bl lt show ?thesis by auto
      next
        case ge: False
        with True bl have "pick_step x b = b" by (simp add: pick_step_def)
        with IH True bl ge show ?thesis by auto
      qed
    qed
  qed
qed

lemma pick_best_None: "pick_best mt = None \<longleftrightarrow> mt = []"
  by (simp add: pick_best_def split: list.splits)

lemma buildMoves_loop_resolved:
  "fst (buildMoves_loop arrive net genWanted q ms out s) =
     fold place (resolved_moves arrive net genWanted q ms s) out"
proof (induction ms arbitrary: out s)
  case Nil
  then show ?case by simp
next
  case (Cons m ms)
  show ?case
  proof (cases "is_candidate q m")
    case False
    then show ?thesis using Cons.IH by (auto simp: is_candidate_def)
  next
    case True
    obtain mt s1 where md: "matching_details arrive net genWanted (version_group_details m) s = (mt, s1)"
      by (cases "matching_details arrive net genWanted (version_group_details m) s")
    show ?thesis
    proof (cases "pick_best mt")
      case None
      then have "mt = []" by (simp add: pick_best_None)
      with True md None show ?thesis using Cons.IH by (auto simp: is_candidate_def place_def)
    next
      case (Some best)
      then have "mt \<noteq> []" using pick_best_None [of mt] by auto
      with True md Some show ?thesis using Cons.IH by (auto simp: is_candidate_def place_def)
    qed
  qed
qed

lemma set_insort_by: "set (insort_by cmp x ys) = insert x (set ys)"
  by (induction ys) auto

lemma set_sort_by: "set (sort_by cmp xs) = set xs"
  unfolding sort_by_def
  by (induction xs) (simp_all add: set_insort_by)

lemma records_push_move:
  "set (concat (buckets (push_move n best out))) =
     insert (learn_record_of n best) (set (concat (buckets out)))"
  by (auto simp: buckets_def push_move_def Let_def learn_record_of_def)

lemma records_place:
  "set (concat (buckets (place e out))) =
     set (concat (buckets out)) \<union>
     {r. \<exists>best. pick_best (snd e) = Some best \<and> r = learn_record_of (fst e) best}"
proof (cases "pick_best (snd e)")
  case None
  then show ?thesis by (simp add: place_def)
next
  case (Some best)
  have "{r. \<exists>b. pick_best (snd e) = Some b \<and> r = learn_record_of (fst e) b} =
      {learn_record_of (fst e) best}"
    using Some by auto
  then show ?thesis using Some by (simp add: place_def records_push_move del: set_concat)
qed

lemma records_fold_place:
  "set (concat (buckets (fold place rm out))) =
     set (concat (buckets out)) \<union>
     {r. \<exists>k mt best. (k, mt) \<in> set rm \<and> pick_best mt = Some best \<and> r = learn_record_of k best}"
proof (induction rm arbitrary: out)
  case Nil
  then show ?case by simp
next
  case (Cons e rm)
  obtain a b where e: "e = (a, b)" by (cases e)
  have "set (concat (buckets (fold place (e # rm) out))) =
      set (concat (buckets (place e out))) \<union>
      {r. \<exists>k mt best. (k, mt) \<in> set rm \<and> pick_best mt = Some best \<and> r = learn_record_of k best}"
    using Cons.IH [of "place e out"] by simp
  also have "\<dots> = set (concat (buckets out)) \<union>
      ({r. \<exists>best. pick_best b = Some best \<and> r = learn_record_of a best} \<union>
      {r. \<exists>k mt best. (k, mt) \<in> set rm \<and> pick_best mt = Some best \<and> r = learn_record_of k best})"
    unfolding records_place e by (simp add: Un_assoc)
  also have "({r. \<exists>best. pick_best b = Some best \<and> r = learn_record_of a best} \<union>
      {r. \<exists>k mt best. (k, mt) \<in> set rm \<and> pick_best mt = Some best \<and> r = learn_record_of k best}) =
      {r. \<exists>k mt best. (k, mt) \<in> set (e # rm) \<and> pick_best mt = Some best \<and> r = learn_record_of k best}"
    unfolding e by auto
  finally show ?case .
qed

lemma records_buildMoves:
  "set (concat (buckets (fst (buildMoves arrive net lc genWanted q moves s)))) =
     {r. \<exists>k mt best. (k, mt) \<in> set (resolved_moves arrive net genWanted q moves s) \<and>
           pick_best mt = Some best \<and> r = learn_record_of k best}"
proof -
  let ?e = "\<lparr>level_up = [], machine = [], tutor = [], egg = [], other = []\<rparr>"
  obtain out s1 where l: "buildMoves_loop arrive net genWanted q moves ?e s = (out, s1)"
    by (cases "buildMoves_loop arrive net genWanted q moves ?e s")
  have o: "out = fold place (resolved_moves arrive net genWanted q moves s) ?e"
    using buildMoves_loop_resolved [of arrive net genWanted q moves ?e s] l by simp
  have "set (concat (buckets (fst (buildMoves arrive net lc genWanted q moves s)))) =
      set (concat (buckets out))"
    using l by (simp add: buildMoves_def buckets_def set_sort_by)
  also have "\<dots> = {r. \<exists>k mt best. (k, mt) \<in> set (resolved_moves arrive net genWanted q moves s) \<and>
           pick_best mt = Some best \<and> r = learn_record_of k best}"
    unfolding o records_fold_place by (simp add: buckets_def)
  finally show ?thesis .
qed


text \<open>
  C4. In \<open>buildMoves\<close> the representative of a move is \<open>pick_best\<close> of the details
  matching the generation filter (none when there is no such detail, and the move is
  skipped). It is one of those details; if any of them is a level-up detail, the
  representative is a level-up detail whose level (999 for a missing level) is the lowest
  among the level-up details; if none is, it is the first detail in encounter order.
  The records in the buckets of the result are exactly the records of the candidate
  moves and their representatives.
  The witness evaluates the example: of two level-up details at levels 12 and 7, the one
  at level 7 is chosen, and its record is in the result.
\<close>

theorem pick_best_representative:
  "pick_best [] = None \<and>
   (matching \<noteq> [] \<longrightarrow>
      (\<exists>best. pick_best matching = Some best \<and> best \<in> set matching \<and>
         ((\<exists>d \<in> set matching. is_level_up d) \<longrightarrow>
            is_level_up best \<and>
            (\<forall>d \<in> set matching. is_level_up d \<longrightarrow> level_key best \<le> level_key d)) \<and>
         ((\<forall>d \<in> set matching. \<not> is_level_up d) \<longrightarrow> best = hd matching))) \<and>
   set (concat (buckets (fst (buildMoves arrive net lc genWanted q moves s)))) =
     {r. \<exists>k mt best. (k, mt) \<in> set (resolved_moves arrive net genWanted q moves s) \<and>
           pick_best mt = Some best \<and> r = learn_record_of k best}"
proof -
  have a: "pick_best [] = None" by (simp add: pick_best_def)
  have b: "matching \<noteq> [] \<longrightarrow>
      (\<exists>best. pick_best matching = Some best \<and> best \<in> set matching \<and>
         ((\<exists>d \<in> set matching. is_level_up d) \<longrightarrow>
            is_level_up best \<and>
            (\<forall>d \<in> set matching. is_level_up d \<longrightarrow> level_key best \<le> level_key d)) \<and>
         ((\<forall>d \<in> set matching. \<not> is_level_up d) \<longrightarrow> best = hd matching))"
  proof
    assume "matching \<noteq> []"
    then obtain m ms where mm: "matching = m # ms" by (cases matching) auto
    let ?r = "fold pick_step (m # ms) m"
    note F = fold_pick_step [of "m # ms" m]
    have p: "pick_best matching = Some ?r" using mm by (simp add: pick_best_def)
    have i: "?r \<in> set matching" using F mm by auto
    have l: "(\<exists>d \<in> set matching. is_level_up d) \<longrightarrow>
            is_level_up ?r \<and>
            (\<forall>d \<in> set matching. is_level_up d \<longrightarrow> level_key ?r \<le> level_key d)"
      using F mm by (cases "is_level_up m") auto
    have n: "(\<forall>d \<in> set matching. \<not> is_level_up d) \<longrightarrow> ?r = hd matching"
      using F mm by auto
    from p i l n show "\<exists>best. pick_best matching = Some best \<and> best \<in> set matching \<and>
         ((\<exists>d \<in> set matching. is_level_up d) \<longrightarrow>
            is_level_up best \<and>
            (\<forall>d \<in> set matching. is_level_up d \<longrightarrow> level_key best \<le> level_key d)) \<and>
         ((\<forall>d \<in> set matching. \<not> is_level_up d) \<longrightarrow> best = hd matching)"
      by blast
  qed
  note c = records_buildMoves [of arrive net lc genWanted q moves s]
  from a b c show ?thesis by blast
qed

theorem pick_best_representative_witness:
  "pick_best [detail_level_12, detail_level_7] = Some detail_level_7 \<and>
   pick_best [detail_machine, detail_level_12, detail_tutor, detail_level_7] = Some detail_level_7 \<and>
   pick_best [detail_machine, detail_tutor] = Some detail_machine \<and>
   \<lparr>name = ''tackle'', level = Some 7, vg = ''yellow''\<rparr> \<in>
     set (concat (buckets (fst (buildMoves (\<lambda>i. i) (\<lambda>i u. Rejected) (\<lambda>a b. 0) None [] sample_moves init_state))))"
proof -
  let ?net = "\<lambda>(i::nat) (u::string). Rejected"
  let ?lc = "\<lambda>(a::string) (b::string). 0::int"
  have lu: "is_level_up detail_level_12" "is_level_up detail_level_7"
    "\<not> is_level_up detail_machine" "\<not> is_level_up detail_tutor"
    by (simp_all add: is_level_up_def detail_level_12_def detail_level_7_def detail_machine_def
        detail_tutor_def)
  have k: "level_key detail_level_12 = 12" "level_key detail_level_7 = 7"
    by (simp_all add: level_key_def detail_level_12_def detail_level_7_def)
  have ne: "detail_level_12 \<noteq> detail_level_7" "detail_machine \<noteq> detail_level_7"
    "detail_tutor \<noteq> detail_level_7"
    by (simp_all add: detail_level_12_def detail_level_7_def detail_machine_def detail_tutor_def)
  note P = pick_best_representative [THEN conjunct2, THEN conjunct1]
  have a: "pick_best [detail_level_12, detail_level_7] = Some detail_level_7"
    using P [of "[detail_level_12, detail_level_7]"] lu k
    by auto
  have b: "pick_best [detail_machine, detail_level_12, detail_tutor, detail_level_7] =
      Some detail_level_7"
    using P [of "[detail_machine, detail_level_12, detail_tutor, detail_level_7]"]
      lu k
    by auto
  have c: "pick_best [detail_machine, detail_tutor] = Some detail_machine"
    using P [of "[detail_machine, detail_tutor]"] lu
    by auto
  have rm: "(''tackle'', [detail_level_12, detail_level_7]) \<in>
      set (resolved_moves (\<lambda>i. i) ?net None [] sample_moves init_state)"
    by (simp add: sample_moves_def is_candidate_def str_truthy_def str_or_def
        matching_details_def)
  have r: "learn_record_of ''tackle'' detail_level_7 =
      \<lparr>name = ''tackle'', level = Some 7, vg = ''yellow''\<rparr>"
    by (simp add: learn_record_of_def detail_level_7_def str_or_def)
  note E = pick_best_representative [where arrive = "\<lambda>i. i" and net = ?net and lc = ?lc
        and genWanted = None
        and q = "[]" and moves = sample_moves and s = init_state,
        THEN conjunct2, THEN conjunct2]
  have "\<exists>k mt best. (k, mt) \<in> set (resolved_moves (\<lambda>i. i) ?net None [] sample_moves init_state) \<and>
      pick_best mt = Some best \<and>
      learn_record_of ''tackle'' detail_level_7 = learn_record_of k best"
    using rm a by blast
  then have "learn_record_of ''tackle'' detail_level_7 \<in>
      set (concat (buckets (fst (buildMoves (\<lambda>i. i) ?net ?lc None [] sample_moves init_state))))"
    unfolding E by (rule CollectI)
  then have d: "\<lparr>name = ''tackle'', level = Some 7, vg = ''yellow''\<rparr> \<in>
     set (concat (buckets (fst (buildMoves (\<lambda>i. i) ?net ?lc None [] sample_moves init_state))))"
    unfolding r .
  from a b c d show ?thesis by blast
qed

lemma occurrences_push_move:
  "occurrences (push_move n best out) k = occurrences out k + (if n = k then 1 else 0)"
  by (simp add: occurrences_def buckets_def push_move_def Let_def)

lemma occurrences_place:
  "occurrences (place e out) k = occurrences out k + (if fst e = k \<and> snd e \<noteq> [] then 1 else 0)"
proof (cases "pick_best (snd e)")
  case None
  then have "snd e = []" by (simp add: pick_best_None)
  then show ?thesis by (simp add: place_def pick_best_def)
next
  case (Some best)
  then have "snd e \<noteq> []" using pick_best_None [of "snd e"] by auto
  with Some show ?thesis by (simp add: place_def occurrences_push_move)
qed

lemma occurrences_fold_place:
  "occurrences (fold place rm out) k =
     occurrences out k + length (filter (\<lambda>e. fst e = k \<and> snd e \<noteq> []) rm)"
  by (induction rm arbitrary: out) (simp_all add: occurrences_place)

lemma filter_insort_by:
  "length (filter P (insort_by cmp x ys)) = length (filter P (x # ys))"
  by (induction ys) auto

lemma filter_sort_by: "length (filter P (sort_by cmp xs)) = length (filter P xs)"
  unfolding sort_by_def
  by (induction xs) (simp_all add: filter_insort_by)

lemma occurrences_buildMoves:
  "occurrences (fst (buildMoves arrive net lc genWanted q moves s)) k =
     length (filter (\<lambda>e. fst e = k \<and> snd e \<noteq> []) (resolved_moves arrive net genWanted q moves s))"
proof -
  let ?e = "\<lparr>level_up = [], machine = [], tutor = [], egg = [], other = []\<rparr>"
  obtain out s1 where l: "buildMoves_loop arrive net genWanted q moves ?e s = (out, s1)"
    by (cases "buildMoves_loop arrive net genWanted q moves ?e s")
  have o: "out = fold place (resolved_moves arrive net genWanted q moves s) ?e"
    using buildMoves_loop_resolved [of arrive net genWanted q moves ?e s] l by simp
  have "occurrences (fst (buildMoves arrive net lc genWanted q moves s)) k = occurrences out k"
    using l by (simp add: buildMoves_def occurrences_def buckets_def filter_sort_by)
  also have "\<dots> = length (filter (\<lambda>e. fst e = k \<and> snd e \<noteq> []) (resolved_moves arrive net genWanted q moves s))"
    unfolding o by (simp add: occurrences_fold_place) (simp add: occurrences_def buckets_def)
  finally show ?thesis .
qed

lemma resolved_moves_names:
  "map fst (resolved_moves arrive net genWanted q moves s) =
     map (\<lambda>m. str_or (move_name m) []) (filter (is_candidate q) moves)"
  by (induction moves arbitrary: s) (auto split: prod.splits)

lemma candidate_names_distinct:
  assumes "distinct (map move_name moves)"
  shows "distinct (map (\<lambda>m. str_or (move_name m) []) (filter (is_candidate q) moves))"
proof -
  have d: "distinct (map move_name (filter (is_candidate q) moves))"
    using assms by (rule distinct_map_filter)
  have e: "map (\<lambda>m. str_or (move_name m) []) (filter (is_candidate q) moves) =
      map (\<lambda>x. str_or x []) (map move_name (filter (is_candidate q) moves))" by simp
  have "inj_on (\<lambda>x. str_or x []) (set (map move_name (filter (is_candidate q) moves)))"
    by (auto simp: inj_on_def is_candidate_def str_truthy_def str_or_def split: option.splits)
  with d show ?thesis unfolding e by (auto simp: distinct_map intro: comp_inj_on)
qed

lemma distinct_fst_count:
  assumes "distinct (map fst rm)" and "(k, mt) \<in> set rm" and "mt \<noteq> []"
  shows "length (filter (\<lambda>e. fst e = k \<and> snd e \<noteq> []) rm) = 1"
  using assms
proof (induction rm)
  case Nil
  then show ?case by simp
next
  case (Cons e rm)
  show ?case
  proof (cases "e = (k, mt)")
    case True
    with Cons.prems have "\<forall>x \<in> set rm. fst x \<noteq> k" by force
    then have "filter (\<lambda>e. fst e = k \<and> snd e \<noteq> []) rm = []" by (induction rm) auto
    with True Cons.prems show ?thesis by simp
  next
    case False
    with Cons.prems have m: "(k, mt) \<in> set rm" by simp
    then have "k \<in> fst ` set rm" by force
    with Cons.prems(1) have "fst e \<noteq> k" by auto
    with m show ?thesis using Cons by simp
  qed
qed

lemma one_of_five:
  fixes a b c d e :: nat
  assumes "a + (b + (c + (d + e))) = 1"
  shows "length (filter (\<lambda>n. 0 < n) [a, b, c, d, e]) = 1"
  using assms by (auto split: if_splits)

lemma one_bucket:
  assumes "occurrences out k = 1"
  shows "length (filter (\<lambda>b. k \<in> name ` set b) (buckets out)) = 1"
proof -
  let ?c = "\<lambda>b. length (filter (\<lambda>r. name r = k) b)"
  have pos: "(\<lambda>b. k \<in> name ` set b) = (\<lambda>n. 0 < n) \<circ> ?c"
    by (auto simp: fun_eq_iff length_greater_0_conv filter_empty_conv
        simp del: length_greater_0_conv)
  have "?c (level_up out) + (?c (machine out) + (?c (tutor out) + (?c (egg out) + ?c (other out)))) = 1"
    using assms by (simp add: occurrences_def buckets_def)
  then have "length (filter (\<lambda>n. 0 < n)
      [?c (level_up out), ?c (machine out), ?c (tutor out), ?c (egg out), ?c (other out)]) = 1"
    by (rule one_of_five)
  moreover have "length (filter ((\<lambda>n. 0 < n) \<circ> ?c) (buckets out)) =
      length (filter (\<lambda>n. 0 < n) (map ?c (buckets out)))"
    by (simp only: filter_map length_map)
  ultimately show ?thesis unfolding pos by (simp add: buckets_def)
qed

lemma no_bucket:
  assumes "occurrences out k = 0"
  shows "\<forall>b \<in> set (buckets out). k \<notin> name ` set b"
  using assms by (auto simp: occurrences_def buckets_def filter_empty_conv)

lemma resolved_moves_all:
  assumes "genWanted = None \<or> genWanted = Some 0"
  shows "map snd (resolved_moves arrive net genWanted q moves s) =
     map version_group_details (filter (is_candidate q) moves)"
  using assms
  by (induction moves arbitrary: s) (auto simp: matching_details_def)

lemma getVersionGroupGenNumber_start_stable:
  assumes "stable net" and "vg_cache_ok net s"
    and "getVersionGroupGenNumber_start net g s = (st, s1)"
  shows "started_gen st = vg_generation net g"
    and "versionGroupGenCache s1 = versionGroupGenCache s"
    and "list_all (answered_by net) (waiting [st])"
proof -
  have n: "\<And>i u. net i u = net 0 u" using assms(1) by (simp add: stable_def)
  show "started_gen st = vg_generation net g"
    using assms(2,3) n [of "length (netlog s)"]
    by (auto simp: getVersionGroupGenNumber_start_def started_gen_def vg_generation_def
        vg_cache_ok_def fetch_def split: option.splits if_splits)
  show "versionGroupGenCache s1 = versionGroupGenCache s"
    using assms(3)
    by (auto simp: getVersionGroupGenNumber_start_def fetch_def split: option.splits if_splits)
  show "list_all (answered_by net) (waiting [st])"
    using assms(3) n [of "length (netlog s)"]
    by (auto simp: getVersionGroupGenNumber_start_def fetch_def answered_by_def
        split: option.splits if_splits)
qed

lemma waiting_Cons: "waiting (st # r) = waiting [st] @ waiting r"
  by (cases st) simp_all

lemma withGen_start_stable:
  assumes "stable net" and "vg_cache_ok net s"
  shows "map started_gen (fst (withGen_start net ds s)) =
           map (\<lambda>d. vg_generation net (version_group d)) ds \<and>
         versionGroupGenCache (snd (withGen_start net ds s)) = versionGroupGenCache s \<and>
         list_all (answered_by net) (waiting (fst (withGen_start net ds s)))"
  using assms(2)
proof (induction ds arbitrary: s)
  case Nil
  then show ?case by simp
next
  case (Cons d ds)
  obtain st s1 where r: "getVersionGroupGenNumber_start net (version_group d) s = (st, s1)"
    by (cases "getVersionGroupGenNumber_start net (version_group d) s")
  note S = getVersionGroupGenNumber_start_stable [OF assms(1) Cons.prems r]
  have ok1: "vg_cache_ok net s1" using Cons.prems S(2) by (simp add: vg_cache_ok_def)
  note IH = Cons.IH [OF ok1]
  obtain rs s2 where q: "withGen_start net ds s1 = (rs, s2)"
    by (cases "withGen_start net ds s1")
  have w: "waiting (st # rs) = waiting [st] @ waiting rs" by (rule waiting_Cons)
  show ?case
    using r q S IH unfolding withGen_start.simps by (simp add: w del: waiting.simps)
qed

lemma settle_all_ok:
  assumes "vg_cache_ok net s" and "list_all (answered_by net) ws"
  shows "vg_cache_ok net (settle_all ws s)"
  using assms
proof (induction ws arbitrary: s)
  case Nil
  then show ?case by (simp add: settle_all_def)
next
  case (Cons w ws)
  let ?t = "snd (getVersionGroupGenNumber_settle (fst (snd w)) (snd (snd w)) s)"
  have "vg_cache_ok net ?t"
    using Cons.prems
    by (simp add: vg_cache_ok_def getVersionGroupGenNumber_settle_def set_versionGroupGen_def
        Let_def answered_by_def)
  then have "vg_cache_ok net (settle_all ws ?t)" using Cons.prems by (intro Cons.IH) simp_all
  then show ?case by (simp add: settle_all_def)
qed

lemma list_all_sort_by: "list_all P (sort_by cmp xs) = list_all P xs"
  by (simp add: list_all_iff set_sort_by)

lemma withGen_stable:
  assumes "stable net" and "vg_cache_ok net s"
  shows "fst (withGen arrive net ds s) = zip ds (map (\<lambda>d. vg_generation net (version_group d)) ds)"
    and "vg_cache_ok net (snd (withGen arrive net ds s))"
proof -
  obtain st s1 where r: "withGen_start net ds s = (st, s1)" by (cases "withGen_start net ds s")
  note S = withGen_start_stable [OF assms, of ds]
  have ok1: "vg_cache_ok net s1" using assms(2) S r by (simp add: vg_cache_ok_def)
  show "fst (withGen arrive net ds s) = zip ds (map (\<lambda>d. vg_generation net (version_group d)) ds)"
    using r S by (simp add: withGen_def)
  have "vg_cache_ok net (settle_all (sort_by (by_arrival arrive) (waiting st)) s1)"
    using ok1 S r by (intro settle_all_ok) (simp_all add: list_all_sort_by)
  then show "vg_cache_ok net (snd (withGen arrive net ds s))"
    using r by (simp add: withGen_def)
qed

lemma filter_zip_map:
  "map fst (filter (\<lambda>dg. snd dg = G) (zip ds (map f ds))) = filter (\<lambda>d. f d = G) ds"
  by (induction ds) auto

lemma matching_details_stable:
  assumes "stable net" and "vg_cache_ok net s" and "g \<noteq> 0"
  shows "fst (matching_details arrive net (Some g) ds s) =
           filter (\<lambda>d. vg_generation net (version_group d) = GenNum g) ds"
    and "vg_cache_ok net (snd (matching_details arrive net (Some g) ds s))"
proof -
  obtain wg s1 where r: "withGen arrive net ds s = (wg, s1)" by (cases "withGen arrive net ds s")
  note W = withGen_stable [OF assms(1,2), of arrive ds]
  show "fst (matching_details arrive net (Some g) ds s) =
           filter (\<lambda>d. vg_generation net (version_group d) = GenNum g) ds"
    using r W(1) assms(3) by (simp add: matching_details_def filter_zip_map)
  show "vg_cache_ok net (snd (matching_details arrive net (Some g) ds s))"
    using r W(2) assms(3) by (simp add: matching_details_def)
qed

lemma getMoveMini_vg_cache:
  "versionGroupGenCache (snd (getMoveMini net n s)) = versionGroupGenCache s"
  by (auto simp: getMoveMini_def fetchJsonOrNull_def fetchJsonOrNull_try_def fetch_def
      saveToCache_def getFromCache_def Let_def
      split: option.splits prod.splits response.splits sum.splits if_splits)

lemma resolved_moves_filtered:
  assumes "stable net" and "vg_cache_ok net s" and "g \<noteq> 0"
  shows "map snd (resolved_moves arrive net (Some g) q moves s) =
     map (\<lambda>m. filter (\<lambda>d. vg_generation net (version_group d) = GenNum g)
                 (version_group_details m))
         (filter (is_candidate q) moves)"
  using assms(2)
proof (induction moves arbitrary: s)
  case Nil
  then show ?case by simp
next
  case (Cons m ms)
  show ?case
  proof (cases "is_candidate q m")
    case False
    then show ?thesis using Cons.IH [OF Cons.prems] by simp
  next
    case True
    obtain mt s1 where md: "matching_details arrive net (Some g) (version_group_details m) s = (mt, s1)"
      by (cases "matching_details arrive net (Some g) (version_group_details m) s")
    note M = matching_details_stable [OF assms(1) Cons.prems assms(3), of arrive "version_group_details m"]
    have mt: "mt = filter (\<lambda>d. vg_generation net (version_group d) = GenNum g)
        (version_group_details m)" using M(1) md by simp
    have ok1: "vg_cache_ok net s1" using M(2) md by simp
    have ok2: "vg_cache_ok net (snd (getMoveMini net (str_or (move_name m) []) s1))"
      using ok1 by (simp add: vg_cache_ok_def getMoveMini_vg_cache)
    have ok3: "vg_cache_ok net (if mt = [] then s1
        else snd (getMoveMini net (str_or (move_name m) []) s1))"
      using ok1 ok2 by simp
    show ?thesis
      using True md mt Cons.IH [OF ok3] by simp
  qed
qed

lemma stable_net_versions: "stable net_versions"
  by (simp add: stable_def net_versions_def)

lemma vg_cache_ok_init: "vg_cache_ok net init_state"
  by (simp add: vg_cache_ok_def init_state_def fresh_page_def)

text \<open>
  Two details of one version group that is not cached both fetch, and each has the
  generation of its own answer; which of the two the cache keeps depends on the order in
  which the answers arrive.
\<close>

lemma withGen_starts_together:
  "fst (withGen arrive net_down_then_gen1 [detail_level_12, detail_machine] init_state) =
     [(detail_level_12, GenNum 999), (detail_machine, GenNum 1)] \<and>
   netlog (snd (withGen arrive net_down_then_gen1 [detail_level_12, detail_machine] init_state)) =
     [version_group_url ''red-blue'', version_group_url ''red-blue''] \<and>
   versionGroupGenCache
     (snd (withGen (\<lambda>i. i) net_down_then_gen1 [detail_level_12, detail_machine] init_state))
     ''red-blue'' = Some (GenNum 1) \<and>
   versionGroupGenCache
     (snd (withGen (\<lambda>i. 1 - i) net_down_then_gen1 [detail_level_12, detail_machine] init_state))
     ''red-blue'' = Some (GenNum 999)"
proof -
  let ?ds = "[detail_level_12, detail_machine]"
  let ?u = "version_group_url ''red-blue''"
  let ?p = "Response True (Some (JObj [(''generation'', JObj [(''name'', JStr ''generation-i'')])]))"
  have st: "withGen_start net_down_then_gen1 ?ds init_state =
      ([Waiting 0 ''red-blue'' Rejected, Waiting 1 ''red-blue'' ?p],
       init_state\<lparr>netlog := [?u, ?u]\<rparr>)"
    by (simp add: getVersionGroupGenNumber_start_def detail_level_12_def detail_machine_def
        init_state_def fresh_page_def fetch_def net_down_then_gen1_def)
  have a1: "getVersionGroupGenNumber_answer Rejected = GenNum 999"
    by (simp add: getVersionGroupGenNumber_answer_def getVersionGroupGenNumber_try_def)
  have a2: "getVersionGroupGenNumber_answer ?p = GenNum 1"
    by (simp add: getVersionGroupGenNumber_answer_def getVersionGroupGenNumber_try_def
        name_of_def opt_prop_def as_string_def genSlugToNumber_def lookup_def Let_def str_or_def
        startsWith_def)
  have r: "fst (withGen arrive net_down_then_gen1 ?ds init_state) =
      [(detail_level_12, GenNum 999), (detail_machine, GenNum 1)]"
    unfolding withGen_def st by (simp add: started_gen_def a1 a2)
  have n: "\<And>t ws. netlog (settle_all ws t) = netlog t"
  proof -
    fix t ws show "netlog (settle_all ws t) = netlog t"
      by (induction ws arbitrary: t)
        (simp_all add: settle_all_def getVersionGroupGenNumber_settle_def
          set_versionGroupGen_def Let_def)
  qed
  have l: "netlog (snd (withGen arrive net_down_then_gen1 ?ds init_state)) = [?u, ?u]"
    unfolding withGen_def st by (simp add: n)
  have c1: "versionGroupGenCache (snd (withGen (\<lambda>i. i) net_down_then_gen1 ?ds init_state))
      ''red-blue'' = Some (GenNum 1)"
    unfolding withGen_def st
    by (simp add: sort_by_def by_arrival_def settle_all_def
        getVersionGroupGenNumber_settle_def set_versionGroupGen_def a1 a2 Let_def)
  have c2: "versionGroupGenCache (snd (withGen (\<lambda>i. 1 - i) net_down_then_gen1 ?ds init_state))
      ''red-blue'' = Some (GenNum 999)"
    unfolding withGen_def st
    by (simp add: sort_by_def by_arrival_def settle_all_def
        getVersionGroupGenNumber_settle_def set_versionGroupGen_def a1 a2 Let_def)
  from r l c1 c2 show ?thesis by blast
qed

text \<open>
  C5. For every generation filter and name filter, the number of records of a name in
  the five buckets of \<open>buildMoves\<close> is the number of candidate moves of that name
  that have at least one matching detail. So, move names being distinct, a candidate
  with at least one matching detail is in exactly one of the five buckets, and a name
  none of whose candidates has a matching detail (in particular a move with zero
  matching details, or one the name filter leaves out) is in none. The candidates are
  the named moves that the name filter lets through. With no generation filter the
  matching details of a candidate are all its details; with the filter \<open>g\<close>, over a
  service that answers a URL the same way every time and a cache that agrees with it,
  they are the details whose version group is of generation \<open>g\<close>, in their order.
  The witness runs the sample moves without a filter and with the filters 1 and 2: under
  1 the move \<open>tackle\<close> keeps only its detail of the first generation, under 2 no move
  has a matching detail and none is in a bucket.
\<close>

theorem move_bucket_exclusivity:
  "occurrences (fst (buildMoves arrive net lc genWanted q moves s)) k =
     length (filter (\<lambda>e. fst e = k \<and> snd e \<noteq> []) (resolved_moves arrive net genWanted q moves s)) \<and>
   (distinct (map move_name moves) \<and>
    (k, mt) \<in> set (resolved_moves arrive net genWanted q moves s) \<and> mt \<noteq> [] \<longrightarrow>
      length (filter (\<lambda>b. k \<in> name ` set b)
                (buckets (fst (buildMoves arrive net lc genWanted q moves s)))) = 1) \<and>
   ((\<forall>e \<in> set (resolved_moves arrive net genWanted q moves s). fst e = k \<longrightarrow> snd e = []) \<longrightarrow>
      (\<forall>b \<in> set (buckets (fst (buildMoves arrive net lc genWanted q moves s))). k \<notin> name ` set b)) \<and>
   map fst (resolved_moves arrive net genWanted q moves s) =
     map (\<lambda>m. str_or (move_name m) []) (filter (is_candidate q) moves) \<and>
   (genWanted = None \<or> genWanted = Some 0 \<longrightarrow>
      map snd (resolved_moves arrive net genWanted q moves s) =
        map version_group_details (filter (is_candidate q) moves)) \<and>
   (stable net \<and> vg_cache_ok net s \<and> genWanted = Some g \<and> g \<noteq> 0 \<longrightarrow>
      map snd (resolved_moves arrive net genWanted q moves s) =
        map (\<lambda>m. filter (\<lambda>d. vg_generation net (version_group d) = GenNum g)
                    (version_group_details m))
            (filter (is_candidate q) moves))"
proof -
  let ?rm = "resolved_moves arrive net genWanted q moves s"
  let ?out = "fst (buildMoves arrive net lc genWanted q moves s)"
  have a: "occurrences ?out k = length (filter (\<lambda>e. fst e = k \<and> snd e \<noteq> []) ?rm)"
    by (rule occurrences_buildMoves)
  have b: "distinct (map move_name moves) \<and> (k, mt) \<in> set ?rm \<and> mt \<noteq> [] \<longrightarrow>
      length (filter (\<lambda>b. k \<in> name ` set b) (buckets ?out)) = 1"
  proof
    assume h: "distinct (map move_name moves) \<and> (k, mt) \<in> set ?rm \<and> mt \<noteq> []"
    then have "distinct (map fst ?rm)"
      by (simp add: resolved_moves_names candidate_names_distinct)
    with h have "length (filter (\<lambda>e. fst e = k \<and> snd e \<noteq> []) ?rm) = 1"
      by (intro distinct_fst_count [of ?rm k mt]) auto
    with a have "occurrences ?out k = 1" by simp
    then show "length (filter (\<lambda>b. k \<in> name ` set b) (buckets ?out)) = 1" by (rule one_bucket)
  qed
  have c: "(\<forall>e \<in> set ?rm. fst e = k \<longrightarrow> snd e = []) \<longrightarrow>
      (\<forall>b \<in> set (buckets ?out). k \<notin> name ` set b)"
  proof
    assume "\<forall>e \<in> set ?rm. fst e = k \<longrightarrow> snd e = []"
    then have "filter (\<lambda>e. fst e = k \<and> snd e \<noteq> []) ?rm = []"
      by (auto simp: filter_empty_conv)
    with a have "occurrences ?out k = 0" by simp
    then show "\<forall>b \<in> set (buckets ?out). k \<notin> name ` set b" by (rule no_bucket)
  qed
  have d: "map fst ?rm = map (\<lambda>m. str_or (move_name m) []) (filter (is_candidate q) moves)"
    by (rule resolved_moves_names)
  have e: "genWanted = None \<or> genWanted = Some 0 \<longrightarrow>
      map snd ?rm = map version_group_details (filter (is_candidate q) moves)"
    by (simp add: resolved_moves_all)
  have f: "stable net \<and> vg_cache_ok net s \<and> genWanted = Some g \<and> g \<noteq> 0 \<longrightarrow>
      map snd ?rm =
        map (\<lambda>m. filter (\<lambda>d. vg_generation net (version_group d) = GenNum g)
                    (version_group_details m))
            (filter (is_candidate q) moves)"
    using resolved_moves_filtered [of net s g arrive q moves] by blast
  from a b c d e f show ?thesis by blast
qed

theorem move_bucket_exclusivity_witness:
  "length (filter (\<lambda>b. ''tackle'' \<in> name ` set b)
     (buckets (fst (buildMoves (\<lambda>i. i) (\<lambda>i u. Rejected) (\<lambda>a b. 0) None [] sample_moves init_state)))) = 1 \<and>
   occurrences (fst (buildMoves (\<lambda>i. i) (\<lambda>i u. Rejected) (\<lambda>a b. 0) None [] sample_moves init_state)) ''cut'' = 1 \<and>
   occurrences (fst (buildMoves (\<lambda>i. i) (\<lambda>i u. Rejected) (\<lambda>a b. 0) None [] sample_moves init_state)) ''growl'' = 0 \<and>
   resolved_moves (\<lambda>i. i) net_versions (Some 1) [] sample_moves init_state =
     [(''tackle'', [detail_level_12]), (''cut'', [detail_machine]), (''growl'', [])] \<and>
   length (filter (\<lambda>b. ''tackle'' \<in> name ` set b)
     (buckets (fst (buildMoves (\<lambda>i. i) net_versions (\<lambda>a b. 0) (Some 1) [] sample_moves init_state)))) = 1 \<and>
   resolved_moves (\<lambda>i. i) net_versions (Some 2) [] sample_moves init_state =
     [(''tackle'', []), (''cut'', []), (''growl'', [])] \<and>
   occurrences (fst (buildMoves (\<lambda>i. i) net_versions (\<lambda>a b. 0) (Some 2) [] sample_moves init_state)) ''tackle'' = 0"
proof -
  let ?net = "\<lambda>(i::nat) (u::string). Rejected"
  let ?lc = "\<lambda>(a::string) (b::string). 0::int"
  let ?id = "\<lambda>i::nat. i"
  note T = move_bucket_exclusivity [where arrive = ?id and net = ?net and lc = ?lc
      and genWanted = None and q = "[]" and moves = sample_moves and s = init_state]
  note G1 = move_bucket_exclusivity [where arrive = ?id and net = net_versions and lc = ?lc
      and genWanted = "Some 1" and g = 1 and q = "[]" and moves = sample_moves and s = init_state]
  note G2 = move_bucket_exclusivity [where arrive = ?id and net = net_versions and lc = ?lc
      and genWanted = "Some 2" and g = 2 and q = "[]" and moves = sample_moves and s = init_state]
  have cand: "filter (is_candidate []) sample_moves = sample_moves"
    by (simp add: sample_moves_def is_candidate_def str_truthy_def)
  have nm: "map (\<lambda>m. str_or (move_name m) []) sample_moves = [''tackle'', ''cut'', ''growl'']"
    by (simp add: sample_moves_def str_or_def)
  have fs: "map fst (resolved_moves ?id ?net None [] sample_moves init_state) =
      [''tackle'', ''cut'', ''growl'']"
    using T [of "[]" "[]" 0] by (simp add: cand nm)
  have sn: "map snd (resolved_moves ?id ?net None [] sample_moves init_state) =
      [[detail_level_12, detail_level_7], [detail_machine], []]"
    using T [of "[]" "[]" 0] by (simp add: cand) (simp add: sample_moves_def)
  have rm: "resolved_moves ?id ?net None [] sample_moves init_state =
      [(''tackle'', [detail_level_12, detail_level_7]), (''cut'', [detail_machine]), (''growl'', [])]"
    using fs sn
      zip_map_fst_snd [of "resolved_moves ?id ?net None [] sample_moves init_state", symmetric]
    by simp
  have d: "distinct (map move_name sample_moves)" by (simp add: sample_moves_def)
  have a: "length (filter (\<lambda>b. ''tackle'' \<in> name ` set b)
     (buckets (fst (buildMoves ?id ?net ?lc None [] sample_moves init_state)))) = 1"
    using T [of "''tackle''" "[detail_level_12, detail_level_7]" 0] d rm by simp
  have b: "occurrences (fst (buildMoves ?id ?net ?lc None [] sample_moves init_state)) ''cut'' = 1"
    using T [of "''cut''" "[]" 0] rm by simp
  have c: "occurrences (fst (buildMoves ?id ?net ?lc None [] sample_moves init_state)) ''growl'' = 0"
    using T [of "''growl''" "[]" 0] rm by simp
  have gen: "vg_generation net_versions (Some ''red-blue'') = GenNum 1"
    "vg_generation net_versions (Some ''yellow'') = GenNum 999"
    by (simp_all add: vg_generation_def net_versions_def version_group_url_def version_url_def
        getVersionGroupGenNumber_answer_def getVersionGroupGenNumber_try_def
        name_of_def opt_prop_def as_string_def genSlugToNumber_def lookup_def Let_def str_or_def
        startsWith_def)
  have vgs: "version_group detail_level_12 = Some ''red-blue''"
    "version_group detail_level_7 = Some ''yellow''"
    "version_group detail_machine = Some ''red-blue''"
    by (simp_all add: detail_level_12_def detail_level_7_def detail_machine_def)
  have pre: "stable net_versions" "vg_cache_ok net_versions init_state"
    by (rule stable_net_versions, rule vg_cache_ok_init)
  have fs1: "map fst (resolved_moves ?id net_versions (Some 1) [] sample_moves init_state) =
      [''tackle'', ''cut'', ''growl'']"
    using G1 [of "[]" "[]"] by (simp add: cand nm)
  have sn1: "map snd (resolved_moves ?id net_versions (Some 1) [] sample_moves init_state) =
      [[detail_level_12], [detail_machine], []]"
    using G1 [of "[]" "[]"] pre by (simp add: cand) (simp add: sample_moves_def gen vgs)
  have rm1: "resolved_moves ?id net_versions (Some 1) [] sample_moves init_state =
      [(''tackle'', [detail_level_12]), (''cut'', [detail_machine]), (''growl'', [])]"
    using fs1 sn1
      zip_map_fst_snd [of "resolved_moves ?id net_versions (Some 1) [] sample_moves init_state",
        symmetric]
    by simp
  have a1: "length (filter (\<lambda>b. ''tackle'' \<in> name ` set b)
     (buckets (fst (buildMoves ?id net_versions ?lc (Some 1) [] sample_moves init_state)))) = 1"
    using G1 [of "''tackle''" "[detail_level_12]"] d rm1 by simp
  have fs2: "map fst (resolved_moves ?id net_versions (Some 2) [] sample_moves init_state) =
      [''tackle'', ''cut'', ''growl'']"
    using G2 [of "[]" "[]"] by (simp add: cand nm)
  have sn2: "map snd (resolved_moves ?id net_versions (Some 2) [] sample_moves init_state) =
      [[], [], []]"
    using G2 [of "[]" "[]"] pre by (simp add: cand) (simp add: sample_moves_def gen vgs)
  have rm2: "resolved_moves ?id net_versions (Some 2) [] sample_moves init_state =
      [(''tackle'', []), (''cut'', []), (''growl'', [])]"
    using fs2 sn2
      zip_map_fst_snd [of "resolved_moves ?id net_versions (Some 2) [] sample_moves init_state",
        symmetric]
    by simp
  have a2: "occurrences (fst (buildMoves ?id net_versions ?lc (Some 2) [] sample_moves init_state))
      ''tackle'' = 0"
    using G2 [of "''tackle''" "[]"] rm2 by simp
  from a b c rm1 a1 rm2 a2 show ?thesis by blast
qed

section \<open>Variant and form catalog\<close>

lemma uniq_set: "set (uniq xs) = set xs"
  by (induction xs) auto

lemma uniq_distinct: "distinct (uniq xs)"
  by (induction xs) (auto simp: uniq_set)

lemma catalog_loop_variants:
  assumes "distinct cands"
  shows "\<exists>ps. variants (fst (catalog_loop net baseName cands c s)) =
            variants c @ map (mk_entry baseName) ps \<and>
          distinct ps \<and> set ps \<subseteq> set cands \<and>
          (\<forall>p \<in> set ps. p = baseName \<or> isRegionalVariant p)"
  using assms
proof (induction cands arbitrary: c s)
  case Nil
  show ?case by (rule exI [of _ "[]"]) simp
next
  case (Cons pnm rest)
  obtain ok s1 where p: "pokemonExists net pnm s = (ok, s1)"
    by (cases "pokemonExists net pnm s")
  from Cons.prems have dr: "distinct rest" and nin: "pnm \<notin> set rest" by simp_all
  show ?case
  proof (cases "ok \<and> (pnm = baseName \<or> isRegionalVariant pnm)")
    case True
    let ?c1 = "classify baseName pnm c"
    have v1: "variants ?c1 = variants c @ [mk_entry baseName pnm]"
      using True by (simp add: classify_def mk_entry_def Let_def)
    from Cons.IH [OF dr, of ?c1 s1] obtain ps where
      ps: "variants (fst (catalog_loop net baseName rest ?c1 s1)) =
             variants ?c1 @ map (mk_entry baseName) ps"
        "distinct ps" "set ps \<subseteq> set rest" "\<forall>p \<in> set ps. p = baseName \<or> isRegionalVariant p"
      by blast
    show ?thesis
    proof (rule exI [of _ "pnm # ps"], intro conjI)
      show "variants (fst (catalog_loop net baseName (pnm # rest) c s)) =
          variants c @ map (mk_entry baseName) (pnm # ps)"
        using p True ps(1) v1 by simp
      show "distinct (pnm # ps)" using ps(2,3) nin by auto
      show "set (pnm # ps) \<subseteq> set (pnm # rest)" using ps(3) by auto
      show "\<forall>p \<in> set (pnm # ps). p = baseName \<or> isRegionalVariant p" using ps(4) True by auto
    qed
  next
    case False
    let ?c1 = "if ok then classify baseName pnm c else c"
    have v1: "variants ?c1 = variants c"
      using False by (auto simp: classify_def Let_def)
    from Cons.IH [OF dr, of ?c1 s1] obtain ps where
      ps: "variants (fst (catalog_loop net baseName rest ?c1 s1)) =
             variants ?c1 @ map (mk_entry baseName) ps"
        "distinct ps" "set ps \<subseteq> set rest" "\<forall>p \<in> set ps. p = baseName \<or> isRegionalVariant p"
      by blast
    show ?thesis
    proof (rule exI [of _ ps], intro conjI)
      show "variants (fst (catalog_loop net baseName (pnm # rest) c s)) =
          variants c @ map (mk_entry baseName) ps"
        using p ps(1) v1 by (cases ok) simp_all
      show "distinct ps" by (rule ps(2))
      show "set ps \<subseteq> set (pnm # rest)" using ps(3) by auto
      show "\<forall>p \<in> set ps. p = baseName \<or> isRegionalVariant p" by (rule ps(4))
    qed
  qed
qed

lemma mk_entry_base: "mk_entry baseName baseName = base_entry baseName"
  by (simp add: mk_entry_def base_entry_def prettyLabel_def)

lemma pokemonName_mk_entry: "pokemonName (mk_entry baseName p) = p"
  by (simp add: mk_entry_def)

lemma count_base_map:
  assumes "distinct ps"
  shows "length (filter (\<lambda>e. pokemonName e = baseName) (map (mk_entry baseName) ps)) =
     (if baseName \<in> set ps then 1 else 0)"
proof -
  have "length (filter (\<lambda>e. pokemonName e = baseName) (map (mk_entry baseName) ps)) =
      length (filter (\<lambda>p. p = baseName) ps)"
    by (simp add: filter_map comp_def pokemonName_mk_entry)
  also have "\<dots> = (if baseName \<in> set ps then 1 else 0)"
    using assms by (induction ps) (auto simp: filter_empty_conv)
  finally show ?thesis .
qed

lemma unsorted_variant_list:
  assumes "distinct ps" and "\<forall>p \<in> set ps. p = baseName \<or> isRegionalVariant p"
  shows "variant_list baseName
     (if \<not> list_ex (\<lambda>e. pokemonName e = baseName) (map (mk_entry baseName) ps)
      then base_entry baseName # map (mk_entry baseName) ps
      else map (mk_entry baseName) ps)"
proof (cases "baseName \<in> set ps")
  case True
  then have ex: "list_ex (\<lambda>e. pokemonName e = baseName) (map (mk_entry baseName) ps)"
    by (auto simp: list_ex_iff pokemonName_mk_entry)
  show ?thesis
    using True ex assms count_base_map [OF assms(1), of baseName]
    by (auto simp: variant_list_def pokemonName_mk_entry mk_entry_base)
next
  case False
  then have ex: "\<not> list_ex (\<lambda>e. pokemonName e = baseName) (map (mk_entry baseName) ps)"
    by (auto simp: list_ex_iff pokemonName_mk_entry)
  show ?thesis
    using False ex assms count_base_map [OF assms(1), of baseName]
    by (auto simp: variant_list_def pokemonName_mk_entry base_entry_def)
qed

lemma variant_list_sort:
  assumes "variant_list baseName vs"
  shows "variant_list baseName (sort_by cmp vs)"
  using assms
  by (simp add: variant_list_def filter_sort_by set_sort_by)

lemma insort_base_first:
  assumes "pokemonName x = baseName \<or> (ys \<noteq> [] \<and> pokemonName (hd ys) = baseName)"
  shows "pokemonName (hd (insort_by (variant_cmp lc baseName) x ys)) = baseName"
proof (cases ys)
  case Nil
  with assms show ?thesis by simp
next
  case (Cons y ys')
  show ?thesis
  proof (cases "pokemonName y = baseName")
    case True
    show ?thesis
    proof (cases "pokemonName x = baseName")
      case x: True
      with True Cons show ?thesis by simp
    next
      case x: False
      with True have "variant_cmp lc baseName x y = 1" by (simp add: variant_cmp_def)
      with True Cons show ?thesis by simp
    qed
  next
    case False
    with assms Cons have x: "pokemonName x = baseName" by simp
    with False have "variant_cmp lc baseName x y = - 1" by (simp add: variant_cmp_def)
    with x Cons show ?thesis by simp
  qed
qed

lemma insort_by_not_Nil: "insort_by cmp x ys \<noteq> []"
  by (cases ys) auto

lemma sort_base_first:
  assumes "\<exists>e \<in> set vs. pokemonName e = baseName"
  shows "sort_by (variant_cmp lc baseName) vs \<noteq> [] \<and>
     pokemonName (hd (sort_by (variant_cmp lc baseName) vs)) = baseName"
  using assms
proof (induction vs)
  case Nil
  then show ?case by simp
next
  case (Cons x xs)
  have s: "sort_by (variant_cmp lc baseName) (x # xs) =
      insort_by (variant_cmp lc baseName) x (sort_by (variant_cmp lc baseName) xs)"
    by (simp add: sort_by_def)
  have "pokemonName x = baseName \<or>
      (sort_by (variant_cmp lc baseName) xs \<noteq> [] \<and>
       pokemonName (hd (sort_by (variant_cmp lc baseName) xs)) = baseName)"
    using Cons by auto
  then show ?case unfolding s by (simp add: insort_base_first insort_by_not_Nil)
qed

lemma variant_list_hd:
  assumes "variant_list baseName vs" and "vs \<noteq> []" and "pokemonName (hd vs) = baseName"
  shows "hd vs = base_entry baseName"
    and "\<forall>i j. i < j \<and> j < length vs \<longrightarrow>
           \<not> (isRegionalVariant (pokemonName (vs ! i)) \<and> \<not> isRegionalVariant (pokemonName (vs ! j)))"
proof -
  from assms(2) obtain v vs' where vs: "vs = v # vs'" by (cases vs) auto
  with assms(3) have v: "pokemonName v = baseName" by simp
  from assms(1) vs v show "hd vs = base_entry baseName" by (simp add: variant_list_def)
  from assms(1) vs v have "filter (\<lambda>e. pokemonName e = baseName) vs' = []"
    by (simp add: variant_list_def)
  then have nb: "\<forall>e \<in> set vs'. pokemonName e \<noteq> baseName" by (simp add: filter_empty_conv)
  with assms(1) vs have reg: "\<forall>e \<in> set vs'. isRegionalVariant (pokemonName e)"
    by (simp add: variant_list_def)
  show "\<forall>i j. i < j \<and> j < length vs \<longrightarrow>
           \<not> (isRegionalVariant (pokemonName (vs ! i)) \<and> \<not> isRegionalVariant (pokemonName (vs ! j)))"
  proof (intro allI impI)
    fix i j assume "i < j \<and> j < length vs"
    then obtain j' where j: "j = Suc j'" "j' < length vs'" using vs by (cases j) auto
    then have "vs ! j \<in> set vs'" using vs by simp
    with reg have "isRegionalVariant (pokemonName (vs ! j))" by blast
    then show "\<not> (isRegionalVariant (pokemonName (vs ! i)) \<and> \<not> isRegionalVariant (pokemonName (vs ! j)))"
      by simp
  qed
qed

lemma vulpix_variants:
  "variants (fst (buildCatalog net_vulpix (\<lambda>a b. 0) ''vulpix''
      [Some ''vulpix-alola'', Some ''vulpix'', None, Some ''vulpix-hat''] [Some ''vulpix''] init_state)) =
   [\<lparr>label = ''Base'', pokemonName = ''vulpix''\<rparr>,
    \<lparr>label = ''Alola'', pokemonName = ''vulpix-alola''\<rparr>]"
  by code_simp

text \<open>
  C6. For every catalog that \<open>buildCatalog\<close> builds, whatever the candidates, the
  network and the comparison of labels, the variant bucket is not empty, its first entry
  is the base entry \<open>{label: "Base", pokemonName: baseName}\<close> (the candidate equal to
  the base name when it exists, the synthetic entry otherwise), exactly one entry has the
  base name, and no regional entry stands before a non-regional one.
\<close>

theorem variant_bucket_order:
  "variants (fst (buildCatalog net lc baseName varieties forms s)) \<noteq> [] \<and>
   hd (variants (fst (buildCatalog net lc baseName varieties forms s))) =
     \<lparr>label = ''Base'', pokemonName = baseName\<rparr> \<and>
   length (filter (\<lambda>e. pokemonName e = baseName)
             (variants (fst (buildCatalog net lc baseName varieties forms s)))) = 1 \<and>
   (\<forall>i j. i < j \<and> j < length (variants (fst (buildCatalog net lc baseName varieties forms s))) \<longrightarrow>
      \<not> (isRegionalVariant
            (pokemonName (variants (fst (buildCatalog net lc baseName varieties forms s)) ! i)) \<and>
         \<not> isRegionalVariant
            (pokemonName (variants (fst (buildCatalog net lc baseName varieties forms s)) ! j))))"
proof -
  let ?cands = "uniq (filter (\<lambda>n. n \<noteq> []) (map (\<lambda>v. str_or v []) varieties) @
                      filter (\<lambda>n. n \<noteq> []) (map (\<lambda>f. str_or f []) forms))"
  let ?c0 = "\<lparr>variants = [], megas = [], gmax = [], others = []\<rparr>"
  obtain c s1 where l: "catalog_loop net baseName ?cands ?c0 s = (c, s1)"
    by (cases "catalog_loop net baseName ?cands ?c0 s")
  have "\<exists>ps. variants (fst (catalog_loop net baseName ?cands ?c0 s)) =
            variants ?c0 @ map (mk_entry baseName) ps \<and>
          distinct ps \<and> set ps \<subseteq> set ?cands \<and>
          (\<forall>p \<in> set ps. p = baseName \<or> isRegionalVariant p)"
    by (rule catalog_loop_variants [OF uniq_distinct])
  then obtain ps where ps0: "variants (fst (catalog_loop net baseName ?cands ?c0 s)) =
            variants ?c0 @ map (mk_entry baseName) ps"
    and ps23: "distinct ps" "\<forall>p \<in> set ps. p = baseName \<or> isRegionalVariant p"
    by blast
  have ps1: "variants c = map (mk_entry baseName) ps"
    using ps0 l by simp
  note ps = ps1 ps23
  let ?vs = "if \<not> list_ex (\<lambda>e. pokemonName e = baseName) (variants c)
             then \<lparr>label = ''Base'', pokemonName = baseName\<rparr> # variants c else variants c"
  have vl: "variant_list baseName ?vs"
    using unsorted_variant_list [OF ps(2,3)] by (simp add: ps(1) base_entry_def split: if_splits)
  let ?sorted = "sort_by (variant_cmp lc baseName) ?vs"
  have r: "variants (fst (buildCatalog net lc baseName varieties forms s)) = ?sorted"
    using l by (simp add: buildCatalog_def Let_def)
  have vls: "variant_list baseName ?sorted" using vl by (rule variant_list_sort)
  have "length (filter (\<lambda>e. pokemonName e = baseName) ?vs) = 1"
    using vl by (simp add: variant_list_def)
  then have "filter (\<lambda>e. pokemonName e = baseName) ?vs \<noteq> []" by auto
  then have "\<exists>e \<in> set ?vs. pokemonName e = baseName" by (simp add: filter_empty_conv)
  then have hd: "?sorted \<noteq> [] \<and> pokemonName (hd ?sorted) = baseName" by (rule sort_base_first)
  note H = variant_list_hd [OF vls conjunct1 [OF hd] conjunct2 [OF hd]]
  have cnt: "length (filter (\<lambda>e. pokemonName e = baseName) ?sorted) = 1"
    using vls by (simp add: variant_list_def)
  show ?thesis
    unfolding r using hd H cnt by (simp add: base_entry_def)
qed

theorem variant_bucket_order_witness:
  "hd (variants (fst (buildCatalog net_vulpix (\<lambda>a b. 0) ''vulpix''
      [Some ''vulpix-alola'', Some ''vulpix'', None, Some ''vulpix-hat''] [Some ''vulpix''] init_state))) =
     \<lparr>label = ''Base'', pokemonName = ''vulpix''\<rparr> \<and>
   \<not> (isRegionalVariant (pokemonName (variants (fst (buildCatalog net_vulpix (\<lambda>a b. 0) ''vulpix''
      [Some ''vulpix-alola'', Some ''vulpix'', None, Some ''vulpix-hat''] [Some ''vulpix''] init_state)) ! 0)) \<and>
      \<not> isRegionalVariant (pokemonName (variants (fst (buildCatalog net_vulpix (\<lambda>a b. 0) ''vulpix''
      [Some ''vulpix-alola'', Some ''vulpix'', None, Some ''vulpix-hat''] [Some ''vulpix''] init_state)) ! 1))) \<and>
   hd (variants (fst (buildCatalog (\<lambda>i u. Rejected) (\<lambda>a b. 0) ''pikachu'' [Some ''pikachu''] []
      init_state))) = \<lparr>label = ''Base'', pokemonName = ''pikachu''\<rparr>"
proof -
  let ?v = "variants (fst (buildCatalog net_vulpix (\<lambda>a b. 0) ''vulpix''
      [Some ''vulpix-alola'', Some ''vulpix'', None, Some ''vulpix-hat''] [Some ''vulpix''] init_state))"
  note T = variant_bucket_order [where net = net_vulpix and lc = "\<lambda>a b. 0" and baseName = "''vulpix''"
      and varieties = "[Some ''vulpix-alola'', Some ''vulpix'', None, Some ''vulpix-hat'']"
      and forms = "[Some ''vulpix'']" and s = init_state]
  have len: "(0::nat) < 1 \<and> 1 < length ?v" by (simp add: vulpix_variants)
  have a: "hd ?v = \<lparr>label = ''Base'', pokemonName = ''vulpix''\<rparr>" using T by blast
  have b: "\<not> (isRegionalVariant (pokemonName (?v ! 0)) \<and> \<not> isRegionalVariant (pokemonName (?v ! 1)))"
    using T len by blast
  have c: "hd (variants (fst (buildCatalog (\<lambda>i u. Rejected) (\<lambda>a b. 0) ''pikachu'' [Some ''pikachu''] []
      init_state))) = \<lparr>label = ''Base'', pokemonName = ''pikachu''\<rparr>"
    using variant_bucket_order [where net = "\<lambda>i u. Rejected" and lc = "\<lambda>a b. 0"
        and baseName = "''pikachu''" and varieties = "[Some ''pikachu'']" and forms = "[]"
        and s = init_state]
    by blast
  from a b c show ?thesis by blast
qed

end
